theory Spec2Isabelle
  imports Main "HOL-Library.Word"
begin

section \<open>The CometMigrator contract (the Solidity source carried by src/web/AaveV2Migrator.tsx)\<close>

text \<open>
  The contract keeps one storage variable, the guard \<open>inMigration\<close>; everything else
  it does is a call to another contract (a source market, a liquidity pool, a token, the
  target protocol). The model therefore has two parts of state: the guard, and the
  sequence of state-changing external calls the contract has made so far in the order it
  made them. What a collaborator answers (a balance, an error code, a fee) is a parameter
  of the model: a function of the call's arguments and, where the answer depends on the
  collaborator's state, of the calls made before it.

  A revert is the value \<open>Inl e\<close>. A reverted call returns no state: the EVM discards
  every effect of a reverted call, so the caller continues from the state before it.
\<close>

subsection \<open>Data\<close>

type_synonym address = "160 word"
type_synonym uint256 = "256 word"
type_synonym int256 = "256 word" \<comment> \<open>two's complement; \<open>sint\<close> reads it\<close>
type_synonym uint160 = "160 word"

record Collateral =
  cToken :: address
  amount :: uint256

record BorrowData =
  borrowCToken :: address
  borrowAmount :: uint256
  pool :: address
  isFlashLoan :: bool

text \<open>
  \<open>abi.encode\<close> followed by \<open>abi.decode\<close> at the same type is the identity, so the
  callback data is the struct itself. \<open>step\<close> is a \<open>uint256\<close> used only as an array
  index and incremented below the array length; it is a \<open>nat\<close> here.
\<close>

record MigrationCallbackData =
  user :: address
  borrowData :: "BorrowData list"
  collateral :: "Collateral list"
  baseToken :: address
  totalBaseToBorrow :: uint256
  step :: nat

datatype error =
    Reentrancy uint256
  | CompoundV2Error uint256 uint256
  | SweepFailure uint256
  | CTokenTransferFailure
  | RequireFailed string \<comment> \<open>\<open>require(cond, message)\<close>\<close>
  | Panic nat \<comment> \<open>0x11: checked arithmetic overflow; 0x32: array index out of bounds\<close>
  | ExternalRevert \<comment> \<open>a called contract reverted\<close>

text \<open>The state-changing interactions of the contract with other contracts.\<close>

datatype call =
    BorrowBalanceCurrent address address \<comment> \<open>cToken, account\<close>
  | Approve address address uint256 \<comment> \<open>token, spender, amount\<close>
  | RepayBorrowBehalf address address uint256 \<comment> \<open>cToken, borrower, amount\<close>
  | Transfer address address uint256 \<comment> \<open>token, recipient, amount\<close>
  | TransferFrom address address address uint256 \<comment> \<open>cToken, from, to, amount\<close>
  | Redeem address uint256 \<comment> \<open>cToken, amount\<close>
  | WethDeposit address uint256 \<comment> \<open>weth, value\<close>
  | SupplyTo address address address uint256 \<comment> \<open>comet, dst, asset, amount\<close>
  | WithdrawFrom address address address address uint256 \<comment> \<open>comet, src, to, asset, amount\<close>
  | Flash address address uint256 uint256 MigrationCallbackData
      \<comment> \<open>pool, recipient, amount0, amount1, data\<close>
  | Swap address address bool int256 uint160 MigrationCallbackData
      \<comment> \<open>pool, recipient, zeroForOne, amountSpecified, sqrtPriceLimitX96, data\<close>
  | Send address uint256 \<comment> \<open>recipient, native amount\<close>
  | Migrated address "Collateral list" uint256 uint256 \<comment> \<open>the event\<close>

record world =
  inMigration :: uint256
  calls :: "call list"

text \<open>The immutables written by the constructor, and the contract's own address.\<close>

record config =
  comet :: address
  cETH :: address
  weth :: address
  sweepee :: address
  this :: address

text \<open>
  The collaborators, which are not part of the source: each field is what the named
  external function answers, given the calls made before. View functions of immutable data
  (\<open>underlying\<close>, \<open>token0\<close>, \<open>token1\<close>) take no history. A read (a view
  function, a balance) is taken to answer; the state-changing calls are those that may
  revert (\<open>reverts\<close>). What a pool quotes is a
  function of the pool and of what is asked of it: a pool is locked while it serves a
  request, and every request of a migration is made inside the callback of the one before,
  so no pool quotes twice in one migration.
\<close>

record env =
  underlying :: "address \<Rightarrow> address" \<comment> \<open>cToken\<close>
  token0 :: "address \<Rightarrow> address" \<comment> \<open>pool\<close>
  token1 :: "address \<Rightarrow> address" \<comment> \<open>pool\<close>
  borrowBalanceCurrent :: "address \<Rightarrow> address \<Rightarrow> call list \<Rightarrow> uint256" \<comment> \<open>cToken, account\<close>
  repayBorrowBehalf :: "address \<Rightarrow> address \<Rightarrow> uint256 \<Rightarrow> call list \<Rightarrow> uint256"
    \<comment> \<open>cToken, borrower, amount: the error code\<close>
  balanceOf :: "address \<Rightarrow> address \<Rightarrow> call list \<Rightarrow> uint256" \<comment> \<open>token, holder\<close>
  transferFrom :: "address \<Rightarrow> address \<Rightarrow> address \<Rightarrow> uint256 \<Rightarrow> call list \<Rightarrow> bool"
  transfer :: "address \<Rightarrow> address \<Rightarrow> uint256 \<Rightarrow> call list \<Rightarrow> bool"
  redeem :: "address \<Rightarrow> uint256 \<Rightarrow> call list \<Rightarrow> uint256" \<comment> \<open>the error code\<close>
  balance :: "address \<Rightarrow> call list \<Rightarrow> uint256" \<comment> \<open>native balance of an address\<close>
  send :: "address \<Rightarrow> uint256 \<Rightarrow> call list \<Rightarrow> bool"
  flashFees :: "address \<Rightarrow> uint256 \<Rightarrow> uint256 \<Rightarrow> uint256 \<times> uint256"
    \<comment> \<open>pool, amount0, amount1: the fees fee0 and fee1 the pool quotes\<close>
  swapDeltas :: "address \<Rightarrow> bool \<Rightarrow> int256 \<Rightarrow> uint160 \<Rightarrow> int256 \<times> int256"
    \<comment> \<open>pool, zeroForOne, amountSpecified, limit: amount0Delta and amount1Delta\<close>
  reverts :: "call \<Rightarrow> call list \<Rightarrow> bool" \<comment> \<open>the called contract reverts\<close>
  poolRejects :: "address \<Rightarrow> call list \<Rightarrow> bool"
    \<comment> \<open>the pool finds itself not repaid after its callback has returned\<close>

subsection \<open>Solidity 0.8 primitives\<close>

definition MAX_UINT256 :: uint256 where
  "MAX_UINT256 = - 1"

definition MIN_SQRT_RATIO :: uint160 where
  "MIN_SQRT_RATIO = 4295128739"

definition MAX_SQRT_RATIO :: uint160 where
  "MAX_SQRT_RATIO = 1461446703485210103287273052203988822378723970342"

definition checked_add :: "uint256 \<Rightarrow> uint256 \<Rightarrow> error + uint256" where
  "checked_add a b = (if unat a + unat b < 2 ^ 256 then Inr (a + b) else Inl (Panic 0x11))"

definition checked_sub :: "uint256 \<Rightarrow> uint256 \<Rightarrow> error + uint256" where
  "checked_sub a b = (if unat b \<le> unat a then Inr (a - b) else Inl (Panic 0x11))"

text \<open>\<open>-int256(x)\<close>: the conversion keeps the bits, the negation is checked.\<close>

definition checked_neg :: "uint256 \<Rightarrow> error + int256" where
  "checked_neg a = (if a = 2 ^ 255 then Inl (Panic 0x11) else Inr (- a))"

text \<open>
  A state-changing call to another contract: it reverts, and the revert propagates, or it
  is appended to the calls made.
\<close>

definition ext :: "env \<Rightarrow> call \<Rightarrow> world \<Rightarrow> error + world" where
  "ext env c w =
     (if reverts env c (calls w) then Inl ExternalRevert
      else Inr (w\<lparr>calls := calls w @ [c]\<rparr>))"

subsection \<open>migrateCollateralAndBorrow\<close>

text \<open>
  The body of the loop over \<open>collateral\<close>, for the item \<open>c\<close> at index \<open>i\<close>. The
  index is a \<open>uint8\<close>: \<open>1 + i\<close> overflows at 255.
\<close>

definition migrateCollateralItem ::
  "config \<Rightarrow> env \<Rightarrow> address \<Rightarrow> Collateral \<Rightarrow> nat \<Rightarrow> world \<Rightarrow> error + world" where
  "migrateCollateralItem cfg env usr c i w =
     (let amt = (if amount c = MAX_UINT256 then balanceOf env (cToken c) usr (calls w)
                 else amount c) in
      case ext env (TransferFrom (cToken c) usr (this cfg) amt) w of
        Inl e \<Rightarrow> Inl e
      | Inr w1 \<Rightarrow>
     (if \<not> transferFrom env (cToken c) usr (this cfg) amt (calls w) then Inl CTokenTransferFailure
      else
      let held = balanceOf env (cToken c) (this cfg) (calls w1) in
      case ext env (Redeem (cToken c) held) w1 of
        Inl e \<Rightarrow> Inl e
      | Inr w2 \<Rightarrow>
     (let err = redeem env (cToken c) held (calls w1) in
      if err \<noteq> 0
      then (if i = 255 then Inl (Panic 0x11) else Inl (CompoundV2Error (of_nat (1 + i)) err))
      else
      case (if cToken c = cETH cfg
            then (case ext env (WethDeposit (weth cfg) (balance env (this cfg) (calls w2))) w2 of
                    Inl e \<Rightarrow> Inl e
                  | Inr w3 \<Rightarrow> Inr (weth cfg, w3))
            else Inr (underlying env (cToken c), w2)) of
        Inl e \<Rightarrow> Inl e
      | Inr (underlying', w3) \<Rightarrow>
     (case ext env (Approve underlying' (comet cfg) MAX_UINT256) w3 of
        Inl e \<Rightarrow> Inl e
      | Inr w4 \<Rightarrow>
          ext env (SupplyTo (comet cfg) usr underlying'
                     (balanceOf env underlying' (this cfg) (calls w4))) w4))))"

text \<open>
  The loop \<open>for (uint8 i = 0; i < collateral.length; i++)\<close> from index \<open>i\<close> over the
  items not yet visited: \<open>i++\<close> runs after every body and overflows at 255.
\<close>

fun migrateCollateralLoop ::
  "config \<Rightarrow> env \<Rightarrow> address \<Rightarrow> Collateral list \<Rightarrow> nat \<Rightarrow> world \<Rightarrow> error + world" where
  "migrateCollateralLoop cfg env usr [] i w = Inr w"
| "migrateCollateralLoop cfg env usr (c # cs) i w =
     (case migrateCollateralItem cfg env usr c i w of
        Inl e \<Rightarrow> Inl e
      | Inr w1 \<Rightarrow>
          if i = 255 then Inl (Panic 0x11)
          else migrateCollateralLoop cfg env usr cs (i + 1) w1)"

definition migrateCollateralAndBorrow ::
  "config \<Rightarrow> env \<Rightarrow> MigrationCallbackData \<Rightarrow> uint256 \<Rightarrow> world \<Rightarrow> error + world" where
  "migrateCollateralAndBorrow cfg env migrationData borrowAmountWithFee w =
     (case migrateCollateralLoop cfg env (user migrationData) (collateral migrationData) 0 w of
        Inl e \<Rightarrow> Inl e
      | Inr w1 \<Rightarrow>
     (case ext env (WithdrawFrom (comet cfg) (user migrationData) (this cfg)
                      (baseToken migrationData) borrowAmountWithFee) w1 of
        Inl e \<Rightarrow> Inl e
      | Inr w2 \<Rightarrow>
          Inr (w2\<lparr>calls := calls w2 @
                 [Migrated (user migrationData) (collateral migrationData) 0 borrowAmountWithFee]\<rparr>)))"

subsection \<open>flashLoanOrSwap and the two callbacks\<close>

text \<open>
  Modelled from the spec: the liquidity pool (\<open>IUniswapV3Pool\<close>, whose code is not part
  of the source), \<open>pool_flash\<close> for its \<open>flash\<close> and \<open>pool_swap\<close> for its
  \<open>swap\<close>. A pool asked for a loan or a swap calls back into the contract, once and
  synchronously, before its own call returns, as the caller of the callback, with the fees
  (or the two amount deltas) it quotes; a revert of the callback is a revert of the pool's
  call; and when the callback has returned, a pool that finds itself not repaid reverts.
  \<open>flash\<close> enters \<open>uniswapV3FlashCallback\<close>, \<open>swap\<close> enters
  \<open>uniswapV3SwapCallback\<close>. The other collaborators do not call back.
\<close>

function
  flashLoanOrSwap ::
    "config \<Rightarrow> env \<Rightarrow> BorrowData list \<Rightarrow> nat \<Rightarrow> MigrationCallbackData \<Rightarrow> world \<Rightarrow> error + world" and
  pool_flash ::
    "config \<Rightarrow> env \<Rightarrow> address \<Rightarrow> address \<Rightarrow> uint256 \<Rightarrow> uint256 \<Rightarrow> MigrationCallbackData \<Rightarrow> world
       \<Rightarrow> error + world" and
  pool_swap ::
    "config \<Rightarrow> env \<Rightarrow> address \<Rightarrow> address \<Rightarrow> bool \<Rightarrow> int256 \<Rightarrow> uint160 \<Rightarrow> MigrationCallbackData \<Rightarrow> world
       \<Rightarrow> error + world" and
  uniswapV3FlashCallback ::
    "config \<Rightarrow> env \<Rightarrow> address \<Rightarrow> uint256 \<Rightarrow> uint256 \<Rightarrow> MigrationCallbackData \<Rightarrow> world \<Rightarrow> error + world" and
  uniswapV3SwapCallback ::
    "config \<Rightarrow> env \<Rightarrow> address \<Rightarrow> int256 \<Rightarrow> int256 \<Rightarrow> MigrationCallbackData \<Rightarrow> world \<Rightarrow> error + world"
where
  "flashLoanOrSwap cfg env bd stp callbackData w =
     (if \<not> stp < length bd then Inl (Panic 0x32)
      else
      let initialBorrowData = bd ! stp;
          borrowToken = underlying env (borrowCToken initialBorrowData);
          isPoolToken0 = (token0 env (pool initialBorrowData) = borrowToken);
          repayAmount = borrowAmount initialBorrowData in
      if isFlashLoan initialBorrowData
      then pool_flash cfg env (pool initialBorrowData) (this cfg)
             (if isPoolToken0 then repayAmount else 0) (if isPoolToken0 then 0 else repayAmount)
             callbackData w
      else
      let zeroForOne = (\<not> isPoolToken0);
          sqrtPriceLimitX96 = (if zeroForOne then MIN_SQRT_RATIO + 1 else MAX_SQRT_RATIO - 1) in
      case checked_neg repayAmount of
        Inl e \<Rightarrow> Inl e
      | Inr amountSpecified \<Rightarrow>
          pool_swap cfg env (pool initialBorrowData) (this cfg) (\<not> isPoolToken0) amountSpecified
            sqrtPriceLimitX96 callbackData w)"
| "pool_flash cfg env p recipient amount0 amount1 callbackData w =
     (case ext env (Flash p recipient amount0 amount1 callbackData) w of
        Inl e \<Rightarrow> Inl e
      | Inr w1 \<Rightarrow>
     (case uniswapV3FlashCallback cfg env p (fst (flashFees env p amount0 amount1))
             (snd (flashFees env p amount0 amount1)) callbackData w1 of
        Inl e \<Rightarrow> Inl e
      | Inr w2 \<Rightarrow> if poolRejects env p (calls w2) then Inl ExternalRevert else Inr w2))"
| "pool_swap cfg env p recipient zeroForOne amountSpecified sqrtPriceLimitX96 callbackData w =
     (case ext env (Swap p recipient zeroForOne amountSpecified sqrtPriceLimitX96 callbackData) w of
        Inl e \<Rightarrow> Inl e
      | Inr w1 \<Rightarrow>
     (case uniswapV3SwapCallback cfg env p
             (fst (swapDeltas env p zeroForOne amountSpecified sqrtPriceLimitX96))
             (snd (swapDeltas env p zeroForOne amountSpecified sqrtPriceLimitX96)) callbackData w1 of
        Inl e \<Rightarrow> Inl e
      | Inr w2 \<Rightarrow> if poolRejects env p (calls w2) then Inl ExternalRevert else Inr w2))"
| "uniswapV3FlashCallback cfg env sender fee0 fee1 migrationCallbackData w =
     (if inMigration w \<noteq> 1 then Inl (Reentrancy 1)
      else if \<not> step migrationCallbackData < length (borrowData migrationCallbackData)
      then Inl (Panic 0x32)
      else
      let currentBorrowData = borrowData migrationCallbackData ! step migrationCallbackData in
      if sender \<noteq> pool currentBorrowData
      then Inl (RequireFailed ''must be called from uniswapLiquidityPool'')
      else
      let borrowToken = underlying env (borrowCToken currentBorrowData);
          repayAmount = borrowAmount currentBorrowData;
          isPoolToken0 = (token0 env (pool currentBorrowData) = borrowToken) in
      case checked_add repayAmount (if isPoolToken0 then fee0 else fee1) of
        Inl e \<Rightarrow> Inl e
      | Inr borrowAmountWithFee \<Rightarrow>
     (case checked_add (totalBaseToBorrow migrationCallbackData) borrowAmountWithFee of
        Inl e \<Rightarrow> Inl e
      | Inr totalBorrowAmount \<Rightarrow>
     (case ext env (Approve borrowToken (borrowCToken currentBorrowData) MAX_UINT256) w of
        Inl e \<Rightarrow> Inl e
      | Inr w1 \<Rightarrow>
     (case ext env (RepayBorrowBehalf (borrowCToken currentBorrowData)
                      (user migrationCallbackData) repayAmount) w1 of
        Inl e \<Rightarrow> Inl e
      | Inr w2 \<Rightarrow>
     (let err = repayBorrowBehalf env (borrowCToken currentBorrowData)
                  (user migrationCallbackData) repayAmount (calls w1) in
      if err \<noteq> 0 then Inl (CompoundV2Error 0 err)
      else
      case (if step migrationCallbackData \<ge> length (borrowData migrationCallbackData) - 1
            then migrateCollateralAndBorrow cfg env migrationCallbackData totalBorrowAmount w2
            else flashLoanOrSwap cfg env (borrowData migrationCallbackData)
                   (step migrationCallbackData + 1)
                   (migrationCallbackData\<lparr>totalBaseToBorrow := totalBorrowAmount,
                      step := step migrationCallbackData + 1\<rparr>) w2) of
        Inl e \<Rightarrow> Inl e
      | Inr w3 \<Rightarrow>
          ext env (Transfer borrowToken (pool currentBorrowData) borrowAmountWithFee) w3)))))"
| "uniswapV3SwapCallback cfg env sender amount0Delta amount1Delta migrationCallbackData w =
     (if inMigration w \<noteq> 1 then Inl (Reentrancy 1)
      else if \<not> step migrationCallbackData < length (borrowData migrationCallbackData)
      then Inl (Panic 0x32)
      else
      let currentBorrowData = borrowData migrationCallbackData ! step migrationCallbackData in
      if sender \<noteq> pool currentBorrowData
      then Inl (RequireFailed ''must be called from uniswapLiquidityPool'')
      else
      let borrowToken = underlying env (borrowCToken currentBorrowData);
          repayAmount = borrowAmount currentBorrowData;
          isPoolToken0 = (token0 env (pool currentBorrowData) = borrowToken);
          baseBorrowAmount = (if isPoolToken0 then amount1Delta else amount0Delta) in
      case checked_add (totalBaseToBorrow migrationCallbackData) baseBorrowAmount of
        Inl e \<Rightarrow> Inl e
      | Inr totalBorrowAmount \<Rightarrow>
     (case ext env (Approve borrowToken (borrowCToken currentBorrowData) MAX_UINT256) w of
        Inl e \<Rightarrow> Inl e
      | Inr w1 \<Rightarrow>
     (case ext env (RepayBorrowBehalf (borrowCToken currentBorrowData)
                      (user migrationCallbackData) repayAmount) w1 of
        Inl e \<Rightarrow> Inl e
      | Inr w2 \<Rightarrow>
     (let err = repayBorrowBehalf env (borrowCToken currentBorrowData)
                  (user migrationCallbackData) repayAmount (calls w1) in
      if err \<noteq> 0 then Inl (CompoundV2Error 0 err)
      else
      case (if step migrationCallbackData \<ge> length (borrowData migrationCallbackData) - 1
            then migrateCollateralAndBorrow cfg env migrationCallbackData totalBorrowAmount w2
            else flashLoanOrSwap cfg env (borrowData migrationCallbackData)
                   (step migrationCallbackData + 1)
                   (migrationCallbackData\<lparr>totalBaseToBorrow := totalBorrowAmount,
                      step := step migrationCallbackData + 1\<rparr>) w2) of
        Inl e \<Rightarrow> Inl e
      | Inr w3 \<Rightarrow>
     (let repayToken = (if isPoolToken0 then token1 env (pool currentBorrowData)
                        else token0 env (pool currentBorrowData)) in
      ext env (Transfer repayToken (pool currentBorrowData) baseBorrowAmount) w3)))))"
  by pat_completeness auto

text \<open>
  Every call of the chain carries the callback data, and a callback continues with the
  next step only below the last index: the number of steps left decreases.
\<close>

termination
  by (relation "measure (\<lambda>x. case x of
        Inl (Inl (cfg, env, bd, stp, d, w)) \<Rightarrow> 3 * (length (borrowData d) - step d) + 2
      | Inl (Inr (cfg, env, p, r, a0, a1, d, w)) \<Rightarrow> 3 * (length (borrowData d) - step d) + 1
      | Inr (Inl (cfg, env, p, r, z, a, l, d, w)) \<Rightarrow> 3 * (length (borrowData d) - step d) + 1
      | Inr (Inr (Inl (cfg, env, s, f0, f1, d, w))) \<Rightarrow> 3 * (length (borrowData d) - step d)
      | Inr (Inr (Inr (cfg, env, s, d0, d1, d, w))) \<Rightarrow> 3 * (length (borrowData d) - step d))")
     auto

subsection \<open>migrate\<close>

text \<open>
  The loop of \<open>migrate\<close> over \<open>borrowData\<close>, which writes the amount to repay back
  into each entry: the current borrow balance where the entry asks for
  \<open>type(uint256).max\<close>.
\<close>

fun resolveBorrowAmounts ::
  "env \<Rightarrow> address \<Rightarrow> BorrowData list \<Rightarrow> world \<Rightarrow> error + (BorrowData list \<times> world)" where
  "resolveBorrowAmounts env usr [] w = Inr ([], w)"
| "resolveBorrowAmounts env usr (b # bs) w =
     (case (if borrowAmount b = MAX_UINT256
            then (case ext env (BorrowBalanceCurrent (borrowCToken b) usr) w of
                    Inl e \<Rightarrow> Inl e
                  | Inr w1 \<Rightarrow> Inr (borrowBalanceCurrent env (borrowCToken b) usr (calls w), w1))
            else Inr (borrowAmount b, w)) of
        Inl e \<Rightarrow> Inl e
      | Inr (repayAmount, w1) \<Rightarrow>
     (case resolveBorrowAmounts env usr bs w1 of
        Inl e \<Rightarrow> Inl e
      | Inr (bs1, w2) \<Rightarrow> Inr (b\<lparr>borrowAmount := repayAmount\<rparr> # bs1, w2)))"

definition migrate ::
  "config \<Rightarrow> env \<Rightarrow> address \<Rightarrow> Collateral list \<Rightarrow> BorrowData list \<Rightarrow> address \<Rightarrow> world
     \<Rightarrow> error + world" where
  "migrate cfg env sender collateral' borrowData' baseToken' w =
     (if inMigration w \<noteq> 0 then Inl (Reentrancy 0)
      else
      case checked_add (inMigration w) 1 of
        Inl e \<Rightarrow> Inl e
      | Inr g \<Rightarrow>
     (case resolveBorrowAmounts env sender borrowData' (w\<lparr>inMigration := g\<rparr>) of
        Inl e \<Rightarrow> Inl e
      | Inr (bd, w1) \<Rightarrow>
     (case flashLoanOrSwap cfg env bd 0
             \<lparr>user = sender, borrowData = bd, collateral = collateral', baseToken = baseToken',
              totalBaseToBorrow = 0, step = 0\<rparr> w1 of
        Inl e \<Rightarrow> Inl e
      | Inr w2 \<Rightarrow>
     (case checked_sub (inMigration w2) 1 of
        Inl e \<Rightarrow> Inl e
      | Inr g1 \<Rightarrow> Inr (w2\<lparr>inMigration := g1\<rparr>)))))"

subsection \<open>sweep\<close>

text \<open>\<open>send\<close> does not revert: it answers whether the native transfer went through.\<close>

definition sweep :: "config \<Rightarrow> env \<Rightarrow> address \<Rightarrow> world \<Rightarrow> error + world" where
  "sweep cfg env token w =
     (if inMigration w \<noteq> 0 then Inl (Reentrancy 2)
      else if token = 0
      then (if \<not> send env (sweepee cfg) (balance env (this cfg) (calls w)) (calls w)
            then Inl (SweepFailure 0)
            else Inr (w\<lparr>calls := calls w @ [Send (sweepee cfg) (balance env (this cfg) (calls w))]\<rparr>))
      else
      case ext env (Transfer token (sweepee cfg) (balanceOf env token (this cfg) (calls w))) w of
        Inl e \<Rightarrow> Inl e
      | Inr w1 \<Rightarrow>
          if \<not> transfer env token (sweepee cfg) (balanceOf env token (this cfg) (calls w)) (calls w)
          then Inl (SweepFailure 1)
          else Inr w1)"

subsection \<open>Transactions\<close>

text \<open>
  A call from outside is a transaction: when it reverts, the state after it is the state
  before it, and the error is what the caller sees.
\<close>

definition transact :: "(world \<Rightarrow> error + world) \<Rightarrow> world \<Rightarrow> world \<times> error option" where
  "transact f w = (case f w of Inl e \<Rightarrow> (w, Some e) | Inr w1 \<Rightarrow> (w1, None))"

section \<open>What the claims speak of\<close>

subsection \<open>Reading the calls made\<close>

text \<open>
  Each function picks one kind of call out of the sequence of calls, with
  \<open>List.map_filter\<close>: the step carried by a liquidity acquisition, a repayment of debt, a
  transfer out of the contract, a transfer of collateral into it, a supply to the target
  protocol, a withdrawal from it, and a read of a borrow balance.
\<close>

fun acquiredStep :: "call \<Rightarrow> nat option" where
  "acquiredStep (Flash p r a0 a1 d) = Some (step d)"
| "acquiredStep (Swap p r z a l d) = Some (step d)"
| "acquiredStep _ = None"

fun repaid :: "call \<Rightarrow> (address \<times> address \<times> uint256) option" where
  "repaid (RepayBorrowBehalf c b a) = Some (c, b, a)"
| "repaid _ = None"

fun paidBack :: "call \<Rightarrow> (address \<times> address \<times> uint256) option" where
  "paidBack (Transfer t r a) = Some (t, r, a)"
| "paidBack _ = None"

fun pulled :: "call \<Rightarrow> (address \<times> address \<times> address \<times> uint256) option" where
  "pulled (TransferFrom c f t a) = Some (c, f, t, a)"
| "pulled _ = None"

fun supplied :: "call \<Rightarrow> (address \<times> address \<times> address) option" where
  "supplied (SupplyTo c dst asset a) = Some (c, dst, asset)"
| "supplied _ = None"

fun withdrawn :: "call \<Rightarrow> (address \<times> address \<times> address \<times> address \<times> uint256) option" where
  "withdrawn (WithdrawFrom c src to asset a) = Some (c, src, to, asset, a)"
| "withdrawn _ = None"

fun resolved :: "call \<Rightarrow> (address \<times> address) option" where
  "resolved (BorrowBalanceCurrent c a) = Some (c, a)"
| "resolved _ = None"

text \<open>The token a collateral item is supplied as, and the amount taken of it at a history.\<close>

definition collateralUnderlying :: "config \<Rightarrow> env \<Rightarrow> Collateral \<Rightarrow> address" where
  "collateralUnderlying cfg env c = (if cToken c = cETH cfg then weth cfg else underlying env (cToken c))"

definition collateralAmount :: "env \<Rightarrow> address \<Rightarrow> Collateral \<Rightarrow> call list \<Rightarrow> uint256" where
  "collateralAmount env usr c h =
     (if amount c = MAX_UINT256 then balanceOf env (cToken c) usr h else amount c)"

subsection \<open>What a plan entry costs\<close>

text \<open>
  For an entry \<open>b\<close> of the plan: whether the borrowed token is the first token of its
  pool; the fee its pool quotes for a flash loan of the repay amount (\<open>flashFee\<close>); the
  amount of the pool's other token its pool asks for a flash swap of the repay amount
  (\<open>swapInput\<close>); what the step owes its pool, as a word and as a number
  (\<open>legAmount\<close>, \<open>legNat\<close>); the token in which it is owed; and the calls of the step.
\<close>

definition isPoolToken0 :: "env \<Rightarrow> BorrowData \<Rightarrow> bool" where
  "isPoolToken0 env b = (token0 env (pool b) = underlying env (borrowCToken b))"

definition flashFee :: "env \<Rightarrow> BorrowData \<Rightarrow> uint256" where
  "flashFee env b =
     (if isPoolToken0 env b then fst (flashFees env (pool b) (borrowAmount b) 0)
      else snd (flashFees env (pool b) 0 (borrowAmount b)))"

definition swapInput :: "env \<Rightarrow> BorrowData \<Rightarrow> uint256" where
  "swapInput env b =
     (if isPoolToken0 env b
      then snd (swapDeltas env (pool b) False (- borrowAmount b) (MAX_SQRT_RATIO - 1))
      else fst (swapDeltas env (pool b) True (- borrowAmount b) (MIN_SQRT_RATIO + 1)))"

definition legAmount :: "env \<Rightarrow> BorrowData \<Rightarrow> uint256" where
  "legAmount env b =
     (if isFlashLoan b then borrowAmount b + flashFee env b else swapInput env b)"

definition legNat :: "env \<Rightarrow> BorrowData \<Rightarrow> nat" where
  "legNat env b =
     (if isFlashLoan b then unat (borrowAmount b) + unat (flashFee env b)
      else unat (swapInput env b))"

definition repayToken :: "env \<Rightarrow> BorrowData \<Rightarrow> address" where
  "repayToken env b =
     (if isFlashLoan b then underlying env (borrowCToken b)
      else if isPoolToken0 env b then token1 env (pool b) else token0 env (pool b))"

definition acquireCall :: "config \<Rightarrow> env \<Rightarrow> BorrowData \<Rightarrow> MigrationCallbackData \<Rightarrow> call" where
  "acquireCall cfg env b d =
     (if isFlashLoan b
      then Flash (pool b) (this cfg) (if isPoolToken0 env b then borrowAmount b else 0)
             (if isPoolToken0 env b then 0 else borrowAmount b) d
      else Swap (pool b) (this cfg) (\<not> isPoolToken0 env b) (- borrowAmount b)
             (if isPoolToken0 env b then MAX_SQRT_RATIO - 1 else MIN_SQRT_RATIO + 1) d)"

definition repayCalls :: "env \<Rightarrow> address \<Rightarrow> BorrowData \<Rightarrow> call list" where
  "repayCalls env usr b =
     [Approve (underlying env (borrowCToken b)) (borrowCToken b) MAX_UINT256,
      RepayBorrowBehalf (borrowCToken b) usr (borrowAmount b)]"

definition paybacks :: "env \<Rightarrow> BorrowData list \<Rightarrow> (address \<times> address \<times> uint256) list" where
  "paybacks env bds = rev (map (\<lambda>b. (repayToken env b, pool b, legAmount env b)) bds)"

definition nextData :: "MigrationCallbackData \<Rightarrow> uint256 \<Rightarrow> MigrationCallbackData" where
  "nextData d T = d\<lparr>totalBaseToBorrow := T, step := step d + 1\<rparr>"

subsection \<open>The plan at entry\<close>

text \<open>The reads of borrow balances made by the loop of \<open>migrate\<close>, and the data of step 0.\<close>

definition resolutionCalls :: "address \<Rightarrow> BorrowData list \<Rightarrow> call list" where
  "resolutionCalls usr bds =
     map (\<lambda>b. BorrowBalanceCurrent (borrowCToken b) usr)
       (filter (\<lambda>b. borrowAmount b = MAX_UINT256) bds)"

definition initialData ::
  "address \<Rightarrow> BorrowData list \<Rightarrow> Collateral list \<Rightarrow> address \<Rightarrow> MigrationCallbackData" where
  "initialData usr bd cs base =
     \<lparr>user = usr, borrowData = bd, collateral = cs, baseToken = base, totalBaseToBorrow = 0,
      step = 0\<rparr>"

subsection \<open>Names of the spec\<close>


definition newCalls :: "world \<Rightarrow> world \<Rightarrow> call list" where
  "newCalls w w' = drop (length (calls w)) (calls w')"

subsection \<open>Scenarios\<close>

text \<open>
  Markets 10, 11 and 12 with underlying tokens 20, 21 and 22; pool 30 pairs tokens 20 and 21,
  pool 31 pairs tokens 21 and 20; pool 30 quotes a fee of 3, pool 31 a fee of 2; a swap costs
  500 of the other token; every collaborator accepts.
\<close>

definition cfg0 :: config where
  "cfg0 = \<lparr>comet = 100, cETH = 101, weth = 102, sweepee = 103, this = 104\<rparr>"

definition env0 :: env where
  "env0 = \<lparr>underlying = (\<lambda>c. c + 10),
     token0 = (\<lambda>p. p - 10),
     token1 = (\<lambda>p. 51 - p),
     borrowBalanceCurrent = (\<lambda>c a h. 1000),
     repayBorrowBehalf = (\<lambda>c b a h. 0),
     balanceOf = (\<lambda>t a h. 500),
     transferFrom = (\<lambda>c f t a h. True),
     transfer = (\<lambda>t r a h. True),
     redeem = (\<lambda>c a h. 0),
     balance = (\<lambda>a h. 0),
     send = (\<lambda>r a h. True),
     flashFees = (\<lambda>p a0 a1. if p = 30 then (3, 3) else (2, 2)),
     swapDeltas = (\<lambda>p z a l. (a, 500)),
     reverts = (\<lambda>c h. False),
     poolRejects = (\<lambda>p h. False)\<rparr>"

definition w0 :: world where
  "w0 = \<lparr>inMigration = 0, calls = []\<rparr>"

definition wEngaged :: world where
  "wEngaged = \<lparr>inMigration = 1, calls = []\<rparr>"

definition planB :: "BorrowData list" where
  "planB = [\<lparr>borrowCToken = 10, borrowAmount = 1000, pool = 30, isFlashLoan = True\<rparr>,
            \<lparr>borrowCToken = 11, borrowAmount = 400, pool = 31, isFlashLoan = True\<rparr>]"

definition collA :: "Collateral list" where
  "collA = [\<lparr>cToken = 12, amount = MAX_UINT256\<rparr>]"

definition dataB :: "nat \<Rightarrow> uint256 \<Rightarrow> MigrationCallbackData" where
  "dataB k t = \<lparr>user = 7, borrowData = planB, collateral = collA, baseToken = 21,
                totalBaseToBorrow = t, step = k\<rparr>"

definition wB :: world where
  "wB = \<lparr>inMigration = 0,
          calls = [Flash 30 104 1000 0 (dataB 0 0),
                   Approve 20 10 MAX_UINT256, RepayBorrowBehalf 10 7 1000,
                   Flash 31 104 400 0 (dataB 1 1003),
                   Approve 21 11 MAX_UINT256, RepayBorrowBehalf 11 7 400,
                   TransferFrom 12 7 104 500, Redeem 12 500,
                   Approve 22 100 MAX_UINT256, SupplyTo 100 7 22 500,
                   WithdrawFrom 100 7 104 21 1405, Migrated 7 collA 0 1405,
                   Transfer 21 31 402, Transfer 20 30 1003]\<rparr>"

text \<open>
  A plan of one flash swap; the world in the middle of the two-loan scenario, when pool 31
  calls back; and collaborators whose market 11 rejects a repayment with the code 7.
\<close>

definition planS :: "BorrowData list" where
  "planS = [\<lparr>borrowCToken = 10, borrowAmount = 1000, pool = 30, isFlashLoan = False\<rparr>]"

definition dataS :: MigrationCallbackData where
  "dataS = \<lparr>user = 7, borrowData = planS, collateral = [], baseToken = 21,
             totalBaseToBorrow = 0, step = 0\<rparr>"

definition wS :: world where
  "wS = \<lparr>inMigration = 0,
          calls = [Swap 30 104 False (- 1000) (MAX_SQRT_RATIO - 1) dataS,
                   Approve 20 10 MAX_UINT256, RepayBorrowBehalf 10 7 1000,
                   WithdrawFrom 100 7 104 21 500, Migrated 7 [] 0 500,
                   Transfer 21 30 500]\<rparr>"

definition wMid :: world where
  "wMid = \<lparr>inMigration = 1,
            calls = [Flash 30 104 1000 0 (dataB 0 0),
                     Approve 20 10 MAX_UINT256, RepayBorrowBehalf 10 7 1000,
                     Flash 31 104 400 0 (dataB 1 1003)]\<rparr>"

definition env7 :: env where
  "env7 = env0\<lparr>repayBorrowBehalf := (\<lambda>c b a h. if c = 11 then 7 else 0)\<rparr>"

subsection \<open>A step that reaches its repayment\<close>

text \<open>
  The checks of a step before its repayment is answered, the code the market answers, and
  the state after the repayment. \<open>wPre1\<close> is the state of the two-loan scenario before
  its step 1.
\<close>

definition reachesRepayment :: "config \<Rightarrow> env \<Rightarrow> MigrationCallbackData \<Rightarrow> world \<Rightarrow> bool" where
  "reachesRepayment cfg env d w \<longleftrightarrow>
     inMigration w = 1 \<and> step d < length (borrowData d)
   \<and> unat (totalBaseToBorrow d) + legNat env (borrowData d ! step d) < 2 ^ 256
   \<and> (isFlashLoan (borrowData d ! step d) \<or> borrowAmount (borrowData d ! step d) \<noteq> 2 ^ 255)
   \<and> \<not> reverts env (acquireCall cfg env (borrowData d ! step d) d) (calls w)
   \<and> \<not> reverts env (hd (repayCalls env (user d) (borrowData d ! step d)))
         (calls w @ [acquireCall cfg env (borrowData d ! step d) d])
   \<and> \<not> reverts env (last (repayCalls env (user d) (borrowData d ! step d)))
         (calls w @ [acquireCall cfg env (borrowData d ! step d) d,
                     hd (repayCalls env (user d) (borrowData d ! step d))])"

definition repayCode :: "config \<Rightarrow> env \<Rightarrow> MigrationCallbackData \<Rightarrow> world \<Rightarrow> uint256" where
  "repayCode cfg env d w =
     repayBorrowBehalf env (borrowCToken (borrowData d ! step d)) (user d)
       (borrowAmount (borrowData d ! step d))
       (calls w @ [acquireCall cfg env (borrowData d ! step d) d,
                   hd (repayCalls env (user d) (borrowData d ! step d))])"

definition afterRepayment :: "config \<Rightarrow> env \<Rightarrow> MigrationCallbackData \<Rightarrow> world \<Rightarrow> world" where
  "afterRepayment cfg env d w =
     w\<lparr>calls := calls w @ acquireCall cfg env (borrowData d ! step d) d
           # repayCalls env (user d) (borrowData d ! step d)\<rparr>"

definition wPre1 :: world where
  "wPre1 = \<lparr>inMigration = 1,
             calls = [Flash 30 104 1000 0 (dataB 0 0),
                      Approve 20 10 MAX_UINT256, RepayBorrowBehalf 10 7 1000]\<rparr>"

text \<open>
  A market whose debt of 1000 goes down by what has been repaid to it, and a plan that
  repays 400 of it and then the current balance.
\<close>

definition repaidTo :: "address \<Rightarrow> call list \<Rightarrow> uint256" where
  "repaidTo c h = sum_list (map (\<lambda>(c1, b, a). if c1 = c then a else 0) (List.map_filter repaid h))"

definition envD :: env where
  "envD = env0\<lparr>borrowBalanceCurrent := (\<lambda>c a h. 1000 - repaidTo c h)\<rparr>"

definition planD :: "BorrowData list" where
  "planD = [\<lparr>borrowCToken = 10, borrowAmount = 400, pool = 30, isFlashLoan = True\<rparr>,
            \<lparr>borrowCToken = 10, borrowAmount = MAX_UINT256, pool = 31, isFlashLoan = True\<rparr>]"

definition dataD :: "nat \<Rightarrow> uint256 \<Rightarrow> MigrationCallbackData" where
  "dataD k t = \<lparr>user = 7,
      borrowData = [\<lparr>borrowCToken = 10, borrowAmount = 400, pool = 30, isFlashLoan = True\<rparr>,
                    \<lparr>borrowCToken = 10, borrowAmount = 1000, pool = 31, isFlashLoan = True\<rparr>],
      collateral = [], baseToken = 21, totalBaseToBorrow = t, step = k\<rparr>"

definition wD :: world where
  "wD = \<lparr>inMigration = 0,
          calls = [BorrowBalanceCurrent 10 7,
                   Flash 30 104 400 0 (dataD 0 0),
                   Approve 20 10 MAX_UINT256, RepayBorrowBehalf 10 7 400,
                   Flash 31 104 0 1000 (dataD 1 403),
                   Approve 20 10 MAX_UINT256, RepayBorrowBehalf 10 7 1000,
                   WithdrawFrom 100 7 104 21 1405, Migrated 7 [] 0 1405,
                   Transfer 20 31 1002, Transfer 20 30 403]\<rparr>"

subsection \<open>The calls of a complete migration\<close>

text \<open>
  What it is for a call to have been accepted by the contract it went to, given the calls
  made before it (\<open>answerOk\<close>): it did not revert, and where the contract checks what
  it returned, a repayment and a redemption returned the code 0 and a transfer of collateral
  returned true. A transfer of a token, which a migration makes only to pay a pool back, is
  accepted when the pool, once its callback has returned, finds itself repaid. The event is
  no call to another contract. \<open>accepted\<close> says it of every call of a sequence, each
  at the history that the calls before it have made.
\<close>

fun answerOk :: "env \<Rightarrow> call list \<Rightarrow> call \<Rightarrow> bool" where
  "answerOk env h (RepayBorrowBehalf c b a) =
     (\<not> reverts env (RepayBorrowBehalf c b a) h \<and> repayBorrowBehalf env c b a h = 0)"
| "answerOk env h (TransferFrom c f t a) =
     (\<not> reverts env (TransferFrom c f t a) h \<and> transferFrom env c f t a h)"
| "answerOk env h (Redeem c a) = (\<not> reverts env (Redeem c a) h \<and> redeem env c a h = 0)"
| "answerOk env h (Transfer t r a) =
     (\<not> reverts env (Transfer t r a) h \<and> \<not> poolRejects env r (h @ [Transfer t r a]))"
| "answerOk env h (Send r a) = send env r a h"
| "answerOk env h (Migrated usr cs x t) = True"
| "answerOk env h c = (\<not> reverts env c h)"

fun accepted :: "env \<Rightarrow> call list \<Rightarrow> call list \<Rightarrow> bool" where
  "accepted env h [] = True"
| "accepted env h (c # cs) = (answerOk env h c \<and> accepted env (h @ [c]) cs)"

text \<open>
  The calls of a complete migration, as functions of the plan and of the history before
  them. For one collateral item (\<open>itemCalls\<close>): the transfer from the user of the
  amount asked or, where the item asks for \<open>type(uint256).max\<close>, of the user's
  balance; the redemption of what the contract then holds of the cToken; for the native
  market, the wrapping of the contract's native balance; the approval; and the supply to the
  target protocol, for the user, of what the contract then holds of the underlying token.
  For the collateral (\<open>settlementCalls\<close>): those of each item in order, each after
  those of the items before it.
\<close>

definition itemCalls :: "config \<Rightarrow> env \<Rightarrow> address \<Rightarrow> Collateral \<Rightarrow> call list \<Rightarrow> call list" where
  "itemCalls cfg env usr c h =
     (let pull = TransferFrom (cToken c) usr (this cfg) (collateralAmount env usr c h);
          red = Redeem (cToken c) (balanceOf env (cToken c) (this cfg) (h @ [pull]));
          wrap = (if cToken c = cETH cfg
                  then [WethDeposit (weth cfg) (balance env (this cfg) (h @ [pull, red]))]
                  else []);
          appr = Approve (collateralUnderlying cfg env c) (comet cfg) MAX_UINT256
      in [pull, red] @ wrap @
         [appr,
          SupplyTo (comet cfg) usr (collateralUnderlying cfg env c)
            (balanceOf env (collateralUnderlying cfg env c) (this cfg)
               (h @ [pull, red] @ wrap @ [appr]))])"

fun settlementCalls ::
  "config \<Rightarrow> env \<Rightarrow> address \<Rightarrow> Collateral list \<Rightarrow> call list \<Rightarrow> call list" where
  "settlementCalls cfg env usr [] h = []"
| "settlementCalls cfg env usr (c # cs) h =
     itemCalls cfg env usr c h @ settlementCalls cfg env usr cs (h @ itemCalls cfg env usr c h)"

text \<open>
  For the plan (\<open>chainCalls\<close>): from the step of the data onwards, for as many steps
  as given, the acquisition, the approval and the repayment of the entry at the step, and
  then those of the next step, whose data carry the total so far.
\<close>

fun chainCalls :: "config \<Rightarrow> env \<Rightarrow> MigrationCallbackData \<Rightarrow> nat \<Rightarrow> call list" where
  "chainCalls cfg env d 0 = []"
| "chainCalls cfg env d (Suc n) =
     (acquireCall cfg env (borrowData d ! step d) d
        # repayCalls env (user d) (borrowData d ! step d))
     @ chainCalls cfg env
         (nextData d (totalBaseToBorrow d + legAmount env (borrowData d ! step d))) n"

text \<open>
  The plan with its amounts resolved at entry (\<open>resolvedPlan\<close>): an entry that asks
  for \<open>type(uint256).max\<close> gets the borrow balance its market answers after the reads
  made for the entries before it. And all the calls of a complete migration
  (\<open>migrationCalls\<close>): the reads, the steps, the settlement with the withdrawal of the
  sum of what the steps owe their pools and the event, and the transfers back to the pools,
  last pool first.
\<close>

fun resolvedPlan :: "env \<Rightarrow> address \<Rightarrow> BorrowData list \<Rightarrow> call list \<Rightarrow> BorrowData list" where
  "resolvedPlan env usr [] h = []"
| "resolvedPlan env usr (b # bs) h =
     (if borrowAmount b = MAX_UINT256
      then b\<lparr>borrowAmount := borrowBalanceCurrent env (borrowCToken b) usr h\<rparr>
             # resolvedPlan env usr bs (h @ [BorrowBalanceCurrent (borrowCToken b) usr])
      else b # resolvedPlan env usr bs h)"

definition migrationCalls ::
  "config \<Rightarrow> env \<Rightarrow> address \<Rightarrow> Collateral list \<Rightarrow> BorrowData list \<Rightarrow> address \<Rightarrow> call list
     \<Rightarrow> call list" where
  "migrationCalls cfg env usr cs bds base h =
     (let bd = resolvedPlan env usr bds h;
          R = resolutionCalls usr bds;
          A = chainCalls cfg env (initialData usr bd cs base) (length bd);
          S = settlementCalls cfg env usr cs (h @ R @ A);
          T = sum_list (map (legAmount env) bd)
      in R @ A @ S
         @ [WithdrawFrom (comet cfg) usr (this cfg) base T, Migrated usr cs 0 T]
         @ map (\<lambda>(t, p, a). Transfer t p a) (paybacks env bd))"

text \<open>
  \<open>pullsLive\<close> reads a sequence of calls made after the history \<open>h\<close> against
  the collateral items: the transfers of collateral in it are one for each item, in order,
  each of the item's cToken and from the user, and the amount of each is the item's amount
  at the history of exactly the calls before that transfer.
\<close>

fun pullsLive :: "env \<Rightarrow> address \<Rightarrow> Collateral list \<Rightarrow> call list \<Rightarrow> call list \<Rightarrow> bool" where
  "pullsLive env usr cs h [] = (cs = [])"
| "pullsLive env usr cs h (TransferFrom ct f t a # rest) =
     (case cs of
        [] \<Rightarrow> False
      | c # cs' \<Rightarrow> ct = cToken c \<and> f = usr \<and> a = collateralAmount env usr c h
                   \<and> pullsLive env usr cs' (h @ [TransferFrom ct f t a]) rest)"
| "pullsLive env usr cs h (x # rest) = pullsLive env usr cs (h @ [x]) rest"

text \<open>
  What a step does, read off a call: an acquisition, with the step its data carry, the pool
  it is made at, whether it is a flash loan, and the amount asked of the pool (at a flash
  loan one of the two amounts is 0; a flash swap asks for the negated amount); or a
  repayment.
\<close>

datatype event =
    Acquire nat address bool uint256 \<comment> \<open>step, pool, flash loan or flash swap, amount asked\<close>
  | Repay address address uint256 \<comment> \<open>market, borrower, amount\<close>

fun chainEvent :: "call \<Rightarrow> event option" where
  "chainEvent (Flash p r a0 a1 d) = Some (Acquire (step d) p True (a0 + a1))"
| "chainEvent (Swap p r z a l d) = Some (Acquire (step d) p False (- a))"
| "chainEvent (RepayBorrowBehalf c b a) = Some (Repay c b a)"
| "chainEvent _ = None"


subsection \<open>Scenarios with collaborators that keep books\<close>

text \<open>
  Collaborators whose answers depend on the calls made: the user holds 500 of every cToken
  less what has been transferred from them, the contract holds what was last transferred to
  it, and the debt is that of \<open>envD\<close>. The collateral asks for 200 of market 12 and
  then for the current balance of the same market. \<open>wL\<close> is the state after the
  migration of this collateral and of \<open>planD\<close> with the base token 20.
  \<open>envF\<close> are the same collaborators, whose cTokens refuse a transfer of more than
  250.
\<close>

definition pulledOf :: "address \<Rightarrow> call list \<Rightarrow> uint256" where
  "pulledOf c h =
     sum_list (map (\<lambda>(c1, f, t, a). if c1 = c then a else 0) (List.map_filter pulled h))"

definition heldOf :: "call list \<Rightarrow> uint256" where
  "heldOf h = last (0 # map (\<lambda>(c, f, t, a). a) (List.map_filter pulled h))"

definition envL :: env where
  "envL = envD\<lparr>balanceOf := (\<lambda>t a h. if a = 7 then 500 - pulledOf t h else heldOf h)\<rparr>"

definition collL :: "Collateral list" where
  "collL = [\<lparr>cToken = 12, amount = 200\<rparr>, \<lparr>cToken = 12, amount = MAX_UINT256\<rparr>]"

definition dataL :: "nat \<Rightarrow> uint256 \<Rightarrow> MigrationCallbackData" where
  "dataL k t = \<lparr>user = 7,
      borrowData = [\<lparr>borrowCToken = 10, borrowAmount = 400, pool = 30, isFlashLoan = True\<rparr>,
                    \<lparr>borrowCToken = 10, borrowAmount = 1000, pool = 31, isFlashLoan = True\<rparr>],
      collateral = collL, baseToken = 20, totalBaseToBorrow = t, step = k\<rparr>"

definition wL :: world where
  "wL = \<lparr>inMigration = 0,
          calls = [BorrowBalanceCurrent 10 7,
                   Flash 30 104 400 0 (dataL 0 0),
                   Approve 20 10 MAX_UINT256, RepayBorrowBehalf 10 7 400,
                   Flash 31 104 0 1000 (dataL 1 403),
                   Approve 20 10 MAX_UINT256, RepayBorrowBehalf 10 7 1000,
                   TransferFrom 12 7 104 200, Redeem 12 200,
                   Approve 22 100 MAX_UINT256, SupplyTo 100 7 22 200,
                   TransferFrom 12 7 104 300, Redeem 12 300,
                   Approve 22 100 MAX_UINT256, SupplyTo 100 7 22 300,
                   WithdrawFrom 100 7 104 20 1405, Migrated 7 collL 0 1405,
                   Transfer 20 31 1002, Transfer 20 30 403]\<rparr>"

definition envF :: env where
  "envF = envL\<lparr>transferFrom := (\<lambda>c f t a h. a \<le> 250)\<rparr>"



definition envR :: env where
  "envR = env0\<lparr>reverts := (\<lambda>c h. True)\<rparr>"

section \<open>Lemmas\<close>

lemma map_filter_append: "List.map_filter f (xs @ ys) = List.map_filter f xs @ List.map_filter f ys"
  by (simp add: List.map_filter_def)

lemma map_filter_Nil: "List.map_filter f [] = []"
  by (simp add: List.map_filter_def)

lemma map_filter_Cons:
  "List.map_filter f (x # xs) = (case f x of None \<Rightarrow> List.map_filter f xs | Some y \<Rightarrow> y # List.map_filter f xs)"
  by (simp add: List.map_filter_def split: option.splits)

lemmas mf = map_filter_append map_filter_Nil map_filter_Cons

lemma ext_Inr_iff:
  "ext env c w = Inr w' \<longleftrightarrow> \<not> reverts env c (calls w) \<and> w' = w\<lparr>calls := calls w @ [c]\<rparr>"
  by (auto simp: ext_def)

lemma ext_Inl_iff:
  "ext env c w = Inl e \<longleftrightarrow> reverts env c (calls w) \<and> e = ExternalRevert"
  by (auto simp: ext_def)

lemma checked_add_Inr:
  "checked_add a b = Inr c \<Longrightarrow> c = a + b \<and> unat c = unat a + unat b"
  by (auto simp: checked_add_def unat_word_ariths split: if_splits)

lemma item_Inr:
  assumes "migrateCollateralItem cfg env usr c i w = Inr w'"
  shows "\<exists>evs. w' = w\<lparr>calls := calls w @ evs\<rparr>
     \<and> List.map_filter pulled evs = [(cToken c, usr, this cfg, collateralAmount env usr c (calls w))]
     \<and> List.map_filter supplied evs = [(comet cfg, usr, collateralUnderlying cfg env c)]
     \<and> List.map_filter acquiredStep evs = []
     \<and> List.map_filter repaid evs = []
     \<and> List.map_filter paidBack evs = []
     \<and> List.map_filter withdrawn evs = []
     \<and> List.map_filter resolved evs = []
     \<and> transferFrom env (cToken c) usr (this cfg) (collateralAmount env usr c (calls w)) (calls w)"
  using assms
  by (auto simp: migrateCollateralItem_def Let_def ext_Inr_iff mf collateralUnderlying_def
        collateralAmount_def split: if_splits sum.splits)

lemma loop_Inr:
  "migrateCollateralLoop cfg env usr cs i w = Inr w' \<Longrightarrow>
   \<exists>evs. w' = w\<lparr>calls := calls w @ evs\<rparr>
     \<and> map (\<lambda>(c, f, t, a). (c, f, t)) (List.map_filter pulled evs) = map (\<lambda>c. (cToken c, usr, this cfg)) cs
     \<and> list_all2 (\<lambda>c (ct, f, t, a). amount c \<noteq> MAX_UINT256 \<longrightarrow> a = amount c) cs (List.map_filter pulled evs)
     \<and> List.map_filter supplied evs = map (\<lambda>c. (comet cfg, usr, collateralUnderlying cfg env c)) cs
     \<and> List.map_filter acquiredStep evs = []
     \<and> List.map_filter repaid evs = []
     \<and> List.map_filter paidBack evs = []
     \<and> List.map_filter withdrawn evs = []
     \<and> List.map_filter resolved evs = []
     \<and> (i \<le> 255 \<longrightarrow> i + length cs \<le> 255)"
proof (induction cs arbitrary: i w)
  case Nil
  then show ?case
    by (auto simp: map_filter_Nil intro!: exI [of _ "[]"])
next
  case (Cons c cs)
  from Cons.prems obtain w1 where
    item: "migrateCollateralItem cfg env usr c i w = Inr w1" and
    i: "i \<noteq> 255" and
    rest: "migrateCollateralLoop cfg env usr cs (i + 1) w1 = Inr w'"
    by (auto split: sum.splits if_splits)
  from item_Inr [OF item] obtain e1 where e1:
    "w1 = w\<lparr>calls := calls w @ e1\<rparr>"
    "List.map_filter pulled e1 = [(cToken c, usr, this cfg, collateralAmount env usr c (calls w))]"
    "List.map_filter supplied e1 = [(comet cfg, usr, collateralUnderlying cfg env c)]"
    "List.map_filter acquiredStep e1 = []" "List.map_filter repaid e1 = []"
    "List.map_filter paidBack e1 = []" "List.map_filter withdrawn e1 = []"
    "List.map_filter resolved e1 = []"
    by blast
  from Cons.IH [OF rest] obtain e2 where e2:
    "w' = w1\<lparr>calls := calls w1 @ e2\<rparr>"
    "map (\<lambda>(c, f, t, a). (c, f, t)) (List.map_filter pulled e2) = map (\<lambda>c. (cToken c, usr, this cfg)) cs"
    "list_all2 (\<lambda>c (ct, f, t, a). amount c \<noteq> MAX_UINT256 \<longrightarrow> a = amount c) cs (List.map_filter pulled e2)"
    "List.map_filter supplied e2 = map (\<lambda>c. (comet cfg, usr, collateralUnderlying cfg env c)) cs"
    "List.map_filter acquiredStep e2 = []" "List.map_filter repaid e2 = []"
    "List.map_filter paidBack e2 = []" "List.map_filter withdrawn e2 = []"
    "List.map_filter resolved e2 = []"
    "i + 1 \<le> 255 \<longrightarrow> i + 1 + length cs \<le> 255"
    by blast
  show ?case
    apply (rule exI [of _ "e1 @ e2"])
    using e1 e2 i by (simp add: map_filter_append collateralAmount_def)
qed

lemma settle_Inr:
  assumes "migrateCollateralAndBorrow cfg env d T w = Inr w'"
  shows "\<exists>evs. w' = w\<lparr>calls := calls w @ evs\<rparr>
     \<and> map (\<lambda>(c, f, t, a). (c, f, t)) (List.map_filter pulled evs)
         = map (\<lambda>c. (cToken c, user d, this cfg)) (collateral d)
     \<and> list_all2 (\<lambda>c (ct, f, t, a). amount c \<noteq> MAX_UINT256 \<longrightarrow> a = amount c) (collateral d)
           (List.map_filter pulled evs)
     \<and> List.map_filter supplied evs
         = map (\<lambda>c. (comet cfg, user d, collateralUnderlying cfg env c)) (collateral d)
     \<and> List.map_filter acquiredStep evs = []
     \<and> List.map_filter repaid evs = []
     \<and> List.map_filter paidBack evs = []
     \<and> List.map_filter withdrawn evs = [(comet cfg, user d, this cfg, baseToken d, T)]
     \<and> List.map_filter resolved evs = []
     \<and> length (collateral d) \<le> 255"
proof -
  from assms obtain w1 where
    l: "migrateCollateralLoop cfg env (user d) (collateral d) 0 w = Inr w1" and
    w': "w' = w1\<lparr>calls := calls w1 @
           [WithdrawFrom (comet cfg) (user d) (this cfg) (baseToken d) T,
            Migrated (user d) (collateral d) 0 T]\<rparr>"
    by (auto simp: migrateCollateralAndBorrow_def ext_Inr_iff split: sum.splits)
  from loop_Inr [OF l] obtain e1 where e1:
    "w1 = w\<lparr>calls := calls w @ e1\<rparr>"
    "map (\<lambda>(c, f, t, a). (c, f, t)) (List.map_filter pulled e1)
       = map (\<lambda>c. (cToken c, user d, this cfg)) (collateral d)"
    "list_all2 (\<lambda>c (ct, f, t, a). amount c \<noteq> MAX_UINT256 \<longrightarrow> a = amount c) (collateral d)
       (List.map_filter pulled e1)"
    "List.map_filter supplied e1
       = map (\<lambda>c. (comet cfg, user d, collateralUnderlying cfg env c)) (collateral d)"
    "List.map_filter acquiredStep e1 = []" "List.map_filter repaid e1 = []"
    "List.map_filter paidBack e1 = []" "List.map_filter withdrawn e1 = []"
    "List.map_filter resolved e1 = []"
    "length (collateral d) \<le> 255"
    by auto
  show ?thesis
    apply (rule exI [of _ "e1 @ [WithdrawFrom (comet cfg) (user d) (this cfg) (baseToken d) T,
            Migrated (user d) (collateral d) 0 T]"])
    using e1 w' by (simp add: mf)
qed

lemma settle_fields:
  "migrateCollateralAndBorrow cfg env (d\<lparr>totalBaseToBorrow := t, step := k\<rparr>) T w
     = migrateCollateralAndBorrow cfg env d T w"
  by (simp add: migrateCollateralAndBorrow_def split: sum.splits)

declare flashLoanOrSwap.simps [simp del] pool_flash.simps [simp del] pool_swap.simps [simp del]
  uniswapV3FlashCallback.simps [simp del] uniswapV3SwapCallback.simps [simp del]

lemma flash_callback_Inr:
  assumes "uniswapV3FlashCallback cfg env s f0 f1 d w = Inr w'"
  shows "\<exists>L T w3.
      inMigration w = 1 \<and> step d < length (borrowData d) \<and> s = pool (borrowData d ! step d)
    \<and> checked_add (borrowAmount (borrowData d ! step d))
          (if isPoolToken0 env (borrowData d ! step d) then f0 else f1) = Inr L
    \<and> checked_add (totalBaseToBorrow d) L = Inr T
    \<and> repayBorrowBehalf env (borrowCToken (borrowData d ! step d)) (user d)
          (borrowAmount (borrowData d ! step d))
          (calls w @ [hd (repayCalls env (user d) (borrowData d ! step d))]) = 0
    \<and> (if length (borrowData d) - 1 \<le> step d
        then migrateCollateralAndBorrow cfg env d T
               (w\<lparr>calls := calls w @ repayCalls env (user d) (borrowData d ! step d)\<rparr>)
        else flashLoanOrSwap cfg env (borrowData d) (step d + 1) (nextData d T)
               (w\<lparr>calls := calls w @ repayCalls env (user d) (borrowData d ! step d)\<rparr>)) = Inr w3
    \<and> w' = w3\<lparr>calls := calls w3 @
          [Transfer (underlying env (borrowCToken (borrowData d ! step d)))
             (pool (borrowData d ! step d)) L]\<rparr>"
  using assms
  by (auto simp: uniswapV3FlashCallback.simps Let_def ext_Inr_iff isPoolToken0_def repayCalls_def
        nextData_def split: if_splits sum.splits)

lemma swap_callback_Inr:
  assumes "uniswapV3SwapCallback cfg env s d0 d1 d w = Inr w'"
  shows "\<exists>T w3.
      inMigration w = 1 \<and> step d < length (borrowData d) \<and> s = pool (borrowData d ! step d)
    \<and> checked_add (totalBaseToBorrow d)
          (if isPoolToken0 env (borrowData d ! step d) then d1 else d0) = Inr T
    \<and> repayBorrowBehalf env (borrowCToken (borrowData d ! step d)) (user d)
          (borrowAmount (borrowData d ! step d))
          (calls w @ [hd (repayCalls env (user d) (borrowData d ! step d))]) = 0
    \<and> (if length (borrowData d) - 1 \<le> step d
        then migrateCollateralAndBorrow cfg env d T
               (w\<lparr>calls := calls w @ repayCalls env (user d) (borrowData d ! step d)\<rparr>)
        else flashLoanOrSwap cfg env (borrowData d) (step d + 1) (nextData d T)
               (w\<lparr>calls := calls w @ repayCalls env (user d) (borrowData d ! step d)\<rparr>)) = Inr w3
    \<and> w' = w3\<lparr>calls := calls w3 @
          [Transfer (if isPoolToken0 env (borrowData d ! step d)
                     then token1 env (pool (borrowData d ! step d))
                     else token0 env (pool (borrowData d ! step d)))
             (pool (borrowData d ! step d))
             (if isPoolToken0 env (borrowData d ! step d) then d1 else d0)]\<rparr>"
  using assms
  by (auto simp: uniswapV3SwapCallback.simps Let_def ext_Inr_iff isPoolToken0_def repayCalls_def
        nextData_def split: if_splits sum.splits)

lemma leg_Inr:
  assumes "flashLoanOrSwap cfg env (borrowData d) (step d) d w = Inr w'"
  shows "\<exists>T w3.
      inMigration w = 1 \<and> step d < length (borrowData d)
    \<and> unat T = unat (totalBaseToBorrow d) + legNat env (borrowData d ! step d)
    \<and> unat (legAmount env (borrowData d ! step d)) = legNat env (borrowData d ! step d)
    \<and> repayBorrowBehalf env (borrowCToken (borrowData d ! step d)) (user d)
          (borrowAmount (borrowData d ! step d))
          (calls w @ [acquireCall cfg env (borrowData d ! step d) d,
                      hd (repayCalls env (user d) (borrowData d ! step d))]) = 0
    \<and> (if length (borrowData d) - 1 \<le> step d
        then migrateCollateralAndBorrow cfg env d T
               (w\<lparr>calls := calls w @ acquireCall cfg env (borrowData d ! step d) d
                   # repayCalls env (user d) (borrowData d ! step d)\<rparr>)
        else flashLoanOrSwap cfg env (borrowData d) (step d + 1) (nextData d T)
               (w\<lparr>calls := calls w @ acquireCall cfg env (borrowData d ! step d) d
                   # repayCalls env (user d) (borrowData d ! step d)\<rparr>)) = Inr w3
    \<and> w' = w3\<lparr>calls := calls w3 @
          [Transfer (repayToken env (borrowData d ! step d)) (pool (borrowData d ! step d))
             (legAmount env (borrowData d ! step d))]\<rparr>"
proof (cases "isFlashLoan (borrowData d ! step d)")
  case True
  let ?b = "borrowData d ! step d"
  from assms True obtain w2 where
    k: "step d < length (borrowData d)" and
    cb: "uniswapV3FlashCallback cfg env (pool ?b)
           (fst (flashFees env (pool ?b) (if isPoolToken0 env ?b then borrowAmount ?b else 0)
                   (if isPoolToken0 env ?b then 0 else borrowAmount ?b)))
           (snd (flashFees env (pool ?b) (if isPoolToken0 env ?b then borrowAmount ?b else 0)
                   (if isPoolToken0 env ?b then 0 else borrowAmount ?b)))
           d (w\<lparr>calls := calls w @ [acquireCall cfg env ?b d]\<rparr>) = Inr w'"
    by (auto simp: flashLoanOrSwap.simps pool_flash.simps Let_def ext_Inr_iff isPoolToken0_def
          acquireCall_def split: if_splits sum.splits)
  from flash_callback_Inr [OF cb] True show ?thesis
    by (auto simp: legNat_def legAmount_def flashFee_def repayToken_def dest!: checked_add_Inr
          split: if_splits)
next
  case False
  let ?b = "borrowData d ! step d"
  from assms False obtain w2 where
    k: "step d < length (borrowData d)" and
    cb: "uniswapV3SwapCallback cfg env (pool ?b)
           (fst (swapDeltas env (pool ?b) (\<not> isPoolToken0 env ?b) (- borrowAmount ?b)
                   (if isPoolToken0 env ?b then MAX_SQRT_RATIO - 1 else MIN_SQRT_RATIO + 1)))
           (snd (swapDeltas env (pool ?b) (\<not> isPoolToken0 env ?b) (- borrowAmount ?b)
                   (if isPoolToken0 env ?b then MAX_SQRT_RATIO - 1 else MIN_SQRT_RATIO + 1)))
           d (w\<lparr>calls := calls w @ [acquireCall cfg env ?b d]\<rparr>) = Inr w'"
    by (auto simp: flashLoanOrSwap.simps pool_swap.simps Let_def ext_Inr_iff isPoolToken0_def
          acquireCall_def checked_neg_def split: if_splits sum.splits)
  from swap_callback_Inr [OF cb] False show ?thesis
    by (auto simp: legNat_def legAmount_def swapInput_def repayToken_def dest!: checked_add_Inr
          split: if_splits)
qed

lemma pre_facts:
  "acquiredStep (acquireCall cfg env b d) = Some (step d)"
  "repaid (acquireCall cfg env b d) = None"
  "paidBack (acquireCall cfg env b d) = None"
  "pulled (acquireCall cfg env b d) = None"
  "supplied (acquireCall cfg env b d) = None"
  "withdrawn (acquireCall cfg env b d) = None"
  "resolved (acquireCall cfg env b d) = None"
  "List.map_filter acquiredStep (repayCalls env u b) = []"
  "List.map_filter repaid (repayCalls env u b) = [(borrowCToken b, u, borrowAmount b)]"
  "List.map_filter paidBack (repayCalls env u b) = []"
  "List.map_filter pulled (repayCalls env u b) = []"
  "List.map_filter supplied (repayCalls env u b) = []"
  "List.map_filter withdrawn (repayCalls env u b) = []"
  "List.map_filter resolved (repayCalls env u b) = []"
  by (simp_all add: acquireCall_def repayCalls_def mf)

lemma nextData_sel:
  "borrowData (nextData d T) = borrowData d" "step (nextData d T) = step d + 1"
  "user (nextData d T) = user d" "totalBaseToBorrow (nextData d T) = T"
  "collateral (nextData d T) = collateral d" "baseToken (nextData d T) = baseToken d"
  by (simp_all add: nextData_def)

lemma chain_Inr:
  "flashLoanOrSwap cfg env (borrowData d) (step d) d w = Inr w' \<Longrightarrow>
   \<exists>A S T. w' = w\<lparr>calls := calls w @ A @ S @
                 map (\<lambda>(t, p, a). Transfer t p a) (paybacks env (drop (step d) (borrowData d)))\<rparr>
     \<and> inMigration w = 1 \<and> step d < length (borrowData d)
     \<and> List.map_filter acquiredStep A = [step d..<length (borrowData d)]
     \<and> List.map_filter repaid A
         = map (\<lambda>b. (borrowCToken b, user d, borrowAmount b)) (drop (step d) (borrowData d))
     \<and> List.map_filter paidBack A = [] \<and> List.map_filter pulled A = []
     \<and> List.map_filter supplied A = [] \<and> List.map_filter withdrawn A = []
     \<and> List.map_filter resolved A = []
     \<and> unat T = unat (totalBaseToBorrow d)
                + sum_list (map (legNat env) (drop (step d) (borrowData d)))
     \<and> migrateCollateralAndBorrow cfg env d T (w\<lparr>calls := calls w @ A\<rparr>)
         = Inr (w\<lparr>calls := calls w @ A @ S\<rparr>)"
proof (induction "length (borrowData d) - step d" arbitrary: d w w')
  case 0
  from leg_Inr [OF "0.prems"] "0.hyps" show ?case by auto
next
  case (Suc n)
  let ?b = "borrowData d ! step d"
  let ?pre = "acquireCall cfg env ?b d # repayCalls env (user d) ?b"
  let ?w2 = "w\<lparr>calls := calls w @ ?pre\<rparr>"
  from leg_Inr [OF Suc.prems] obtain T1 w3 where
    g: "inMigration w = 1" and k: "step d < length (borrowData d)" and
    T1: "unat T1 = unat (totalBaseToBorrow d) + legNat env ?b" and
    nxt: "(if length (borrowData d) - 1 \<le> step d
           then migrateCollateralAndBorrow cfg env d T1 ?w2
           else flashLoanOrSwap cfg env (borrowData d) (step d + 1) (nextData d T1) ?w2) = Inr w3" and
    w': "w' = w3\<lparr>calls := calls w3 @
           [Transfer (repayToken env ?b) (pool ?b) (legAmount env ?b)]\<rparr>"
    by blast
  have dr: "drop (step d) (borrowData d) = ?b # drop (Suc (step d)) (borrowData d)"
    using k by (simp add: Cons_nth_drop_Suc)
  have up: "[step d..<length (borrowData d)] = step d # [Suc (step d)..<length (borrowData d)]"
    using k by (simp add: upt_conv_Cons)
  show ?case
  proof (cases "length (borrowData d) - 1 \<le> step d")
    case True
    with nxt have st: "migrateCollateralAndBorrow cfg env d T1 ?w2 = Inr w3" by simp
    from settle_Inr [OF st] obtain S where S: "w3 = ?w2\<lparr>calls := calls ?w2 @ S\<rparr>" by blast
    from True k have e: "drop (Suc (step d)) (borrowData d) = []"
      "[Suc (step d)..<length (borrowData d)] = []" by auto
    show ?thesis
      apply (rule exI [of _ ?pre], rule exI [of _ S], rule exI [of _ T1])
      using g k T1 w' S st by (simp add: dr up e pre_facts paybacks_def)
  next
    case False
    with nxt have rc: "flashLoanOrSwap cfg env (borrowData (nextData d T1)) (step (nextData d T1))
                         (nextData d T1) ?w2 = Inr w3"
      by (simp add: nextData_sel)
    have m: "n = length (borrowData (nextData d T1)) - step (nextData d T1)"
      using Suc.hyps(2) by (simp add: nextData_sel)
    from Suc.hyps(1) [OF m rc] obtain A S T where
      w3: "w3 = ?w2\<lparr>calls := calls ?w2 @ A @ S @
             map (\<lambda>(t, p, a). Transfer t p a)
               (paybacks env (drop (Suc (step d)) (borrowData d)))\<rparr>" and
      A: "List.map_filter acquiredStep A = [Suc (step d)..<length (borrowData d)]"
         "List.map_filter repaid A
            = map (\<lambda>b. (borrowCToken b, user d, borrowAmount b)) (drop (Suc (step d)) (borrowData d))"
         "List.map_filter paidBack A = []" "List.map_filter pulled A = []"
         "List.map_filter supplied A = []" "List.map_filter withdrawn A = []"
         "List.map_filter resolved A = []" and
      T: "unat T = unat T1 + sum_list (map (legNat env) (drop (Suc (step d)) (borrowData d)))" and
      st: "migrateCollateralAndBorrow cfg env (nextData d T1) T (?w2\<lparr>calls := calls ?w2 @ A\<rparr>)
            = Inr (?w2\<lparr>calls := calls ?w2 @ A @ S\<rparr>)"
      by (auto simp: nextData_sel)
    from st have st': "migrateCollateralAndBorrow cfg env d T (w\<lparr>calls := calls w @ ?pre @ A\<rparr>)
            = Inr (w\<lparr>calls := calls w @ (?pre @ A) @ S\<rparr>)"
      by (simp add: nextData_def settle_fields)
    show ?thesis
      apply (rule exI [of _ "?pre @ A"], rule exI [of _ S], rule exI [of _ T])
      using g k T1 T w' w3 A st'
      by (simp add: dr up pre_facts paybacks_def map_filter_append)
  qed
qed

lemma resolutionCalls_simps:
  "resolutionCalls usr [] = []"
  "resolutionCalls usr (b # bs) =
     (if borrowAmount b = MAX_UINT256 then [BorrowBalanceCurrent (borrowCToken b) usr] else [])
       @ resolutionCalls usr bs"
  by (simp_all add: resolutionCalls_def)

lemma resolutionCalls_facts:
  "List.map_filter acquiredStep (resolutionCalls usr bds) = []"
  "List.map_filter repaid (resolutionCalls usr bds) = []"
  "List.map_filter paidBack (resolutionCalls usr bds) = []"
  "List.map_filter pulled (resolutionCalls usr bds) = []"
  "List.map_filter supplied (resolutionCalls usr bds) = []"
  "List.map_filter withdrawn (resolutionCalls usr bds) = []"
  "List.map_filter resolved (resolutionCalls usr bds)
     = map (\<lambda>b. (borrowCToken b, usr)) (filter (\<lambda>b. borrowAmount b = MAX_UINT256) bds)"
  by (induction bds) (simp_all add: resolutionCalls_simps mf)

lemma resolve_Inr:
  "resolveBorrowAmounts env usr bds w = Inr (bd, w1) \<Longrightarrow>
     w1 = w\<lparr>calls := calls w @ resolutionCalls usr bds\<rparr>
   \<and> length bd = length bds
   \<and> (\<forall>i<length bds. bd ! i = (bds ! i)\<lparr>borrowAmount :=
          if borrowAmount (bds ! i) = MAX_UINT256
          then borrowBalanceCurrent env (borrowCToken (bds ! i)) usr
                 (calls w @ resolutionCalls usr (take i bds))
          else borrowAmount (bds ! i)\<rparr>)"
proof (induction bds arbitrary: w bd w1)
  case Nil
  then show ?case by (simp add: resolutionCalls_simps)
next
  case (Cons b bs)
  let ?h = "if borrowAmount b = MAX_UINT256 then [BorrowBalanceCurrent (borrowCToken b) usr] else []"
  let ?a = "if borrowAmount b = MAX_UINT256
            then borrowBalanceCurrent env (borrowCToken b) usr (calls w) else borrowAmount b"
  from Cons.prems obtain bs1 where
    r: "resolveBorrowAmounts env usr bs (w\<lparr>calls := calls w @ ?h\<rparr>) = Inr (bs1, w1)" and
    bd: "bd = b\<lparr>borrowAmount := ?a\<rparr> # bs1"
    by (auto simp: ext_Inr_iff split: if_splits sum.splits)
  from Cons.IH [OF r] have
    w1: "w1 = w\<lparr>calls := calls w @ ?h @ resolutionCalls usr bs\<rparr>" and
    len: "length bs1 = length bs" and
    nth: "\<And>i. i < length bs \<Longrightarrow> bs1 ! i = (bs ! i)\<lparr>borrowAmount :=
          if borrowAmount (bs ! i) = MAX_UINT256
          then borrowBalanceCurrent env (borrowCToken (bs ! i)) usr
                 (calls w @ ?h @ resolutionCalls usr (take i bs))
          else borrowAmount (bs ! i)\<rparr>"
    by simp_all
  have "bd ! i = ((b # bs) ! i)\<lparr>borrowAmount :=
          if borrowAmount ((b # bs) ! i) = MAX_UINT256
          then borrowBalanceCurrent env (borrowCToken ((b # bs) ! i)) usr
                 (calls w @ resolutionCalls usr (take i (b # bs)))
          else borrowAmount ((b # bs) ! i)\<rparr>" if "i < length (b # bs)" for i
  proof (cases i)
    case 0
    then show ?thesis by (simp add: bd resolutionCalls_simps)
  next
    case (Suc j)
    with that nth [of j] show ?thesis by (simp add: bd resolutionCalls_simps)
  qed
  with w1 len bd show ?case by (simp add: resolutionCalls_simps)
qed

lemma checked_sub_Inr: "checked_sub a b = Inr c \<Longrightarrow> c = a - b"
  by (auto simp: checked_sub_def split: if_splits)

lemma migrate_Inr:
  assumes "migrate cfg env u cs bds base w = Inr w'"
  shows "\<exists>bd A S T.
      inMigration w = 0
    \<and> resolveBorrowAmounts env u bds (w\<lparr>inMigration := 1\<rparr>)
        = Inr (bd, w\<lparr>inMigration := 1, calls := calls w @ resolutionCalls u bds\<rparr>)
    \<and> w' = w\<lparr>calls := calls w @ resolutionCalls u bds @ A @ S @
                map (\<lambda>(t, p, a). Transfer t p a) (paybacks env bd)\<rparr>
    \<and> bd \<noteq> []
    \<and> List.map_filter acquiredStep A = [0..<length bd]
    \<and> List.map_filter repaid A = map (\<lambda>b. (borrowCToken b, u, borrowAmount b)) bd
    \<and> List.map_filter paidBack A = [] \<and> List.map_filter pulled A = []
    \<and> List.map_filter supplied A = [] \<and> List.map_filter withdrawn A = []
    \<and> List.map_filter resolved A = []
    \<and> unat T = sum_list (map (legNat env) bd)
    \<and> migrateCollateralAndBorrow cfg env (initialData u bd cs base) T
         (w\<lparr>inMigration := 1, calls := calls w @ resolutionCalls u bds @ A\<rparr>)
        = Inr (w\<lparr>inMigration := 1, calls := calls w @ resolutionCalls u bds @ A @ S\<rparr>)"
proof -
  from assms have g: "inMigration w = 0"
    by (auto simp: migrate_def split: if_splits)
  from assms g obtain bd w1 w2 where
    r: "resolveBorrowAmounts env u bds (w\<lparr>inMigration := 1\<rparr>) = Inr (bd, w1)" and
    c: "flashLoanOrSwap cfg env bd 0 (initialData u bd cs base) w1 = Inr w2" and
    w': "w' = w2\<lparr>inMigration := inMigration w2 - 1\<rparr>"
    by (auto simp: migrate_def checked_add_def initialData_def split: if_splits sum.splits
          dest!: checked_sub_Inr)
  from resolve_Inr [OF r] have
    w1: "w1 = w\<lparr>inMigration := 1, calls := calls w @ resolutionCalls u bds\<rparr>"
    by simp
  from c have c': "flashLoanOrSwap cfg env (borrowData (initialData u bd cs base))
      (step (initialData u bd cs base)) (initialData u bd cs base) w1 = Inr w2"
    by (simp add: initialData_def)
  from chain_Inr [OF c'] obtain A S T where
    w2: "w2 = w1\<lparr>calls := calls w1 @ A @ S @
            map (\<lambda>(t, p, a). Transfer t p a) (paybacks env bd)\<rparr>" and
    ne: "0 < length bd" and
    A: "List.map_filter acquiredStep A = [0..<length bd]"
       "List.map_filter repaid A = map (\<lambda>b. (borrowCToken b, u, borrowAmount b)) bd"
       "List.map_filter paidBack A = []" "List.map_filter pulled A = []"
       "List.map_filter supplied A = []" "List.map_filter withdrawn A = []"
       "List.map_filter resolved A = []" and
    T: "unat T = sum_list (map (legNat env) bd)" and
    st: "migrateCollateralAndBorrow cfg env (initialData u bd cs base) T
           (w1\<lparr>calls := calls w1 @ A\<rparr>) = Inr (w1\<lparr>calls := calls w1 @ A @ S\<rparr>)"
    by (auto simp: initialData_def)
  show ?thesis
    apply (rule exI [of _ bd], rule exI [of _ A], rule exI [of _ S], rule exI [of _ T])
    using g r w1 w2 w' ne A T st by simp
qed

lemma paybacks_facts:
  "List.map_filter acquiredStep (map (\<lambda>(t, p, a). Transfer t p a) xs) = []"
  "List.map_filter repaid (map (\<lambda>(t, p, a). Transfer t p a) xs) = []"
  "List.map_filter paidBack (map (\<lambda>(t, p, a). Transfer t p a) xs) = xs"
  "List.map_filter pulled (map (\<lambda>(t, p, a). Transfer t p a) xs) = []"
  "List.map_filter supplied (map (\<lambda>(t, p, a). Transfer t p a) xs) = []"
  "List.map_filter withdrawn (map (\<lambda>(t, p, a). Transfer t p a) xs) = []"
  "List.map_filter resolved (map (\<lambda>(t, p, a). Transfer t p a) xs) = []"
  by (induction xs) (auto simp: mf)

lemma migrate_success:
  assumes "migrate cfg env u cs bds base w = Inr w'"
  shows "\<exists>bd w1 pre S T.
      inMigration w = 0 \<and> inMigration w' = 0
    \<and> resolveBorrowAmounts env u bds (w\<lparr>inMigration := 1\<rparr>) = Inr (bd, w1)
    \<and> length bd = length bds \<and> bds \<noteq> []
    \<and> calls w' = calls w @ pre @ S @ map (\<lambda>(t, p, a). Transfer t p a) (paybacks env bd)
    \<and> List.map_filter resolved pre
        = map (\<lambda>b. (borrowCToken b, u)) (filter (\<lambda>b. borrowAmount b = MAX_UINT256) bds)
    \<and> List.map_filter acquiredStep pre = [0..<length bds]
    \<and> List.map_filter repaid pre = map (\<lambda>b. (borrowCToken b, u, borrowAmount b)) bd
    \<and> List.map_filter paidBack pre = [] \<and> List.map_filter pulled pre = []
    \<and> List.map_filter supplied pre = [] \<and> List.map_filter withdrawn pre = []
    \<and> map (\<lambda>(c, f, t, a). (c, f, t)) (List.map_filter pulled S)
        = map (\<lambda>c. (cToken c, u, this cfg)) cs
    \<and> list_all2 (\<lambda>c (ct, f, t, a). amount c \<noteq> MAX_UINT256 \<longrightarrow> a = amount c) cs
          (List.map_filter pulled S)
    \<and> List.map_filter supplied S = map (\<lambda>c. (comet cfg, u, collateralUnderlying cfg env c)) cs
    \<and> List.map_filter acquiredStep S = [] \<and> List.map_filter repaid S = []
    \<and> List.map_filter paidBack S = [] \<and> List.map_filter resolved S = []
    \<and> List.map_filter withdrawn S = [(comet cfg, u, this cfg, base, T)]
    \<and> unat T = sum_list (map (legNat env) bd)
    \<and> length cs \<le> 255"
proof -
  from migrate_Inr [OF assms] obtain bd A S T where
    g: "inMigration w = 0" and
    r: "resolveBorrowAmounts env u bds (w\<lparr>inMigration := 1\<rparr>)
        = Inr (bd, w\<lparr>inMigration := 1, calls := calls w @ resolutionCalls u bds\<rparr>)" and
    w': "w' = w\<lparr>calls := calls w @ resolutionCalls u bds @ A @ S @
                map (\<lambda>(t, p, a). Transfer t p a) (paybacks env bd)\<rparr>" and
    ne: "bd \<noteq> []" and
    A: "List.map_filter acquiredStep A = [0..<length bd]"
       "List.map_filter repaid A = map (\<lambda>b. (borrowCToken b, u, borrowAmount b)) bd"
       "List.map_filter paidBack A = []" "List.map_filter pulled A = []"
       "List.map_filter supplied A = []" "List.map_filter withdrawn A = []"
       "List.map_filter resolved A = []" and
    T: "unat T = sum_list (map (legNat env) bd)" and
    st: "migrateCollateralAndBorrow cfg env (initialData u bd cs base) T
         (w\<lparr>inMigration := 1, calls := calls w @ resolutionCalls u bds @ A\<rparr>)
        = Inr (w\<lparr>inMigration := 1, calls := calls w @ resolutionCalls u bds @ A @ S\<rparr>)"
    by blast
  from resolve_Inr [OF r] have len: "length bd = length bds" by simp
  from settle_Inr [OF st] obtain S' where
    S': "w\<lparr>inMigration := 1, calls := calls w @ resolutionCalls u bds @ A @ S\<rparr>
         = w\<lparr>inMigration := 1, calls := calls w @ resolutionCalls u bds @ A\<rparr>
            \<lparr>calls := calls (w\<lparr>inMigration := 1, calls := calls w @ resolutionCalls u bds @ A\<rparr>) @ S'\<rparr>" and
    f: "map (\<lambda>(c, f, t, a). (c, f, t)) (List.map_filter pulled S')
          = map (\<lambda>c. (cToken c, u, this cfg)) cs"
       "list_all2 (\<lambda>c (ct, f, t, a). amount c \<noteq> MAX_UINT256 \<longrightarrow> a = amount c) cs
          (List.map_filter pulled S')"
       "List.map_filter supplied S' = map (\<lambda>c. (comet cfg, u, collateralUnderlying cfg env c)) cs"
       "List.map_filter acquiredStep S' = []" "List.map_filter repaid S' = []"
       "List.map_filter paidBack S' = []" "List.map_filter resolved S' = []"
       "List.map_filter withdrawn S' = [(comet cfg, u, this cfg, base, T)]"
       "length cs \<le> 255"
    by (auto simp: initialData_def)
  from S' have "calls (w\<lparr>inMigration := 1, calls := calls w @ resolutionCalls u bds @ A @ S\<rparr>)
      = calls (w\<lparr>inMigration := 1, calls := calls w @ resolutionCalls u bds @ A\<rparr>
            \<lparr>calls := calls (w\<lparr>inMigration := 1, calls := calls w @ resolutionCalls u bds @ A\<rparr>) @ S'\<rparr>)"
    by (rule arg_cong)
  then have SS: "S' = S" by simp
  show ?thesis
    apply (rule exI [of _ bd])
    apply (rule exI [of _ "w\<lparr>inMigration := 1, calls := calls w @ resolutionCalls u bds\<rparr>"])
    apply (rule exI [of _ "resolutionCalls u bds @ A"], rule exI [of _ S], rule exI [of _ T])
    using g r w' ne A T len f unfolding SS
    by (auto simp: map_filter_append resolutionCalls_facts)
qed

subsection \<open>Running the scenarios\<close>

lemma env0_sel:
  "underlying env0 = (\<lambda>c. c + 10)" "token0 env0 = (\<lambda>p. p - 10)" "token1 env0 = (\<lambda>p. 51 - p)"
  "borrowBalanceCurrent env0 = (\<lambda>c a h. 1000)" "repayBorrowBehalf env0 = (\<lambda>c b a h. 0)"
  "balanceOf env0 = (\<lambda>t a h. 500)" "transferFrom env0 = (\<lambda>c f t a h. True)"
  "transfer env0 = (\<lambda>t r a h. True)" "redeem env0 = (\<lambda>c a h. 0)" "balance env0 = (\<lambda>a h. 0)"
  "send env0 = (\<lambda>r a h. True)"
  "flashFees env0 = (\<lambda>p a0 a1. if p = 30 then (3, 3) else (2, 2))"
  "swapDeltas env0 = (\<lambda>p z a l. (a, 500))" "reverts env0 = (\<lambda>c h. False)"
  "poolRejects env0 = (\<lambda>p h. False)"
  by (simp_all add: env0_def)

lemmas run_simps = migrate_def checked_add_def checked_sub_def checked_neg_def ext_def
  migrateCollateralAndBorrow_def migrateCollateralItem_def Let_def
  flashLoanOrSwap.simps pool_flash.simps pool_swap.simps
  uniswapV3FlashCallback.simps uniswapV3SwapCallback.simps

lemma scenarioB_run: "migrate cfg0 env0 7 collA planB 21 w0 = Inr wB"
  by (simp add: run_simps env0_sel cfg0_def w0_def planB_def collA_def dataB_def wB_def
        MAX_UINT256_def)

lemma unat_1405: "unat (T :: uint256) = 1405 \<Longrightarrow> T = 1405"
  by (simp add: word_unat_eq_iff)

lemma flash_leg_run:
  "uniswapV3FlashCallback cfg0 env0 31 2 2 (dataB 1 1003) wMid
     = Inr (wMid\<lparr>calls := calls wMid @
              [Approve 21 11 MAX_UINT256, RepayBorrowBehalf 11 7 400,
               TransferFrom 12 7 104 500, Redeem 12 500,
               Approve 22 100 MAX_UINT256, SupplyTo 100 7 22 500,
               WithdrawFrom 100 7 104 21 1405, Migrated 7 collA 0 1405,
               Transfer 21 31 402]\<rparr>)"
  by (simp add: run_simps env0_sel cfg0_def wMid_def planB_def collA_def dataB_def MAX_UINT256_def)

lemma swap_leg_run:
  "uniswapV3SwapCallback cfg0 env0 30 (- 1000) 500 dataS wEngaged
     = Inr \<lparr>inMigration = 1,
            calls = [Approve 20 10 MAX_UINT256, RepayBorrowBehalf 10 7 1000,
                     WithdrawFrom 100 7 104 21 500, Migrated 7 [] 0 500,
                     Transfer 21 30 500]\<rparr>"
  by (simp add: run_simps env0_sel cfg0_def wEngaged_def planS_def dataS_def MAX_UINT256_def)

lemma env7_sel:
  "underlying env7 = (\<lambda>c. c + 10)" "token0 env7 = (\<lambda>p. p - 10)" "token1 env7 = (\<lambda>p. 51 - p)"
  "borrowBalanceCurrent env7 = (\<lambda>c a h. 1000)"
  "repayBorrowBehalf env7 = (\<lambda>c b a h. if c = 11 then 7 else 0)"
  "balanceOf env7 = (\<lambda>t a h. 500)" "transferFrom env7 = (\<lambda>c f t a h. True)"
  "transfer env7 = (\<lambda>t r a h. True)" "redeem env7 = (\<lambda>c a h. 0)" "balance env7 = (\<lambda>a h. 0)"
  "send env7 = (\<lambda>r a h. True)"
  "flashFees env7 = (\<lambda>p a0 a1. if p = 30 then (3, 3) else (2, 2))"
  "swapDeltas env7 = (\<lambda>p z a l. (a, 500))" "reverts env7 = (\<lambda>c h. False)"
  "poolRejects env7 = (\<lambda>p h. False)"
  by (simp_all add: env7_def env0_def)

lemma case_case_sum:
  "(case (case X of Inl e \<Rightarrow> Inl e | Inr w \<Rightarrow> f w) of Inl e \<Rightarrow> Inl e | Inr w \<Rightarrow> g w)
     = (case X of Inl e \<Rightarrow> Inl e | Inr w \<Rightarrow> (case f w of Inl e \<Rightarrow> Inl e | Inr w \<Rightarrow> g w))"
  by (cases X) simp_all

lemma flash_callback_unfold:
  assumes g: "inMigration w = 1" and k: "step d < length (borrowData d)"
    and b: "b = borrowData d ! step d"
    and f: "fee = (if token0 env (pool b) = underlying env (borrowCToken b) then f0 else f1)"
    and n1: "unat (borrowAmount b) + unat fee < 2 ^ 256"
    and n2: "unat (totalBaseToBorrow d) + unat (borrowAmount b + fee) < 2 ^ 256"
    and r2: "\<not> reverts env (Approve (underlying env (borrowCToken b)) (borrowCToken b) MAX_UINT256)
               (calls w)"
    and r3: "\<not> reverts env (RepayBorrowBehalf (borrowCToken b) (user d) (borrowAmount b))
               (calls w @ [Approve (underlying env (borrowCToken b)) (borrowCToken b) MAX_UINT256])"
  shows "uniswapV3FlashCallback cfg env (pool b) f0 f1 d w =
     (if repayBorrowBehalf env (borrowCToken b) (user d) (borrowAmount b)
           (calls w @ [Approve (underlying env (borrowCToken b)) (borrowCToken b) MAX_UINT256]) \<noteq> 0
      then Inl (CompoundV2Error 0
             (repayBorrowBehalf env (borrowCToken b) (user d) (borrowAmount b)
                (calls w @ [Approve (underlying env (borrowCToken b)) (borrowCToken b) MAX_UINT256])))
      else
      case (if length (borrowData d) - 1 \<le> step d
            then migrateCollateralAndBorrow cfg env d (totalBaseToBorrow d + (borrowAmount b + fee))
                   (w\<lparr>calls := calls w @ repayCalls env (user d) b\<rparr>)
            else flashLoanOrSwap cfg env (borrowData d) (step d + 1)
                   (nextData d (totalBaseToBorrow d + (borrowAmount b + fee)))
                   (w\<lparr>calls := calls w @ repayCalls env (user d) b\<rparr>)) of
        Inl e \<Rightarrow> Inl e
      | Inr w3 \<Rightarrow> ext env (Transfer (underlying env (borrowCToken b)) (pool b) (borrowAmount b + fee)) w3)"
  using g k n1 n2 r2 r3 unfolding b f
  apply (subst uniswapV3FlashCallback.simps)
  apply (simp add: Let_def ext_def checked_add_def repayCalls_def nextData_def)
  done

lemma swap_callback_unfold:
  assumes g: "inMigration w = 1" and k: "step d < length (borrowData d)"
    and b: "b = borrowData d ! step d"
    and f: "inp = (if token0 env (pool b) = underlying env (borrowCToken b) then d1 else d0)"
    and n2: "unat (totalBaseToBorrow d) + unat inp < 2 ^ 256"
    and r2: "\<not> reverts env (Approve (underlying env (borrowCToken b)) (borrowCToken b) MAX_UINT256)
               (calls w)"
    and r3: "\<not> reverts env (RepayBorrowBehalf (borrowCToken b) (user d) (borrowAmount b))
               (calls w @ [Approve (underlying env (borrowCToken b)) (borrowCToken b) MAX_UINT256])"
  shows "uniswapV3SwapCallback cfg env (pool b) d0 d1 d w =
     (if repayBorrowBehalf env (borrowCToken b) (user d) (borrowAmount b)
           (calls w @ [Approve (underlying env (borrowCToken b)) (borrowCToken b) MAX_UINT256]) \<noteq> 0
      then Inl (CompoundV2Error 0
             (repayBorrowBehalf env (borrowCToken b) (user d) (borrowAmount b)
                (calls w @ [Approve (underlying env (borrowCToken b)) (borrowCToken b) MAX_UINT256])))
      else
      case (if length (borrowData d) - 1 \<le> step d
            then migrateCollateralAndBorrow cfg env d (totalBaseToBorrow d + inp)
                   (w\<lparr>calls := calls w @ repayCalls env (user d) b\<rparr>)
            else flashLoanOrSwap cfg env (borrowData d) (step d + 1)
                   (nextData d (totalBaseToBorrow d + inp))
                   (w\<lparr>calls := calls w @ repayCalls env (user d) b\<rparr>)) of
        Inl e \<Rightarrow> Inl e
      | Inr w3 \<Rightarrow>
          ext env (Transfer (if token0 env (pool b) = underlying env (borrowCToken b)
                             then token1 env (pool b) else token0 env (pool b)) (pool b) inp) w3)"
  using g k n2 r2 r3 unfolding b f
  apply (subst uniswapV3SwapCallback.simps)
  apply (simp add: Let_def ext_def checked_add_def repayCalls_def nextData_def cong: sum.case_cong)
  done

lemma leg_unfold:
  assumes g: "inMigration w = 1" and k: "step d < length (borrowData d)"
    and b: "b = borrowData d ! step d"
    and nov: "unat (totalBaseToBorrow d) + legNat env b < 2 ^ 256"
    and neg: "isFlashLoan b \<or> borrowAmount b \<noteq> 2 ^ 255"
    and r1: "\<not> reverts env (acquireCall cfg env b d) (calls w)"
    and r2: "\<not> reverts env (hd (repayCalls env (user d) b)) (calls w @ [acquireCall cfg env b d])"
    and r3: "\<not> reverts env (RepayBorrowBehalf (borrowCToken b) (user d) (borrowAmount b))
               (calls w @ [acquireCall cfg env b d, hd (repayCalls env (user d) b)])"
  shows "flashLoanOrSwap cfg env (borrowData d) (step d) d w =
     (if repayBorrowBehalf env (borrowCToken b) (user d) (borrowAmount b)
           (calls w @ [acquireCall cfg env b d, hd (repayCalls env (user d) b)]) \<noteq> 0
      then Inl (CompoundV2Error 0
             (repayBorrowBehalf env (borrowCToken b) (user d) (borrowAmount b)
                (calls w @ [acquireCall cfg env b d, hd (repayCalls env (user d) b)])))
      else
      case (if length (borrowData d) - 1 \<le> step d
            then migrateCollateralAndBorrow cfg env d (totalBaseToBorrow d + legAmount env b)
                   (w\<lparr>calls := calls w @ acquireCall cfg env b d # repayCalls env (user d) b\<rparr>)
            else flashLoanOrSwap cfg env (borrowData d) (step d + 1)
                   (nextData d (totalBaseToBorrow d + legAmount env b))
                   (w\<lparr>calls := calls w @ acquireCall cfg env b d # repayCalls env (user d) b\<rparr>)) of
        Inl e \<Rightarrow> Inl e
      | Inr w3 \<Rightarrow>
         (case ext env (Transfer (repayToken env b) (pool b) (legAmount env b)) w3 of
            Inl e \<Rightarrow> Inl e
          | Inr w5 \<Rightarrow> if poolRejects env (pool b) (calls w5) then Inl ExternalRevert else Inr w5))"
proof (cases "isFlashLoan b")
  case True
  let ?w1 = "w\<lparr>calls := calls w @ [acquireCall cfg env b d]\<rparr>"
  let ?a0 = "if isPoolToken0 env b then borrowAmount b else 0"
  let ?a1 = "if isPoolToken0 env b then 0 else borrowAmount b"
  have fee: "flashFee env b = (if token0 env (pool b) = underlying env (borrowCToken b)
      then fst (flashFees env (pool b) ?a0 ?a1) else snd (flashFees env (pool b) ?a0 ?a1))"
    by (simp add: flashFee_def isPoolToken0_def)
  from nov True have n1: "unat (borrowAmount b) + unat (flashFee env b) < 2 ^ 256"
    and n2: "unat (totalBaseToBorrow d) + unat (borrowAmount b + flashFee env b) < 2 ^ 256"
    by (simp_all add: legNat_def unat_word_ariths)
  have 1: "flashLoanOrSwap cfg env (borrowData d) (step d) d w =
      (case uniswapV3FlashCallback cfg env (pool b) (fst (flashFees env (pool b) ?a0 ?a1))
              (snd (flashFees env (pool b) ?a0 ?a1)) d ?w1 of
         Inl e \<Rightarrow> Inl e
       | Inr w2 \<Rightarrow> if poolRejects env (pool b) (calls w2) then Inl ExternalRevert else Inr w2)"
    using k True r1 unfolding b
    apply (subst flashLoanOrSwap.simps)
    apply (cases "token0 env (pool (borrowData d ! step d))
                    = underlying env (borrowCToken (borrowData d ! step d))")
     apply (simp_all add: pool_flash.simps Let_def ext_def acquireCall_def isPoolToken0_def)
    done
  have 2: "uniswapV3FlashCallback cfg env (pool b) (fst (flashFees env (pool b) ?a0 ?a1))
              (snd (flashFees env (pool b) ?a0 ?a1)) d ?w1 =
     (if repayBorrowBehalf env (borrowCToken b) (user d) (borrowAmount b)
           (calls ?w1 @ [Approve (underlying env (borrowCToken b)) (borrowCToken b) MAX_UINT256]) \<noteq> 0
      then Inl (CompoundV2Error 0
             (repayBorrowBehalf env (borrowCToken b) (user d) (borrowAmount b)
                (calls ?w1 @ [Approve (underlying env (borrowCToken b)) (borrowCToken b) MAX_UINT256])))
      else
      case (if length (borrowData d) - 1 \<le> step d
            then migrateCollateralAndBorrow cfg env d
                   (totalBaseToBorrow d + (borrowAmount b + flashFee env b))
                   (?w1\<lparr>calls := calls ?w1 @ repayCalls env (user d) b\<rparr>)
            else flashLoanOrSwap cfg env (borrowData d) (step d + 1)
                   (nextData d (totalBaseToBorrow d + (borrowAmount b + flashFee env b)))
                   (?w1\<lparr>calls := calls ?w1 @ repayCalls env (user d) b\<rparr>)) of
        Inl e \<Rightarrow> Inl e
      | Inr w3 \<Rightarrow> ext env (Transfer (underlying env (borrowCToken b)) (pool b)
                          (borrowAmount b + flashFee env b)) w3)"
    apply (rule flash_callback_unfold [OF _ k b fee n1 n2])
    using g r2 r3 by (simp_all add: repayCalls_def)
  show ?thesis
    unfolding 1 2 using True
    by (simp add: case_case_sum legAmount_def repayToken_def repayCalls_def split: sum.splits)
next
  case False
  let ?w1 = "w\<lparr>calls := calls w @ [acquireCall cfg env b d]\<rparr>"
  let ?z = "\<not> isPoolToken0 env b"
  let ?l = "if isPoolToken0 env b then MAX_SQRT_RATIO - 1 else MIN_SQRT_RATIO + 1"
  let ?dl = "swapDeltas env (pool b) ?z (- borrowAmount b) ?l"
  have inp: "swapInput env b = (if token0 env (pool b) = underlying env (borrowCToken b)
      then snd ?dl else fst ?dl)"
    by (simp add: swapInput_def isPoolToken0_def)
  from nov False have n2: "unat (totalBaseToBorrow d) + unat (swapInput env b) < 2 ^ 256"
    by (simp add: legNat_def)
  from neg False have n3: "borrowAmount b \<noteq> 2 ^ 255" by simp
  have 1: "flashLoanOrSwap cfg env (borrowData d) (step d) d w =
      (case uniswapV3SwapCallback cfg env (pool b) (fst ?dl) (snd ?dl) d ?w1 of
         Inl e \<Rightarrow> Inl e
       | Inr w2 \<Rightarrow> if poolRejects env (pool b) (calls w2) then Inl ExternalRevert else Inr w2)"
    using k False r1 n3 unfolding b
    apply (subst flashLoanOrSwap.simps)
    apply (cases "token0 env (pool (borrowData d ! step d))
                    = underlying env (borrowCToken (borrowData d ! step d))")
     apply (simp_all add: pool_swap.simps Let_def ext_def acquireCall_def isPoolToken0_def
             checked_neg_def)
    done
  have 2: "uniswapV3SwapCallback cfg env (pool b) (fst ?dl) (snd ?dl) d ?w1 =
     (if repayBorrowBehalf env (borrowCToken b) (user d) (borrowAmount b)
           (calls ?w1 @ [Approve (underlying env (borrowCToken b)) (borrowCToken b) MAX_UINT256]) \<noteq> 0
      then Inl (CompoundV2Error 0
             (repayBorrowBehalf env (borrowCToken b) (user d) (borrowAmount b)
                (calls ?w1 @ [Approve (underlying env (borrowCToken b)) (borrowCToken b) MAX_UINT256])))
      else
      case (if length (borrowData d) - 1 \<le> step d
            then migrateCollateralAndBorrow cfg env d (totalBaseToBorrow d + swapInput env b)
                   (?w1\<lparr>calls := calls ?w1 @ repayCalls env (user d) b\<rparr>)
            else flashLoanOrSwap cfg env (borrowData d) (step d + 1)
                   (nextData d (totalBaseToBorrow d + swapInput env b))
                   (?w1\<lparr>calls := calls ?w1 @ repayCalls env (user d) b\<rparr>)) of
        Inl e \<Rightarrow> Inl e
      | Inr w3 \<Rightarrow>
          ext env (Transfer (if token0 env (pool b) = underlying env (borrowCToken b)
                             then token1 env (pool b) else token0 env (pool b)) (pool b)
                     (swapInput env b)) w3)"
    apply (rule swap_callback_unfold [OF _ k b inp n2])
    using g r2 r3 by (simp_all add: repayCalls_def)
  show ?thesis
    unfolding 1 2 using False
    by (simp add: case_case_sum legAmount_def repayToken_def repayCalls_def isPoolToken0_def
          split: sum.splits)
qed

lemma envD_sel:
  "underlying envD = (\<lambda>c. c + 10)" "token0 envD = (\<lambda>p. p - 10)" "token1 envD = (\<lambda>p. 51 - p)"
  "borrowBalanceCurrent envD = (\<lambda>c a h. 1000 - repaidTo c h)"
  "repayBorrowBehalf envD = (\<lambda>c b a h. 0)"
  "balanceOf envD = (\<lambda>t a h. 500)" "transferFrom envD = (\<lambda>c f t a h. True)"
  "transfer envD = (\<lambda>t r a h. True)" "redeem envD = (\<lambda>c a h. 0)" "balance envD = (\<lambda>a h. 0)"
  "send envD = (\<lambda>r a h. True)"
  "flashFees envD = (\<lambda>p a0 a1. if p = 30 then (3, 3) else (2, 2))"
  "swapDeltas envD = (\<lambda>p z a l. (a, 500))" "reverts envD = (\<lambda>c h. False)"
  "poolRejects envD = (\<lambda>p h. False)"
  by (simp_all add: envD_def env0_def)

lemma scenarioD_run: "migrate cfg0 envD 7 [] planD 21 w0 = Inr wD"
  by (simp add: run_simps envD_sel cfg0_def w0_def planD_def dataD_def wD_def MAX_UINT256_def
        repaidTo_def mf)

subsection \<open>The calls of a successful run, exactly\<close>

lemma accepted_append:
  "accepted env h (xs @ ys) \<longleftrightarrow> accepted env h xs \<and> accepted env (h @ xs) ys"
  by (induction xs arbitrary: h) auto

lemma item_exact:
  assumes "migrateCollateralItem cfg env usr c i w = Inr w'"
  shows "w' = w\<lparr>calls := calls w @ itemCalls cfg env usr c (calls w)\<rparr>
     \<and> accepted env (calls w) (itemCalls cfg env usr c (calls w))"
  using assms
  by (auto simp: migrateCollateralItem_def itemCalls_def Let_def ext_Inr_iff collateralUnderlying_def
        collateralAmount_def split: if_splits sum.splits)

lemma loop_exact:
  "migrateCollateralLoop cfg env usr cs i w = Inr w' \<Longrightarrow>
     w' = w\<lparr>calls := calls w @ settlementCalls cfg env usr cs (calls w)\<rparr>
   \<and> accepted env (calls w) (settlementCalls cfg env usr cs (calls w))"
proof (induction cs arbitrary: i w)
  case Nil
  then show ?case by simp
next
  case (Cons c cs)
  from Cons.prems obtain w1 where
    item: "migrateCollateralItem cfg env usr c i w = Inr w1" and
    rest: "migrateCollateralLoop cfg env usr cs (i + 1) w1 = Inr w'"
    by (auto split: sum.splits if_splits)
  from item_exact [OF item] Cons.IH [OF rest] show ?case
    by (simp add: accepted_append)
qed

lemma settle_exact:
  assumes "migrateCollateralAndBorrow cfg env d T w = Inr w'"
  shows "w' = w\<lparr>calls := calls w @ settlementCalls cfg env (user d) (collateral d) (calls w)
                   @ [WithdrawFrom (comet cfg) (user d) (this cfg) (baseToken d) T,
                      Migrated (user d) (collateral d) 0 T]\<rparr>
     \<and> accepted env (calls w)
         (settlementCalls cfg env (user d) (collateral d) (calls w)
            @ [WithdrawFrom (comet cfg) (user d) (this cfg) (baseToken d) T,
               Migrated (user d) (collateral d) 0 T])"
proof -
  from assms obtain w1 where
    l: "migrateCollateralLoop cfg env (user d) (collateral d) 0 w = Inr w1" and
    r: "\<not> reverts env (WithdrawFrom (comet cfg) (user d) (this cfg) (baseToken d) T) (calls w1)" and
    w': "w' = w1\<lparr>calls := calls w1 @
           [WithdrawFrom (comet cfg) (user d) (this cfg) (baseToken d) T,
            Migrated (user d) (collateral d) 0 T]\<rparr>"
    by (auto simp: migrateCollateralAndBorrow_def ext_Inr_iff split: sum.splits)
  from loop_exact [OF l] r w' show ?thesis
    by (simp add: accepted_append)
qed

lemma flash_callback_exact:
  assumes "uniswapV3FlashCallback cfg env s f0 f1 d w = Inr w'"
  shows "\<exists>w3.
      accepted env (calls w) (repayCalls env (user d) (borrowData d ! step d))
    \<and> (if length (borrowData d) - 1 \<le> step d
        then migrateCollateralAndBorrow cfg env d
               (totalBaseToBorrow d + (borrowAmount (borrowData d ! step d)
                  + (if isPoolToken0 env (borrowData d ! step d) then f0 else f1)))
               (w\<lparr>calls := calls w @ repayCalls env (user d) (borrowData d ! step d)\<rparr>)
        else flashLoanOrSwap cfg env (borrowData d) (step d + 1)
               (nextData d (totalBaseToBorrow d + (borrowAmount (borrowData d ! step d)
                  + (if isPoolToken0 env (borrowData d ! step d) then f0 else f1))))
               (w\<lparr>calls := calls w @ repayCalls env (user d) (borrowData d ! step d)\<rparr>)) = Inr w3
    \<and> \<not> reverts env
          (Transfer (underlying env (borrowCToken (borrowData d ! step d)))
             (pool (borrowData d ! step d))
             (borrowAmount (borrowData d ! step d)
                + (if isPoolToken0 env (borrowData d ! step d) then f0 else f1))) (calls w3)
    \<and> w' = w3\<lparr>calls := calls w3 @
          [Transfer (underlying env (borrowCToken (borrowData d ! step d)))
             (pool (borrowData d ! step d))
             (borrowAmount (borrowData d ! step d)
                + (if isPoolToken0 env (borrowData d ! step d) then f0 else f1))]\<rparr>"
  using assms
  by (auto simp: uniswapV3FlashCallback.simps Let_def ext_Inr_iff isPoolToken0_def repayCalls_def
        nextData_def checked_add_def split: if_splits sum.splits)

lemma swap_callback_exact:
  assumes "uniswapV3SwapCallback cfg env s d0 d1 d w = Inr w'"
  shows "\<exists>w3.
      accepted env (calls w) (repayCalls env (user d) (borrowData d ! step d))
    \<and> (if length (borrowData d) - 1 \<le> step d
        then migrateCollateralAndBorrow cfg env d
               (totalBaseToBorrow d + (if isPoolToken0 env (borrowData d ! step d) then d1 else d0))
               (w\<lparr>calls := calls w @ repayCalls env (user d) (borrowData d ! step d)\<rparr>)
        else flashLoanOrSwap cfg env (borrowData d) (step d + 1)
               (nextData d (totalBaseToBorrow d
                  + (if isPoolToken0 env (borrowData d ! step d) then d1 else d0)))
               (w\<lparr>calls := calls w @ repayCalls env (user d) (borrowData d ! step d)\<rparr>)) = Inr w3
    \<and> \<not> reverts env
          (Transfer (if isPoolToken0 env (borrowData d ! step d)
                     then token1 env (pool (borrowData d ! step d))
                     else token0 env (pool (borrowData d ! step d)))
             (pool (borrowData d ! step d))
             (if isPoolToken0 env (borrowData d ! step d) then d1 else d0)) (calls w3)
    \<and> w' = w3\<lparr>calls := calls w3 @
          [Transfer (if isPoolToken0 env (borrowData d ! step d)
                     then token1 env (pool (borrowData d ! step d))
                     else token0 env (pool (borrowData d ! step d)))
             (pool (borrowData d ! step d))
             (if isPoolToken0 env (borrowData d ! step d) then d1 else d0)]\<rparr>"
  using assms
  by (auto simp: uniswapV3SwapCallback.simps Let_def ext_Inr_iff isPoolToken0_def repayCalls_def
        nextData_def checked_add_def split: if_splits sum.splits)

lemma leg_exact:
  assumes "flashLoanOrSwap cfg env (borrowData d) (step d) d w = Inr w'"
  shows "\<exists>w3.
      accepted env (calls w)
        (acquireCall cfg env (borrowData d ! step d) d
           # repayCalls env (user d) (borrowData d ! step d))
    \<and> (if length (borrowData d) - 1 \<le> step d
        then migrateCollateralAndBorrow cfg env d
               (totalBaseToBorrow d + legAmount env (borrowData d ! step d))
               (w\<lparr>calls := calls w @ acquireCall cfg env (borrowData d ! step d) d
                   # repayCalls env (user d) (borrowData d ! step d)\<rparr>)
        else flashLoanOrSwap cfg env (borrowData d) (step d + 1)
               (nextData d (totalBaseToBorrow d + legAmount env (borrowData d ! step d)))
               (w\<lparr>calls := calls w @ acquireCall cfg env (borrowData d ! step d) d
                   # repayCalls env (user d) (borrowData d ! step d)\<rparr>)) = Inr w3
    \<and> \<not> reverts env
          (Transfer (repayToken env (borrowData d ! step d)) (pool (borrowData d ! step d))
             (legAmount env (borrowData d ! step d))) (calls w3)
    \<and> \<not> poolRejects env (pool (borrowData d ! step d)) (calls w')
    \<and> w' = w3\<lparr>calls := calls w3 @
          [Transfer (repayToken env (borrowData d ! step d)) (pool (borrowData d ! step d))
             (legAmount env (borrowData d ! step d))]\<rparr>"
proof (cases "isFlashLoan (borrowData d ! step d)")
  case True
  let ?b = "borrowData d ! step d"
  from assms True obtain w2 where
    r: "\<not> reverts env (acquireCall cfg env ?b d) (calls w)" and
    pr: "\<not> poolRejects env (pool ?b) (calls w')" and
    cb: "uniswapV3FlashCallback cfg env (pool ?b)
           (fst (flashFees env (pool ?b) (if isPoolToken0 env ?b then borrowAmount ?b else 0)
                   (if isPoolToken0 env ?b then 0 else borrowAmount ?b)))
           (snd (flashFees env (pool ?b) (if isPoolToken0 env ?b then borrowAmount ?b else 0)
                   (if isPoolToken0 env ?b then 0 else borrowAmount ?b)))
           d (w\<lparr>calls := calls w @ [acquireCall cfg env ?b d]\<rparr>) = Inr w'"
    by (auto simp: flashLoanOrSwap.simps pool_flash.simps Let_def ext_Inr_iff isPoolToken0_def
          acquireCall_def split: if_splits sum.splits)
  have ac: "answerOk env (calls w) (acquireCall cfg env ?b d)"
    using r by (simp add: acquireCall_def split: if_splits)
  from flash_callback_exact [OF cb] True ac pr show ?thesis
    by (auto simp: legAmount_def flashFee_def repayToken_def split: if_splits)
next
  case False
  let ?b = "borrowData d ! step d"
  from assms False obtain w2 where
    r: "\<not> reverts env (acquireCall cfg env ?b d) (calls w)" and
    pr: "\<not> poolRejects env (pool ?b) (calls w')" and
    cb: "uniswapV3SwapCallback cfg env (pool ?b)
           (fst (swapDeltas env (pool ?b) (\<not> isPoolToken0 env ?b) (- borrowAmount ?b)
                   (if isPoolToken0 env ?b then MAX_SQRT_RATIO - 1 else MIN_SQRT_RATIO + 1)))
           (snd (swapDeltas env (pool ?b) (\<not> isPoolToken0 env ?b) (- borrowAmount ?b)
                   (if isPoolToken0 env ?b then MAX_SQRT_RATIO - 1 else MIN_SQRT_RATIO + 1)))
           d (w\<lparr>calls := calls w @ [acquireCall cfg env ?b d]\<rparr>) = Inr w'"
    by (auto simp: flashLoanOrSwap.simps pool_swap.simps Let_def ext_Inr_iff isPoolToken0_def
          acquireCall_def checked_neg_def split: if_splits sum.splits)
  have ac: "answerOk env (calls w) (acquireCall cfg env ?b d)"
    using r by (simp add: acquireCall_def split: if_splits)
  from swap_callback_exact [OF cb] False ac pr show ?thesis
    by (auto simp: legAmount_def swapInput_def repayToken_def split: if_splits)
qed

lemma chain_exact:
  "flashLoanOrSwap cfg env (borrowData d) (step d) d w = Inr w' \<Longrightarrow>
     w' = w\<lparr>calls := calls w @ chainCalls cfg env d (length (borrowData d) - step d)
            @ (settlementCalls cfg env (user d) (collateral d)
                 (calls w @ chainCalls cfg env d (length (borrowData d) - step d))
               @ [WithdrawFrom (comet cfg) (user d) (this cfg) (baseToken d)
                    (totalBaseToBorrow d
                       + sum_list (map (legAmount env) (drop (step d) (borrowData d)))),
                  Migrated (user d) (collateral d) 0
                    (totalBaseToBorrow d
                       + sum_list (map (legAmount env) (drop (step d) (borrowData d))))])
            @ map (\<lambda>(t, p, a). Transfer t p a) (paybacks env (drop (step d) (borrowData d)))\<rparr>
   \<and> accepted env (calls w)
       (chainCalls cfg env d (length (borrowData d) - step d)
        @ (settlementCalls cfg env (user d) (collateral d)
             (calls w @ chainCalls cfg env d (length (borrowData d) - step d))
           @ [WithdrawFrom (comet cfg) (user d) (this cfg) (baseToken d)
                (totalBaseToBorrow d
                   + sum_list (map (legAmount env) (drop (step d) (borrowData d)))),
              Migrated (user d) (collateral d) 0
                (totalBaseToBorrow d
                   + sum_list (map (legAmount env) (drop (step d) (borrowData d))))])
        @ map (\<lambda>(t, p, a). Transfer t p a) (paybacks env (drop (step d) (borrowData d))))"
proof (induction "length (borrowData d) - step d" arbitrary: d w w')
  case 0
  from leg_Inr [OF "0.prems"] "0.hyps" show ?case by auto
next
  case (Suc n)
  let ?b = "borrowData d ! step d"
  let ?pre = "acquireCall cfg env ?b d # repayCalls env (user d) ?b"
  let ?w2 = "w\<lparr>calls := calls w @ ?pre\<rparr>"
  let ?T1 = "totalBaseToBorrow d + legAmount env ?b"
  let ?pay = "Transfer (repayToken env ?b) (pool ?b) (legAmount env ?b)"
  from leg_Inr [OF Suc.prems] have k: "step d < length (borrowData d)" by blast
  from leg_exact [OF Suc.prems] obtain w3 where
    ac: "accepted env (calls w) ?pre" and
    nxt: "(if length (borrowData d) - 1 \<le> step d
           then migrateCollateralAndBorrow cfg env d ?T1 ?w2
           else flashLoanOrSwap cfg env (borrowData d) (step d + 1) (nextData d ?T1) ?w2) = Inr w3" and
    rv: "\<not> reverts env ?pay (calls w3)" and
    pr: "\<not> poolRejects env (pool ?b) (calls w')" and
    w': "w' = w3\<lparr>calls := calls w3 @ [?pay]\<rparr>"
    by blast
  from pr have pa: "\<not> poolRejects env (pool ?b) (calls w3 @ [?pay])"
    by (simp add: w')
  have dr: "drop (step d) (borrowData d) = ?b # drop (Suc (step d)) (borrowData d)"
    using k by (simp add: Cons_nth_drop_Suc)
  have len: "length (borrowData d) - step d = Suc n" using Suc.hyps(2) by simp
  show ?case
  proof (cases "length (borrowData d) - 1 \<le> step d")
    case True
    with nxt have st: "migrateCollateralAndBorrow cfg env d ?T1 ?w2 = Inr w3" by simp
    from True k have e: "drop (Suc (step d)) (borrowData d) = []" and n0: "n = 0"
      using len by auto
    from settle_exact [OF st] w' rv pa ac show ?thesis
      unfolding len dr by (simp add: e n0 paybacks_def accepted_append)
  next
    case False
    with nxt have rc: "flashLoanOrSwap cfg env (borrowData (nextData d ?T1)) (step (nextData d ?T1))
                         (nextData d ?T1) ?w2 = Inr w3"
      by (simp add: nextData_sel)
    have m: "n = length (borrowData (nextData d ?T1)) - step (nextData d ?T1)"
      using Suc.hyps(2) by (simp add: nextData_sel)
    have n: "length (borrowData d) - Suc (step d) = n" using len by simp
    from Suc.hyps(1) [OF m rc] have ih:
      "w3 = ?w2\<lparr>calls := calls ?w2 @ chainCalls cfg env (nextData d ?T1) n
            @ (settlementCalls cfg env (user d) (collateral d)
                 (calls ?w2 @ chainCalls cfg env (nextData d ?T1) n)
               @ [WithdrawFrom (comet cfg) (user d) (this cfg) (baseToken d)
                    (?T1 + sum_list (map (legAmount env) (drop (Suc (step d)) (borrowData d)))),
                  Migrated (user d) (collateral d) 0
                    (?T1 + sum_list (map (legAmount env) (drop (Suc (step d)) (borrowData d))))])
            @ map (\<lambda>(t, p, a). Transfer t p a) (paybacks env (drop (Suc (step d)) (borrowData d)))\<rparr>"
      "accepted env (calls ?w2)
         (chainCalls cfg env (nextData d ?T1) n
          @ (settlementCalls cfg env (user d) (collateral d)
               (calls ?w2 @ chainCalls cfg env (nextData d ?T1) n)
             @ [WithdrawFrom (comet cfg) (user d) (this cfg) (baseToken d)
                  (?T1 + sum_list (map (legAmount env) (drop (Suc (step d)) (borrowData d)))),
                Migrated (user d) (collateral d) 0
                  (?T1 + sum_list (map (legAmount env) (drop (Suc (step d)) (borrowData d))))])
          @ map (\<lambda>(t, p, a). Transfer t p a) (paybacks env (drop (Suc (step d)) (borrowData d))))"
      by (simp_all add: nextData_sel n)
    show ?thesis
      unfolding len dr using ih w' rv pa ac
      by (simp add: paybacks_def accepted_append add.assoc)
  qed
qed

lemma resolvedPlan_length: "length (resolvedPlan env usr bds h) = length bds"
  by (induction bds arbitrary: h) simp_all

lemma resolve_exact:
  "resolveBorrowAmounts env usr bds w = Inr (bd, w1) \<Longrightarrow>
     bd = resolvedPlan env usr bds (calls w)
   \<and> accepted env (calls w) (resolutionCalls usr bds)"
proof (induction bds arbitrary: w bd w1)
  case Nil
  then show ?case by (simp add: resolutionCalls_simps)
next
  case (Cons b bs)
  let ?h = "if borrowAmount b = MAX_UINT256 then [BorrowBalanceCurrent (borrowCToken b) usr] else []"
  let ?a = "if borrowAmount b = MAX_UINT256
            then borrowBalanceCurrent env (borrowCToken b) usr (calls w) else borrowAmount b"
  from Cons.prems obtain bs1 where
    r: "resolveBorrowAmounts env usr bs (w\<lparr>calls := calls w @ ?h\<rparr>) = Inr (bs1, w1)" and
    bd: "bd = b\<lparr>borrowAmount := ?a\<rparr> # bs1" and
    a: "accepted env (calls w) ?h"
    by (auto simp: ext_Inr_iff split: if_splits sum.splits)
  from Cons.IH [OF r] bd a show ?case
    by (simp add: resolutionCalls_simps accepted_append)
qed

lemma migrate_trace:
  assumes "migrate cfg env u cs bds base w = Inr w'"
  shows "inMigration w = 0
     \<and> w' = w\<lparr>calls := calls w @ migrationCalls cfg env u cs bds base (calls w)\<rparr>
     \<and> accepted env (calls w) (migrationCalls cfg env u cs bds base (calls w))"
proof -
  from assms have g: "inMigration w = 0"
    by (auto simp: migrate_def split: if_splits)
  from assms g obtain bd w1 w2 where
    r: "resolveBorrowAmounts env u bds (w\<lparr>inMigration := 1\<rparr>) = Inr (bd, w1)" and
    c: "flashLoanOrSwap cfg env bd 0 (initialData u bd cs base) w1 = Inr w2" and
    w': "w' = w2\<lparr>inMigration := inMigration w2 - 1\<rparr>"
    by (auto simp: migrate_def checked_add_def initialData_def split: if_splits sum.splits
          dest!: checked_sub_Inr)
  from resolve_Inr [OF r] have
    w1: "w1 = w\<lparr>inMigration := 1, calls := calls w @ resolutionCalls u bds\<rparr>"
    by simp
  from resolve_exact [OF r] have
    bd: "bd = resolvedPlan env u bds (calls w)" and
    ar: "accepted env (calls w) (resolutionCalls u bds)"
    by simp_all
  from c have c': "flashLoanOrSwap cfg env (borrowData (initialData u bd cs base))
      (step (initialData u bd cs base)) (initialData u bd cs base) w1 = Inr w2"
    by (simp add: initialData_def)
  have sel: "borrowData (initialData u bd cs base) = bd" "step (initialData u bd cs base) = 0"
    "user (initialData u bd cs base) = u" "collateral (initialData u bd cs base) = cs"
    "baseToken (initialData u bd cs base) = base" "totalBaseToBorrow (initialData u bd cs base) = 0"
    by (simp_all add: initialData_def)
  from chain_exact [OF c'] w1 w' g ar show ?thesis
    unfolding sel
    by (simp add: migrationCalls_def Let_def bd [symmetric] accepted_append)
qed

lemma chainEvent_pre:
  "chainEvent (acquireCall cfg env b d)
     = Some (Acquire (step d) (pool b) (isFlashLoan b) (borrowAmount b))"
  "List.map_filter chainEvent (repayCalls env u b) = [Repay (borrowCToken b) u (borrowAmount b)]"
  by (simp_all add: acquireCall_def repayCalls_def mf)

lemma chainCalls_events:
  "List.map_filter chainEvent (chainCalls cfg env d n)
     = concat (map (\<lambda>i. [Acquire i (pool (borrowData d ! i)) (isFlashLoan (borrowData d ! i))
                            (borrowAmount (borrowData d ! i)),
                          Repay (borrowCToken (borrowData d ! i)) (user d)
                            (borrowAmount (borrowData d ! i))])
         [step d..<step d + n])"
proof (induction n arbitrary: d)
  case 0
  show ?case by (simp add: mf)
next
  case (Suc n)
  have up: "[step d..<step d + Suc n] = step d # [Suc (step d)..<Suc (step d) + n]"
    by (simp add: upt_conv_Cons)
  show ?case
    unfolding up by (simp add: mf chainEvent_pre Suc.IH nextData_sel)
qed

lemma chainCalls_facts:
  "List.map_filter pulled (chainCalls cfg env d n) = []"
  "List.map_filter supplied (chainCalls cfg env d n) = []"
  "List.map_filter withdrawn (chainCalls cfg env d n) = []"
  "List.map_filter resolved (chainCalls cfg env d n) = []"
  "List.map_filter paidBack (chainCalls cfg env d n) = []"
  by (induction n arbitrary: d) (simp_all add: mf pre_facts)

lemma itemCalls_facts:
  "List.map_filter chainEvent (itemCalls cfg env u c h) = []"
  "List.map_filter pulled (itemCalls cfg env u c h)
     = [(cToken c, u, this cfg, collateralAmount env u c h)]"
  by (simp_all add: itemCalls_def Let_def mf)

lemma settlementCalls_events:
  "List.map_filter chainEvent (settlementCalls cfg env u cs h) = []"
  by (induction cs arbitrary: h) (simp_all add: mf itemCalls_facts)

lemma paybacks_events:
  "List.map_filter chainEvent (map (\<lambda>(t, p, a). Transfer t p a) xs) = []"
  by (induction xs) (auto simp: mf)

lemma resolutionCalls_events:
  "List.map_filter chainEvent (resolutionCalls usr bds) = []"
  by (induction bds) (simp_all add: resolutionCalls_simps mf)

lemma pullsLive_skip:
  "List.map_filter pulled xs = [] \<Longrightarrow>
     pullsLive env u cs h (xs @ ys) = pullsLive env u cs (h @ xs) ys"
proof (induction xs arbitrary: h)
  case Nil
  show ?case by simp
next
  case (Cons x xs)
  from Cons.prems have x: "pulled x = None" and xs: "List.map_filter pulled xs = []"
    by (auto simp: mf split: option.splits)
  from x have "pullsLive env u cs h ((x # xs) @ ys) = pullsLive env u cs (h @ [x]) (xs @ ys)"
    by (cases x) simp_all
  with Cons.IH [OF xs] show ?case by simp
qed

lemma pullsLive_item:
  "pullsLive env u (c # cs) h (itemCalls cfg env u c h @ ys)
     = pullsLive env u cs (h @ itemCalls cfg env u c h) ys"
  by (simp add: itemCalls_def Let_def)

lemma pullsLive_settlement:
  "pullsLive env u cs h (settlementCalls cfg env u cs h @ ys)
     = pullsLive env u [] (h @ settlementCalls cfg env u cs h) ys"
proof (induction cs arbitrary: h)
  case Nil
  show ?case by simp
next
  case (Cons c cs)
  show ?case by (simp add: pullsLive_item Cons.IH)
qed

lemma pullsLive_none:
  "List.map_filter pulled xs = [] \<Longrightarrow> pullsLive env u [] h xs"
  using pullsLive_skip [of xs env u "[]" h "[]"] by simp

lemma leg_neg:
  assumes "flashLoanOrSwap cfg env (borrowData d) (step d) d w = Inr w'"
  shows "isFlashLoan (borrowData d ! step d) \<or> borrowAmount (borrowData d ! step d) \<noteq> 2 ^ 255"
  using assms
  by (auto simp: flashLoanOrSwap.simps Let_def checked_neg_def split: if_splits)

lemma leg_reaches:
  assumes "flashLoanOrSwap cfg env (borrowData d) (step d) d w = Inr w'"
  shows "reachesRepayment cfg env d w \<and> repayCode cfg env d w = 0"
proof -
  let ?b = "borrowData d ! step d"
  from leg_Inr [OF assms] obtain T :: uint256 where
    g: "inMigration w = 1" and k: "step d < length (borrowData d)" and
    T: "unat T = unat (totalBaseToBorrow d) + legNat env ?b" and
    c: "repayBorrowBehalf env (borrowCToken ?b) (user d) (borrowAmount ?b)
          (calls w @ [acquireCall cfg env ?b d, hd (repayCalls env (user d) ?b)]) = 0"
    by auto
  have "unat T < 2 ^ 256" using unsigned_less [of T] by simp
  with T have nov: "unat (totalBaseToBorrow d) + legNat env ?b < 2 ^ 256" by simp
  from leg_exact [OF assms] have ac: "accepted env (calls w) (acquireCall cfg env ?b d # repayCalls env (user d) ?b)"
    by blast
  have r1: "\<not> reverts env (acquireCall cfg env ?b d) (calls w)"
    using ac by (simp add: acquireCall_def split: if_splits)
  from ac have "accepted env (calls w @ [acquireCall cfg env ?b d]) (repayCalls env (user d) ?b)"
    by simp
  then have r2: "\<not> reverts env (hd (repayCalls env (user d) ?b)) (calls w @ [acquireCall cfg env ?b d])"
    and r3: "\<not> reverts env (last (repayCalls env (user d) ?b))
         (calls w @ [acquireCall cfg env ?b d, hd (repayCalls env (user d) ?b)])"
    by (simp_all add: repayCalls_def)
  from g k nov leg_neg [OF assms] r1 r2 r3 c show ?thesis
    by (simp add: reachesRepayment_def repayCode_def)
qed

lemma envL_sel:
  "underlying envL = (\<lambda>c. c + 10)" "token0 envL = (\<lambda>p. p - 10)" "token1 envL = (\<lambda>p. 51 - p)"
  "borrowBalanceCurrent envL = (\<lambda>c a h. 1000 - repaidTo c h)"
  "repayBorrowBehalf envL = (\<lambda>c b a h. 0)"
  "balanceOf envL = (\<lambda>t a h. if a = 7 then 500 - pulledOf t h else heldOf h)"
  "transferFrom envL = (\<lambda>c f t a h. True)"
  "transfer envL = (\<lambda>t r a h. True)" "redeem envL = (\<lambda>c a h. 0)" "balance envL = (\<lambda>a h. 0)"
  "send envL = (\<lambda>r a h. True)"
  "flashFees envL = (\<lambda>p a0 a1. if p = 30 then (3, 3) else (2, 2))"
  "swapDeltas envL = (\<lambda>p z a l. (a, 500))" "reverts envL = (\<lambda>c h. False)"
  "poolRejects envL = (\<lambda>p h. False)"
  by (simp_all add: envL_def envD_def env0_def)

lemma envF_sel:
  "underlying envF = (\<lambda>c. c + 10)" "token0 envF = (\<lambda>p. p - 10)" "token1 envF = (\<lambda>p. 51 - p)"
  "borrowBalanceCurrent envF = (\<lambda>c a h. 1000 - repaidTo c h)"
  "repayBorrowBehalf envF = (\<lambda>c b a h. 0)"
  "balanceOf envF = (\<lambda>t a h. if a = 7 then 500 - pulledOf t h else heldOf h)"
  "transferFrom envF = (\<lambda>c f t a h. a \<le> 250)"
  "transfer envF = (\<lambda>t r a h. True)" "redeem envF = (\<lambda>c a h. 0)" "balance envF = (\<lambda>a h. 0)"
  "send envF = (\<lambda>r a h. True)"
  "flashFees envF = (\<lambda>p a0 a1. if p = 30 then (3, 3) else (2, 2))"
  "swapDeltas envF = (\<lambda>p z a l. (a, 500))" "reverts envF = (\<lambda>c h. False)"
  "poolRejects envF = (\<lambda>p h. False)"
  by (simp_all add: envF_def envL_def envD_def env0_def)

lemma scenarioL_run: "migrate cfg0 envL 7 collL planD 20 w0 = Inr wL"
  by (simp add: run_simps envL_sel cfg0_def w0_def planD_def collL_def dataL_def wL_def
        MAX_UINT256_def repaidTo_def pulledOf_def heldOf_def mf)

lemma scenarioF_run: "migrate cfg0 envF 7 collL planD 20 w0 = Inl CTokenTransferFailure"
  by (simp add: run_simps envF_sel cfg0_def w0_def planD_def collL_def dataL_def
        MAX_UINT256_def repaidTo_def pulledOf_def heldOf_def mf)


section \<open>The claims\<close>

text \<open>
  C1. A call of \<open>migrate\<close> as a transaction has one of two outcomes. Either it fails,
  and the state is the state before it. Or it succeeds, and then the guard is as before and
  the calls it has added are exactly those of a complete migration
  (\<open>migrationCalls\<close>): the reads of the borrow balances; for every entry of the plan,
  in order, the acquisition, the approval and the repayment on behalf of the caller of the
  amount resolved at entry; for every collateral item, in order, its transfer from the
  caller, the redemption of what the contract then holds, the wrapping of native currency,
  the approval and the supply of what the contract then holds to the target protocol for the
  caller; the withdrawal of the settlement total from the target protocol and the event; and
  the transfers back to the pools. Every one of these calls was accepted by the contract it
  went to (\<open>accepted\<close>): none reverted, every repayment and every redemption returned
  the code 0, every transfer of collateral returned true, and every pool found itself repaid.
\<close>

theorem migrate_atomic:
  assumes "transact (migrate cfg env u cs bds base) w = (w', r)"
  shows "(\<exists>e. r = Some e \<and> w' = w)
    \<or> (r = None \<and> inMigration w' = inMigration w
        \<and> calls w' = calls w @ migrationCalls cfg env u cs bds base (calls w)
        \<and> accepted env (calls w) (newCalls w w')
        \<and> List.map_filter repaid (newCalls w w')
            = map (\<lambda>b. (borrowCToken b, u, borrowAmount b)) (resolvedPlan env u bds (calls w))
        \<and> map (\<lambda>(c, f, t, a). (c, f, t)) (List.map_filter pulled (newCalls w w'))
            = map (\<lambda>c. (cToken c, u, this cfg)) cs
        \<and> List.map_filter supplied (newCalls w w')
            = map (\<lambda>c. (comet cfg, u, collateralUnderlying cfg env c)) cs
        \<and> (\<exists>T. List.map_filter withdrawn (newCalls w w') = [(comet cfg, u, this cfg, base, T)]
              \<and> unat T = sum_list (map (legNat env) (resolvedPlan env u bds (calls w)))))"
proof (cases "migrate cfg env u cs bds base w")
  case (Inl e)
  with assms have "r = Some e" "w' = w" by (simp_all add: transact_def)
  then show ?thesis by blast
next
  case (Inr w2)
  with assms have w2: "w2 = w'" and rn: "r = None" by (simp_all add: transact_def)
  note run = Inr [unfolded w2]
  from migrate_trace [OF run] have
    tr: "calls w' = calls w @ migrationCalls cfg env u cs bds base (calls w)" and
    ac: "accepted env (calls w) (migrationCalls cfg env u cs bds base (calls w))"
    by simp_all
  from migrate_success [OF run] obtain bd w1 pre S and T :: uint256 where
    g: "inMigration w = 0" "inMigration w' = 0" and
    r: "resolveBorrowAmounts env u bds (w\<lparr>inMigration := 1\<rparr>) = Inr (bd, w1)" and
    c: "calls w' = calls w @ pre @ S @ map (\<lambda>(t, p, a). Transfer t p a) (paybacks env bd)" and
    p: "List.map_filter repaid pre = map (\<lambda>b. (borrowCToken b, u, borrowAmount b)) bd"
       "List.map_filter pulled pre = []" "List.map_filter supplied pre = []"
       "List.map_filter withdrawn pre = []" and
    s: "map (\<lambda>(c, f, t, a). (c, f, t)) (List.map_filter pulled S)
          = map (\<lambda>c. (cToken c, u, this cfg)) cs"
       "List.map_filter supplied S = map (\<lambda>c. (comet cfg, u, collateralUnderlying cfg env c)) cs"
       "List.map_filter repaid S = []"
       "List.map_filter withdrawn S = [(comet cfg, u, this cfg, base, T)]" and
    T: "unat T = sum_list (map (legNat env) bd)"
    by blast
  from resolve_exact [OF r] have bd: "bd = resolvedPlan env u bds (calls w)" by simp
  have n: "newCalls w w' = pre @ S @ map (\<lambda>(t, p, a). Transfer t p a) (paybacks env bd)"
    using c by (simp add: newCalls_def)
  have n': "newCalls w w' = migrationCalls cfg env u cs bds base (calls w)"
    using tr by (simp add: newCalls_def)
  have 1: "accepted env (calls w) (newCalls w w')"
    using ac by (simp add: n')
  have 2: "List.map_filter repaid (newCalls w w')
            = map (\<lambda>b. (borrowCToken b, u, borrowAmount b)) (resolvedPlan env u bds (calls w))"
    using p s by (simp add: n map_filter_append paybacks_facts bd)
  have 3: "map (\<lambda>(c, f, t, a). (c, f, t)) (List.map_filter pulled (newCalls w w'))
            = map (\<lambda>c. (cToken c, u, this cfg)) cs"
    using p s by (simp add: n map_filter_append paybacks_facts)
  have 4: "List.map_filter supplied (newCalls w w')
            = map (\<lambda>c. (comet cfg, u, collateralUnderlying cfg env c)) cs"
    using p s by (simp add: n map_filter_append paybacks_facts)
  have 5: "List.map_filter withdrawn (newCalls w w') = [(comet cfg, u, this cfg, base, T)]"
    using p s by (simp add: n map_filter_append paybacks_facts)
  have 6: "unat T = sum_list (map (legNat env) (resolvedPlan env u bds (calls w)))"
    using T by (simp add: bd)
  from rn g tr 1 2 3 4 5 6 show ?thesis by auto
qed

theorem migrate_atomic_witness:
  "transact (migrate cfg0 envL 7 collL planD 20) w0 = (wL, None)
   \<and> borrowAmount (planD ! 1) = MAX_UINT256
   \<and> resolvedPlan envL 7 planD (calls w0) = borrowData (dataL 0 0)
   \<and> migrationCalls cfg0 envL 7 collL planD 20 (calls w0) = calls wL
   \<and> accepted envL (calls w0) (calls wL)
   \<and> List.map_filter repaid (calls wL) = [(10, 7, 400), (10, 7, 1000)]
   \<and> List.map_filter pulled (calls wL) = [(12, 7, 104, 200), (12, 7, 104, 300)]
   \<and> List.map_filter supplied (calls wL) = [(100, 7, 22), (100, 7, 22)]
   \<and> List.map_filter withdrawn (calls wL) = [(100, 7, 104, 20, 1405)]
   \<and> transact (migrate cfg0 envF 7 collL planD 20) w0 = (w0, Some CTokenTransferFailure)"
proof -
  have a: "transact (migrate cfg0 envL 7 collL planD 20) w0 = (wL, None)"
    by (simp add: transact_def scenarioL_run)
  have b: "transact (migrate cfg0 envF 7 collL planD 20) w0 = (w0, Some CTokenTransferFailure)"
    by (simp add: transact_def scenarioF_run)
  have n: "newCalls w0 wL = calls wL" by (simp add: newCalls_def w0_def)
  have e: "calls w0 = []" by (simp add: w0_def)
  from migrate_atomic [OF a] have
    t: "calls wL = calls w0 @ migrationCalls cfg0 envL 7 collL planD 20 (calls w0)" and
    ac0: "accepted envL (calls w0) (newCalls w0 wL)"
    by simp_all
  from t have m: "migrationCalls cfg0 envL 7 collL planD 20 (calls w0) = calls wL"
    by (simp add: e)
  from ac0 have ac: "accepted envL (calls w0) (calls wL)"
    by (simp only: n)
  have rp: "resolvedPlan envL 7 planD (calls w0) = borrowData (dataL 0 0)"
    by (simp add: planD_def dataL_def envL_sel repaidTo_def mf e MAX_UINT256_def)
  have pr: "List.map_filter repaid (calls wL) = [(10, 7, 400), (10, 7, 1000)]"
    "List.map_filter pulled (calls wL) = [(12, 7, 104, 200), (12, 7, 104, 300)]"
    "List.map_filter supplied (calls wL) = [(100, 7, 22), (100, 7, 22)]"
    "List.map_filter withdrawn (calls wL) = [(100, 7, 104, 20, 1405)]"
    by (simp_all add: wL_def mf)
  have s: "borrowAmount (planD ! 1) = MAX_UINT256" by (simp add: planD_def)
  from a b m ac rp pr s migrate_atomic [OF b] show ?thesis by simp
qed

text \<open>
  C2. A call of \<open>migrate\<close> made while the guard is not 0 fails with \<open>Reentrancy(0)\<close>
  and changes nothing; a call made while the guard is 0 leaves the guard at 0, whether it
  succeeds or fails. The other entry points keep the guard at 0 as well: \<open>sweep\<close> does
  not write it, and a callback entered while the guard is 0 fails.
\<close>

theorem guard_discipline:
  "(inMigration w \<noteq> 0 \<longrightarrow>
      transact (migrate cfg env u cs bds base) w = (w, Some (Reentrancy 0)))
   \<and> (inMigration w = 0 \<longrightarrow>
      inMigration (fst (transact (migrate cfg env u cs bds base) w)) = 0
    \<and> inMigration (fst (transact (sweep cfg env token) w)) = 0
    \<and> transact (uniswapV3FlashCallback cfg env s f0 f1 d) w = (w, Some (Reentrancy 1))
    \<and> transact (uniswapV3SwapCallback cfg env s d0 d1 d) w = (w, Some (Reentrancy 1)))"
proof (intro conjI impI)
  assume "inMigration w \<noteq> 0"
  then show "transact (migrate cfg env u cs bds base) w = (w, Some (Reentrancy 0))"
    by (simp add: transact_def migrate_def)
next
  assume g: "inMigration w = 0"
  show "inMigration (fst (transact (migrate cfg env u cs bds base) w)) = 0"
  proof (cases "migrate cfg env u cs bds base w")
    case (Inl e)
    with g show ?thesis by (simp add: transact_def)
  next
    case (Inr w')
    from migrate_success [OF Inr] have "inMigration w' = 0" by blast
    with Inr show ?thesis by (simp add: transact_def)
  qed
  from g show "inMigration (fst (transact (sweep cfg env token) w)) = 0"
    by (simp add: transact_def sweep_def ext_def)
  from g show "transact (uniswapV3FlashCallback cfg env s f0 f1 d) w = (w, Some (Reentrancy 1))"
    by (simp add: transact_def uniswapV3FlashCallback.simps)
  from g show "transact (uniswapV3SwapCallback cfg env s d0 d1 d) w = (w, Some (Reentrancy 1))"
    by (simp add: transact_def uniswapV3SwapCallback.simps)
qed

theorem guard_discipline_witness:
  "inMigration wEngaged \<noteq> 0
   \<and> transact (migrate cfg0 env0 7 collA planB 21) wEngaged = (wEngaged, Some (Reentrancy 0))
   \<and> inMigration w0 = 0
   \<and> transact (migrate cfg0 env0 7 collA planB 21) w0 = (wB, None)
   \<and> inMigration wB = 0
   \<and> transact (migrate cfg0 env7 7 collA planB 21) w0 = (w0, Some (CompoundV2Error 0 7))
   \<and> inMigration (fst (transact (migrate cfg0 env7 7 collA planB 21) w0)) = 0"
proof -
  have a: "transact (migrate cfg0 env0 7 collA planB 21) w0 = (wB, None)"
    by (simp add: transact_def scenarioB_run)
  have b: "transact (migrate cfg0 env7 7 collA planB 21) w0 = (w0, Some (CompoundV2Error 0 7))"
    by (simp add: transact_def run_simps env7_sel cfg0_def w0_def planB_def collA_def dataB_def
          MAX_UINT256_def)
  from guard_discipline [of wEngaged cfg0 env0 7 collA planB 21]
    guard_discipline [of w0 cfg0 env0 7 collA planB 21]
    guard_discipline [of w0 cfg0 env7 7 collA planB 21] a b
  show ?thesis by (simp add: wEngaged_def w0_def)
qed

text \<open>
  C3, as amended. A successful \<open>migrate\<close> makes exactly one withdrawal from the target
  protocol, of the base token, on behalf of the caller and to the contract, and its amount is
  the sum over the plan, with the amounts resolved at entry, of what each step owes to its
  pool: the repay amount plus the fee the pool quotes for a flash loan, and the amount of the
  other token the pool asks for a flash swap (\<open>legNat\<close>). The sum does not overflow. For
  the plan of two flash loans of 1000 and 400 with fees 3 and 2 the amount is 1405.
\<close>

theorem settlement_total:
  assumes "migrate cfg env u cs bds base w = Inr w'"
  shows "\<exists>bd w1 T.
      resolveBorrowAmounts env u bds (w\<lparr>inMigration := 1\<rparr>) = Inr (bd, w1)
    \<and> List.map_filter withdrawn (newCalls w w') = [(comet cfg, u, this cfg, base, T)]
    \<and> unat T = sum_list (map (legNat env) bd)"
proof -
  from migrate_success [OF assms] obtain bd w1 pre S T where
    r: "resolveBorrowAmounts env u bds (w\<lparr>inMigration := 1\<rparr>) = Inr (bd, w1)" and
    c: "calls w' = calls w @ pre @ S @ map (\<lambda>(t, p, a). Transfer t p a) (paybacks env bd)" and
    f: "List.map_filter withdrawn pre = []"
       "List.map_filter withdrawn S = [(comet cfg, u, this cfg, base, T)]" and
    T: "unat T = sum_list (map (legNat env) bd)"
    by blast
  from c f have "List.map_filter withdrawn (newCalls w w') = [(comet cfg, u, this cfg, base, T)]"
    by (simp add: newCalls_def map_filter_append paybacks_facts)
  with r T show ?thesis by blast
qed

theorem settlement_total_witness:
  "migrate cfg0 env0 7 collA planB 21 w0 = Inr wB
   \<and> List.map_filter withdrawn (newCalls w0 wB) = [(100, 7, 104, 21, 1405)]
   \<and> sum_list (map (legNat env0) planB) = 1000 + 3 + 400 + 2"
  using settlement_total [OF scenarioB_run] scenarioB_run
  by (auto simp: newCalls_def w0_def wB_def mf planB_def legNat_def flashFee_def isPoolToken0_def
        env0_sel dest: unat_1405)

text \<open>
  C3 as stated fails on a plan with a flash swap: for a debt of 1000 that the pool swaps
  against 500 of the base token, 500 is withdrawn, which is less than the repay amount alone.
\<close>

theorem settlement_total_counterexample:
  "migrate cfg0 env0 7 [] planS 21 w0 = Inr wS
   \<and> List.map_filter withdrawn (newCalls w0 wS) = [(100, 7, 104, 21, 500)]
   \<and> unat (500 :: uint256) < sum_list (map (\<lambda>b. unat (borrowAmount b)) planS)"
  by (simp add: run_simps env0_sel cfg0_def w0_def planS_def wS_def dataS_def MAX_UINT256_def
        MIN_SQRT_RATIO_def MAX_SQRT_RATIO_def newCalls_def mf)

text \<open>
  C4, as amended. The amount of a borrow entry that asks for \<open>type(uint256).max\<close> is
  read once, by the loop at the entry of \<open>migrate\<close>, before any liquidity is acquired:
  the reads are the first calls of the migration, entry \<open>i\<close> gets the borrow balance
  the market answers after the reads of the entries before it, and this is the amount repaid
  at its step. The amount of a collateral item that asks for \<open>type(uint256).max\<close> is
  read once, when the settlement reaches the item: the transfers of collateral that a
  migration, or a settlement, makes are one for each item, in order, and the amount of each is
  the amount asked or, where the item asks for \<open>type(uint256).max\<close>, the balance of
  the user after exactly the calls made before that transfer (\<open>pullsLive\<close>).
\<close>

theorem resolution_timing:
  "(migrate cfg env u cs bds base w = Inr w' \<longrightarrow>
      (\<exists>bd w1.
          resolveBorrowAmounts env u bds (w\<lparr>inMigration := 1\<rparr>) = Inr (bd, w1)
        \<and> length bd = length bds
        \<and> (\<forall>i<length bds. bd ! i = (bds ! i)\<lparr>borrowAmount :=
              if borrowAmount (bds ! i) = MAX_UINT256
              then borrowBalanceCurrent env (borrowCToken (bds ! i)) u
                     (calls w @ resolutionCalls u (take i bds))
              else borrowAmount (bds ! i)\<rparr>)
        \<and> take (length (resolutionCalls u bds)) (newCalls w w') = resolutionCalls u bds
        \<and> List.map_filter resolved (newCalls w w')
            = map (\<lambda>b. (borrowCToken b, u)) (filter (\<lambda>b. borrowAmount b = MAX_UINT256) bds)
        \<and> List.map_filter repaid (newCalls w w')
            = map (\<lambda>b. (borrowCToken b, u, borrowAmount b)) bd)
    \<and> pullsLive env u cs (calls w) (newCalls w w'))
   \<and> (migrateCollateralAndBorrow cfg env d T v = Inr v' \<longrightarrow>
        pullsLive env (user d) (collateral d) (calls v) (newCalls v v'))"
proof (intro conjI impI)
  assume a: "migrate cfg env u cs bds base w = Inr w'"
  from migrate_success [OF a] obtain bd w1 pre S T where
    r: "resolveBorrowAmounts env u bds (w\<lparr>inMigration := 1\<rparr>) = Inr (bd, w1)" and
    c: "calls w' = calls w @ pre @ S @ map (\<lambda>(t, p, a). Transfer t p a) (paybacks env bd)" and
    p: "List.map_filter resolved pre
          = map (\<lambda>b. (borrowCToken b, u)) (filter (\<lambda>b. borrowAmount b = MAX_UINT256) bds)"
       "List.map_filter repaid pre = map (\<lambda>b. (borrowCToken b, u, borrowAmount b)) bd"
       "List.map_filter repaid S = []" "List.map_filter resolved S = []"
    by blast
  from resolve_Inr [OF r] have
    l: "length bd = length bds" and
    n: "\<forall>i<length bds. bd ! i = (bds ! i)\<lparr>borrowAmount :=
              if borrowAmount (bds ! i) = MAX_UINT256
              then borrowBalanceCurrent env (borrowCToken (bds ! i)) u
                     (calls w @ resolutionCalls u (take i bds))
              else borrowAmount (bds ! i)\<rparr>"
    by simp_all
  from migrate_trace [OF a] have
    tr: "newCalls w w' = migrationCalls cfg env u cs bds base (calls w)"
    by (simp add: newCalls_def)
  have t: "take (length (resolutionCalls u bds)) (newCalls w w') = resolutionCalls u bds"
    unfolding tr by (simp add: migrationCalls_def Let_def)
  have "List.map_filter resolved (newCalls w w')
            = map (\<lambda>b. (borrowCToken b, u)) (filter (\<lambda>b. borrowAmount b = MAX_UINT256) bds)"
    "List.map_filter repaid (newCalls w w')
            = map (\<lambda>b. (borrowCToken b, u, borrowAmount b)) bd"
    using c p by (simp_all add: newCalls_def map_filter_append paybacks_facts)
  with r l n t show "\<exists>bd w1.
          resolveBorrowAmounts env u bds (w\<lparr>inMigration := 1\<rparr>) = Inr (bd, w1)
        \<and> length bd = length bds
        \<and> (\<forall>i<length bds. bd ! i = (bds ! i)\<lparr>borrowAmount :=
              if borrowAmount (bds ! i) = MAX_UINT256
              then borrowBalanceCurrent env (borrowCToken (bds ! i)) u
                     (calls w @ resolutionCalls u (take i bds))
              else borrowAmount (bds ! i)\<rparr>)
        \<and> take (length (resolutionCalls u bds)) (newCalls w w') = resolutionCalls u bds
        \<and> List.map_filter resolved (newCalls w w')
            = map (\<lambda>b. (borrowCToken b, u)) (filter (\<lambda>b. borrowAmount b = MAX_UINT256) bds)
        \<and> List.map_filter repaid (newCalls w w')
            = map (\<lambda>b. (borrowCToken b, u, borrowAmount b)) bd"
    by blast
  let ?bd = "resolvedPlan env u bds (calls w)"
  let ?RA = "resolutionCalls u bds @ chainCalls cfg env (initialData u ?bd cs base) (length ?bd)"
  have np: "List.map_filter pulled ?RA = []"
    by (simp add: map_filter_append resolutionCalls_facts chainCalls_facts)
  have rest: "pullsLive env u [] h
        ([WithdrawFrom (comet cfg) u (this cfg) base X, Migrated u cs 0 X]
         @ map (\<lambda>(t, p, a). Transfer t p a) xs)" for h X xs
    by (rule pullsLive_none) (simp add: mf paybacks_facts)
  have "pullsLive env u cs (calls w) (?RA @ settlementCalls cfg env u cs (calls w @ ?RA)
          @ [WithdrawFrom (comet cfg) u (this cfg) base (sum_list (map (legAmount env) ?bd)),
             Migrated u cs 0 (sum_list (map (legAmount env) ?bd))]
          @ map (\<lambda>(t, p, a). Transfer t p a) (paybacks env ?bd))"
    unfolding pullsLive_skip [OF np] pullsLive_settlement by (rule rest)
  then show "pullsLive env u cs (calls w) (newCalls w w')"
    unfolding tr by (simp add: migrationCalls_def Let_def)
next
  assume a: "migrateCollateralAndBorrow cfg env d T v = Inr v'"
  from settle_exact [OF a] have
    n: "newCalls v v' = settlementCalls cfg env (user d) (collateral d) (calls v)
          @ [WithdrawFrom (comet cfg) (user d) (this cfg) (baseToken d) T,
             Migrated (user d) (collateral d) 0 T]"
    by (simp add: newCalls_def)
  have "pullsLive env (user d) [] h
        [WithdrawFrom (comet cfg) (user d) (this cfg) (baseToken d) T,
         Migrated (user d) (collateral d) 0 T]" for h
    by simp
  then show "pullsLive env (user d) (collateral d) (calls v) (newCalls v v')"
    unfolding n pullsLive_settlement by simp
qed

theorem resolution_timing_witness:
  "migrate cfg0 envL 7 collL planD 20 w0 = Inr wL
   \<and> List.map_filter resolved (newCalls w0 wL) = [(10, 7)]
   \<and> take 1 (newCalls w0 wL) = [BorrowBalanceCurrent 10 7]
   \<and> List.map_filter repaid (newCalls w0 wL) = [(10, 7, 400), (10, 7, 1000)]
   \<and> pullsLive envL 7 collL (calls w0) (newCalls w0 wL)
   \<and> List.map_filter pulled (newCalls w0 wL) = [(12, 7, 104, 200), (12, 7, 104, 300)]
   \<and> amount (collL ! 1) = MAX_UINT256
   \<and> calls wL ! 11 = TransferFrom 12 7 104 300
   \<and> balanceOf envL 12 7 (take 11 (calls wL)) = 300
   \<and> balanceOf envL 12 7 (calls w0) = 500
   \<and> migrateCollateralAndBorrow cfg0 envL (dataL 1 403) 1405
        \<lparr>inMigration = 1, calls = take 7 (calls wL)\<rparr>
       = Inr \<lparr>inMigration = 1, calls = take 17 (calls wL)\<rparr>
   \<and> pullsLive envL 7 collL (take 7 (calls wL)) (drop 7 (take 17 (calls wL)))"
proof -
  have s: "migrateCollateralAndBorrow cfg0 envL (dataL 1 403) 1405
        \<lparr>inMigration = 1, calls = take 7 (calls wL)\<rparr>
       = Inr \<lparr>inMigration = 1, calls = take 17 (calls wL)\<rparr>"
    by (simp add: run_simps envL_sel cfg0_def collL_def dataL_def wL_def
        MAX_UINT256_def repaidTo_def pulledOf_def heldOf_def mf)
  have sel: "user (dataL 1 403) = 7" "collateral (dataL 1 403) = collL"
    by (simp_all add: dataL_def)
  have n: "newCalls \<lparr>inMigration = 1, calls = take 7 (calls wL)\<rparr>
             \<lparr>inMigration = 1, calls = take 17 (calls wL)\<rparr> = drop 7 (take 17 (calls wL))"
    by (simp add: newCalls_def wL_def)
  note T = resolution_timing [where cfg = cfg0 and env = envL and u = 7 and cs = collL
      and bds = planD and base = 20 and w = w0 and w' = wL
      and d = "dataL 1 403" and T = 1405
      and v = "\<lparr>inMigration = 1, calls = take 7 (calls wL)\<rparr>"
      and v' = "\<lparr>inMigration = 1, calls = take 17 (calls wL)\<rparr>"]
  from T scenarioL_run have 1: "pullsLive envL 7 collL (calls w0) (newCalls w0 wL)"
    by blast
  from T s have 2: "pullsLive envL 7 collL (take 7 (calls wL)) (drop 7 (take 17 (calls wL)))"
    unfolding n sel by simp
  have 3: "List.map_filter resolved (newCalls w0 wL) = [(10, 7)]"
    "take 1 (newCalls w0 wL) = [BorrowBalanceCurrent 10 7]"
    "List.map_filter repaid (newCalls w0 wL) = [(10, 7, 400), (10, 7, 1000)]"
    "List.map_filter pulled (newCalls w0 wL) = [(12, 7, 104, 200), (12, 7, 104, 300)]"
    "calls wL ! 11 = TransferFrom 12 7 104 300"
    by (simp_all add: newCalls_def w0_def wL_def mf)
  have 4: "amount (collL ! 1) = MAX_UINT256" by (simp add: collL_def)
  have 5: "balanceOf envL 12 7 (take 11 (calls wL)) = 300" "balanceOf envL 12 7 (calls w0) = 500"
    by (simp_all add: envL_sel wL_def w0_def pulledOf_def mf)
  from scenarioL_run s 1 2 3 4 5 show ?thesis by simp
qed

text \<open>
  C4 as stated fails for a borrow entry: with a debt of 1000 at entry, a first entry that
  repays 400 and a second entry on the same market that asks for the current balance, the
  second step repays 1000, the debt at entry, while the debt when the step runs is 600.
\<close>

theorem resolution_timing_counterexample:
  "migrate cfg0 envD 7 [] planD 21 w0 = Inr wD
   \<and> borrowAmount (planD ! 1) = MAX_UINT256
   \<and> calls wD ! 4 = Flash 31 104 0 1000 (dataD 1 403)
   \<and> calls wD ! 6 = RepayBorrowBehalf 10 7 1000
   \<and> borrowBalanceCurrent envD 10 7 (calls w0) = 1000
   \<and> borrowBalanceCurrent envD 10 7 (take 4 (calls wD)) = 600"
  using scenarioD_run
  by (simp add: planD_def wD_def w0_def envD_sel repaidTo_def mf)




text \<open>
  C6, as amended. The last call of a callback that returns is a transfer to the calling
  pool. In the flash-loan variant it is of the borrowed token and of the repay amount of the
  current entry plus the pool's fee for that token, a sum that does not overflow. In the
  flash-swap variant it is of the other token of the pool and of the amount of that token
  the pool asks for. Neither amount depends on the running total of the data.
\<close>

theorem payback_is_current_leg:
  "(uniswapV3FlashCallback cfg env s f0 f1 d w = Inr w' \<longrightarrow>
      s = pool (borrowData d ! step d)
    \<and> calls w' \<noteq> []
    \<and> last (calls w')
        = Transfer (underlying env (borrowCToken (borrowData d ! step d))) s
            (borrowAmount (borrowData d ! step d)
               + (if isPoolToken0 env (borrowData d ! step d) then f0 else f1))
    \<and> unat (borrowAmount (borrowData d ! step d)
               + (if isPoolToken0 env (borrowData d ! step d) then f0 else f1))
        = unat (borrowAmount (borrowData d ! step d))
            + unat (if isPoolToken0 env (borrowData d ! step d) then f0 else f1))
   \<and> (uniswapV3SwapCallback cfg env s d0 d1 d w = Inr w'' \<longrightarrow>
      s = pool (borrowData d ! step d)
    \<and> calls w'' \<noteq> []
    \<and> last (calls w'')
        = Transfer (if isPoolToken0 env (borrowData d ! step d) then token1 env s else token0 env s) s
            (if isPoolToken0 env (borrowData d ! step d) then d1 else d0))"
proof (intro conjI impI)
  assume a: "uniswapV3FlashCallback cfg env s f0 f1 d w = Inr w'"
  from flash_callback_Inr [OF a] obtain L T w3 where
    s: "s = pool (borrowData d ! step d)" and
    L: "checked_add (borrowAmount (borrowData d ! step d))
          (if isPoolToken0 env (borrowData d ! step d) then f0 else f1) = Inr L" and
    w': "w' = w3\<lparr>calls := calls w3 @
          [Transfer (underlying env (borrowCToken (borrowData d ! step d)))
             (pool (borrowData d ! step d)) L]\<rparr>"
    by blast
  from checked_add_Inr [OF L] have
    L1: "L = borrowAmount (borrowData d ! step d)
               + (if isPoolToken0 env (borrowData d ! step d) then f0 else f1)" and
    L2: "unat L = unat (borrowAmount (borrowData d ! step d))
            + unat (if isPoolToken0 env (borrowData d ! step d) then f0 else f1)"
    by blast+
  show "s = pool (borrowData d ! step d)" by (rule s)
  show "calls w' \<noteq> []" by (simp add: w')
  show "last (calls w')
        = Transfer (underlying env (borrowCToken (borrowData d ! step d))) s
            (borrowAmount (borrowData d ! step d)
               + (if isPoolToken0 env (borrowData d ! step d) then f0 else f1))"
    using L1 by (simp add: w' s)
  show "unat (borrowAmount (borrowData d ! step d)
               + (if isPoolToken0 env (borrowData d ! step d) then f0 else f1))
        = unat (borrowAmount (borrowData d ! step d))
            + unat (if isPoolToken0 env (borrowData d ! step d) then f0 else f1)"
    using L1 L2 by (simp split: if_splits)
next
  assume a: "uniswapV3SwapCallback cfg env s d0 d1 d w = Inr w''"
  from swap_callback_Inr [OF a] obtain T w3 where
    s: "s = pool (borrowData d ! step d)" and
    w': "w'' = w3\<lparr>calls := calls w3 @
          [Transfer (if isPoolToken0 env (borrowData d ! step d)
                     then token1 env (pool (borrowData d ! step d))
                     else token0 env (pool (borrowData d ! step d)))
             (pool (borrowData d ! step d))
             (if isPoolToken0 env (borrowData d ! step d) then d1 else d0)]\<rparr>"
    by blast
  show "s = pool (borrowData d ! step d)" by (rule s)
  show "calls w'' \<noteq> []" by (simp add: w')
  show "last (calls w'')
        = Transfer (if isPoolToken0 env (borrowData d ! step d) then token1 env s else token0 env s) s
            (if isPoolToken0 env (borrowData d ! step d) then d1 else d0)"
    by (simp add: w' s)
qed

theorem payback_is_current_leg_witness:
  "uniswapV3FlashCallback cfg0 env0 31 2 2 (dataB 1 1003) wMid
     = Inr (wMid\<lparr>calls := calls wMid @
              [Approve 21 11 MAX_UINT256, RepayBorrowBehalf 11 7 400,
               TransferFrom 12 7 104 500, Redeem 12 500,
               Approve 22 100 MAX_UINT256, SupplyTo 100 7 22 500,
               WithdrawFrom 100 7 104 21 1405, Migrated 7 collA 0 1405,
               Transfer 21 31 402]\<rparr>)
   \<and> totalBaseToBorrow (dataB 1 1003) = 1003
   \<and> unat (400 + 2 :: uint256) = unat (400 :: uint256) + unat (2 :: uint256)
   \<and> uniswapV3SwapCallback cfg0 env0 30 (- 1000) 500 dataS wEngaged
     = Inr \<lparr>inMigration = 1,
            calls = [Approve 20 10 MAX_UINT256, RepayBorrowBehalf 10 7 1000,
                     WithdrawFrom 100 7 104 21 500, Migrated 7 [] 0 500,
                     Transfer 21 30 500]\<rparr>"
  using payback_is_current_leg [of cfg0 env0 31 2 2 "dataB 1 1003" wMid _ "- 1000" 500 _]
    flash_leg_run swap_leg_run
  by (simp add: dataB_def)

text \<open>
  C6 as stated fails in the flash-swap variant: for a debt of 1000 swapped against 500 of the
  other token, 500 is transferred, which is less than the repay amount alone.
\<close>

theorem payback_is_current_leg_counterexample:
  "uniswapV3SwapCallback cfg0 env0 30 (- 1000) 500 dataS wEngaged
     = Inr \<lparr>inMigration = 1,
            calls = [Approve 20 10 MAX_UINT256, RepayBorrowBehalf 10 7 1000,
                     WithdrawFrom 100 7 104 21 500, Migrated 7 [] 0 500,
                     Transfer 21 30 500]\<rparr>
   \<and> borrowAmount (borrowData dataS ! step dataS) = 1000
   \<and> unat (500 :: uint256) < unat (1000 :: uint256)"
  by (simp add: run_simps env0_sel cfg0_def wEngaged_def planS_def dataS_def MAX_UINT256_def)

text \<open>
  C7, as amended. A step reaches its repayment when the guard is 1, the step is in range,
  no sum overflows and neither the pool's call nor the approval nor the repayment reverts.
  When the market then returns a code other than 0, the step fails with
  \<open>CompoundV2Error(0, code)\<close>: the location is 0 whatever the step, and the code is the
  market's. The failure is that of every step around it, which do not catch it: a step whose
  own repayment was accepted fails with the error of the next step, and \<open>migrate\<close>
  fails with the error of step 0.
\<close>

theorem repay_rejected:
  "(reachesRepayment cfg env d w \<longrightarrow> repayCode cfg env d w \<noteq> 0 \<longrightarrow>
      flashLoanOrSwap cfg env (borrowData d) (step d) d w
        = Inl (CompoundV2Error 0 (repayCode cfg env d w)))
   \<and> (reachesRepayment cfg env d w \<longrightarrow> repayCode cfg env d w = 0 \<longrightarrow>
      \<not> length (borrowData d) - 1 \<le> step d \<longrightarrow>
      flashLoanOrSwap cfg env (borrowData d) (step d + 1)
        (nextData d (totalBaseToBorrow d + legAmount env (borrowData d ! step d)))
        (afterRepayment cfg env d w) = Inl e \<longrightarrow>
      flashLoanOrSwap cfg env (borrowData d) (step d) d w = Inl e)
   \<and> (inMigration v = 0 \<longrightarrow>
      resolveBorrowAmounts env u bds (v\<lparr>inMigration := 1\<rparr>) = Inr (bd, v1) \<longrightarrow>
      flashLoanOrSwap cfg env bd 0 (initialData u bd cs base) v1 = Inl e \<longrightarrow>
      migrate cfg env u cs bds base v = Inl e)"
proof (intro conjI impI)
  assume r: "reachesRepayment cfg env d w" and c: "repayCode cfg env d w \<noteq> 0"
  from r have p:
    "inMigration w = 1" "step d < length (borrowData d)"
    "unat (totalBaseToBorrow d) + legNat env (borrowData d ! step d) < 2 ^ 256"
    "isFlashLoan (borrowData d ! step d) \<or> borrowAmount (borrowData d ! step d) \<noteq> 2 ^ 255"
    "\<not> reverts env (acquireCall cfg env (borrowData d ! step d) d) (calls w)"
    "\<not> reverts env (hd (repayCalls env (user d) (borrowData d ! step d)))
         (calls w @ [acquireCall cfg env (borrowData d ! step d) d])"
    "\<not> reverts env (RepayBorrowBehalf (borrowCToken (borrowData d ! step d)) (user d)
           (borrowAmount (borrowData d ! step d)))
         (calls w @ [acquireCall cfg env (borrowData d ! step d) d,
                     hd (repayCalls env (user d) (borrowData d ! step d))])"
    by (simp_all add: reachesRepayment_def repayCalls_def)
  from c show "flashLoanOrSwap cfg env (borrowData d) (step d) d w
        = Inl (CompoundV2Error 0 (repayCode cfg env d w))"
    by (simp add: leg_unfold [OF p(1) p(2) refl p(3) p(4) p(5) p(6) p(7)] repayCode_def)
next
  assume r: "reachesRepayment cfg env d w" and c: "repayCode cfg env d w = 0"
    and nl: "\<not> length (borrowData d) - 1 \<le> step d"
    and n: "flashLoanOrSwap cfg env (borrowData d) (step d + 1)
        (nextData d (totalBaseToBorrow d + legAmount env (borrowData d ! step d)))
        (afterRepayment cfg env d w) = Inl e"
  from r have p:
    "inMigration w = 1" "step d < length (borrowData d)"
    "unat (totalBaseToBorrow d) + legNat env (borrowData d ! step d) < 2 ^ 256"
    "isFlashLoan (borrowData d ! step d) \<or> borrowAmount (borrowData d ! step d) \<noteq> 2 ^ 255"
    "\<not> reverts env (acquireCall cfg env (borrowData d ! step d) d) (calls w)"
    "\<not> reverts env (hd (repayCalls env (user d) (borrowData d ! step d)))
         (calls w @ [acquireCall cfg env (borrowData d ! step d) d])"
    "\<not> reverts env (RepayBorrowBehalf (borrowCToken (borrowData d ! step d)) (user d)
           (borrowAmount (borrowData d ! step d)))
         (calls w @ [acquireCall cfg env (borrowData d ! step d) d,
                     hd (repayCalls env (user d) (borrowData d ! step d))])"
    by (simp_all add: reachesRepayment_def repayCalls_def)
  from c nl n show "flashLoanOrSwap cfg env (borrowData d) (step d) d w = Inl e"
    by (simp add: leg_unfold [OF p(1) p(2) refl p(3) p(4) p(5) p(6) p(7)] repayCode_def
          afterRepayment_def)
next
  assume "inMigration v = 0"
    and "resolveBorrowAmounts env u bds (v\<lparr>inMigration := 1\<rparr>) = Inr (bd, v1)"
    and "flashLoanOrSwap cfg env bd 0 (initialData u bd cs base) v1 = Inl e"
  then show "migrate cfg env u cs bds base v = Inl e"
    by (simp add: migrate_def checked_add_def initialData_def)
qed

theorem repay_rejected_witness:
  "reachesRepayment cfg0 env7 (dataB 1 1003) wPre1
   \<and> repayCode cfg0 env7 (dataB 1 1003) wPre1 = 7
   \<and> flashLoanOrSwap cfg0 env7 planB 1 (dataB 1 1003) wPre1 = Inl (CompoundV2Error 0 7)
   \<and> reachesRepayment cfg0 env7 (dataB 0 0) wEngaged
   \<and> repayCode cfg0 env7 (dataB 0 0) wEngaged = 0
   \<and> flashLoanOrSwap cfg0 env7 planB 0 (dataB 0 0) wEngaged = Inl (CompoundV2Error 0 7)
   \<and> migrate cfg0 env7 7 collA planB 21 w0 = Inl (CompoundV2Error 0 7)"
proof -
  have sel: "borrowData (dataB k t) = planB" "step (dataB k t) = k" "user (dataB k t) = 7"
    "totalBaseToBorrow (dataB k t) = t" for k t
    by (simp_all add: dataB_def)
  have r1: "reachesRepayment cfg0 env7 (dataB 1 1003) wPre1"
    by (simp add: reachesRepayment_def sel env7_sel wPre1_def planB_def legNat_def flashFee_def
          isPoolToken0_def)
  have c1: "repayCode cfg0 env7 (dataB 1 1003) wPre1 = 7"
    by (simp add: repayCode_def sel env7_sel planB_def)
  have r0: "reachesRepayment cfg0 env7 (dataB 0 0) wEngaged"
    by (simp add: reachesRepayment_def sel env7_sel wEngaged_def planB_def legNat_def flashFee_def
          isPoolToken0_def)
  have c0: "repayCode cfg0 env7 (dataB 0 0) wEngaged = 0"
    by (simp add: repayCode_def sel env7_sel planB_def)
  have nd: "nextData (dataB 0 0) (totalBaseToBorrow (dataB 0 0) + legAmount env7 (borrowData (dataB 0 0) ! step (dataB 0 0)))
      = dataB 1 1003"
    by (simp add: nextData_def dataB_def planB_def legAmount_def flashFee_def isPoolToken0_def
          env7_sel)
  have ar: "afterRepayment cfg0 env7 (dataB 0 0) wEngaged = wPre1"
    by (simp add: afterRepayment_def sel wEngaged_def wPre1_def acquireCall_def repayCalls_def
          isPoolToken0_def env7_sel cfg0_def planB_def)
  have nl: "\<not> length (borrowData (dataB 0 0)) - 1 \<le> step (dataB 0 0)"
    by (simp add: sel planB_def)
  have rs: "resolveBorrowAmounts env7 7 planB (w0\<lparr>inMigration := 1\<rparr>) = Inr (planB, wEngaged)"
    by (simp add: planB_def MAX_UINT256_def w0_def wEngaged_def)
  have id: "initialData 7 planB collA 21 = dataB 0 0"
    by (simp add: initialData_def dataB_def)
  note T1 = repay_rejected [of cfg0 env7 "dataB 1 1003" wPre1]
  from T1 r1 c1 have f1: "flashLoanOrSwap cfg0 env7 planB 1 (dataB 1 1003) wPre1
      = Inl (CompoundV2Error 0 7)"
    by (simp add: sel)
  note T0 = repay_rejected [of cfg0 env7 "dataB 0 0" wEngaged "CompoundV2Error 0 7"
      w0 7 planB planB wEngaged collA 21]
  from T0 r0 c0 nl f1 have f0: "flashLoanOrSwap cfg0 env7 planB 0 (dataB 0 0) wEngaged
      = Inl (CompoundV2Error 0 7)"
    unfolding nd ar by (simp add: sel)
  from T0 rs f0 have m: "migrate cfg0 env7 7 collA planB 21 w0 = Inl (CompoundV2Error 0 7)"
    unfolding id by (simp add: w0_def)
  from r1 c1 f1 r0 c0 f0 m show ?thesis by simp
qed

text \<open>
  C7 as stated fails at a step other than the first: when the market of the second entry
  (step 1) returns the code 7, \<open>migrate\<close> fails with \<open>CompoundV2Error(0, 7)\<close>, which
  does not carry the step.
\<close>

theorem repay_rejected_counterexample:
  "migrate cfg0 env7 7 collA planB 21 w0 = Inl (CompoundV2Error 0 7)
   \<and> repayBorrowBehalf env7 (borrowCToken (planB ! 0)) 7 (borrowAmount (planB ! 0)) [] = 0
   \<and> repayBorrowBehalf env7 (borrowCToken (planB ! 1)) 7 (borrowAmount (planB ! 1)) [] = 7
   \<and> CompoundV2Error 0 7 \<noteq> CompoundV2Error 1 7"
  by (simp add: run_simps env7_sel cfg0_def w0_def planB_def collA_def dataB_def MAX_UINT256_def)

text \<open>
  C8. In a successful \<open>migrate\<close>, with \<open>bd\<close> the plan with the amounts resolved
  at entry, the calls made are the reads of the borrow balances, then the steps, then the
  settlement, then the transfers back to the pools. Among the steps the acquisitions and the
  repayments alternate in plan order: for \<open>i\<close> from 0 to the length of the plan less
  one, an acquisition that carries the step \<open>i\<close>, is made at the pool of entry
  \<open>i\<close>, in the mode of entry \<open>i\<close> and for the amount of entry \<open>i\<close>,
  and then the repayment of that amount to the market of entry \<open>i\<close>; no collateral
  is transferred or supplied and nothing is withdrawn among them. The settlement transfers
  every collateral item and makes the one withdrawal, and neither it nor what follows
  acquires or repays; the pools are paid back in the reverse of the plan order. Whatever the
  outcome, a step that does not reach its repayment, or whose repayment is rejected, fails;
  every other step continues with the settlement when it is the last of the plan, and with
  the step of the next index on the same plan otherwise, and then pays its pool back; and
  \<open>migrate\<close>, once it has resolved the plan, enters the steps at step 0 with a total
  of 0.
\<close>

theorem steps_in_plan_order:
  "(migrate cfg env u cs bds base w = Inr w' \<longrightarrow>
      (\<exists>bd A S.
          bd = resolvedPlan env u bds (calls w) \<and> length bd = length bds
        \<and> newCalls w w' = resolutionCalls u bds @ A @ S
                             @ map (\<lambda>(t, p, a). Transfer t p a) (paybacks env bd)
        \<and> List.map_filter chainEvent A
            = concat (map (\<lambda>i. [Acquire i (pool (bd ! i)) (isFlashLoan (bd ! i))
                                   (borrowAmount (bd ! i)),
                                 Repay (borrowCToken (bd ! i)) u (borrowAmount (bd ! i))])
                [0..<length bds])
        \<and> List.map_filter acquiredStep A = [0..<length bds]
        \<and> List.map_filter pulled A = [] \<and> List.map_filter supplied A = []
        \<and> List.map_filter withdrawn A = []
        \<and> map (\<lambda>(c, f, t, a). (c, f, t)) (List.map_filter pulled S)
            = map (\<lambda>c. (cToken c, u, this cfg)) cs
        \<and> length (List.map_filter withdrawn S) = 1
        \<and> List.map_filter chainEvent S = []
        \<and> List.map_filter chainEvent (resolutionCalls u bds) = []
        \<and> List.map_filter chainEvent (map (\<lambda>(t, p, a). Transfer t p a) (paybacks env bd)) = []
        \<and> List.map_filter paidBack (newCalls w w')
            = rev (map (\<lambda>b. (repayToken env b, pool b, legAmount env b)) bd)))
   \<and> (\<not> (reachesRepayment cfg env d v \<and> repayCode cfg env d v = 0) \<longrightarrow>
        isl (flashLoanOrSwap cfg env (borrowData d) (step d) d v))
   \<and> (reachesRepayment cfg env d v \<and> repayCode cfg env d v = 0 \<longrightarrow>
        flashLoanOrSwap cfg env (borrowData d) (step d) d v
          = (case (if length (borrowData d) - 1 \<le> step d
                   then migrateCollateralAndBorrow cfg env d
                          (totalBaseToBorrow d + legAmount env (borrowData d ! step d))
                          (afterRepayment cfg env d v)
                   else flashLoanOrSwap cfg env (borrowData d) (step d + 1)
                          (nextData d (totalBaseToBorrow d + legAmount env (borrowData d ! step d)))
                          (afterRepayment cfg env d v)) of
               Inl e \<Rightarrow> Inl e
             | Inr w3 \<Rightarrow>
                (case ext env (Transfer (repayToken env (borrowData d ! step d))
                                 (pool (borrowData d ! step d))
                                 (legAmount env (borrowData d ! step d))) w3 of
                   Inl e \<Rightarrow> Inl e
                 | Inr w5 \<Rightarrow> if poolRejects env (pool (borrowData d ! step d)) (calls w5)
                              then Inl ExternalRevert else Inr w5)))
   \<and> (inMigration v0 = 0 \<longrightarrow>
        resolveBorrowAmounts env u bds (v0\<lparr>inMigration := 1\<rparr>) = Inr (bd0, v1) \<longrightarrow>
        migrate cfg env u cs bds base v0
          = (case flashLoanOrSwap cfg env bd0 0 (initialData u bd0 cs base) v1 of
               Inl e \<Rightarrow> Inl e
             | Inr v2 \<Rightarrow>
                (case checked_sub (inMigration v2) 1 of
                   Inl e \<Rightarrow> Inl e
                 | Inr g \<Rightarrow> Inr (v2\<lparr>inMigration := g\<rparr>))))"
proof (intro conjI impI)
  assume a: "migrate cfg env u cs bds base w = Inr w'"
  let ?bd = "resolvedPlan env u bds (calls w)"
  let ?A = "chainCalls cfg env (initialData u ?bd cs base) (length ?bd)"
  let ?T = "sum_list (map (legAmount env) ?bd)"
  let ?S = "settlementCalls cfg env u cs (calls w @ resolutionCalls u bds @ ?A)
              @ [WithdrawFrom (comet cfg) u (this cfg) base ?T, Migrated u cs 0 ?T]"
  let ?P = "map (\<lambda>(t, p, a). Transfer t p a) (paybacks env ?bd)"
  from migrate_trace [OF a] have
    n: "newCalls w w' = resolutionCalls u bds @ ?A @ ?S @ ?P"
    by (simp add: newCalls_def migrationCalls_def Let_def)
  from migrate_success [OF a] obtain bd w1 pre S0 T0 where
    r: "resolveBorrowAmounts env u bds (w\<lparr>inMigration := 1\<rparr>) = Inr (bd, w1)" and
    c: "calls w' = calls w @ pre @ S0 @ map (\<lambda>(t, p, a). Transfer t p a) (paybacks env bd)" and
    s: "map (\<lambda>(c, f, t, a). (c, f, t)) (List.map_filter pulled S0)
          = map (\<lambda>c. (cToken c, u, this cfg)) cs"
       "List.map_filter pulled pre = []"
    by blast
  from resolve_exact [OF r] have bd: "bd = ?bd" by simp
  have len: "length ?bd = length bds" by (rule resolvedPlan_length)
  have sel: "borrowData (initialData u ?bd cs base) = ?bd" "step (initialData u ?bd cs base) = 0"
    "user (initialData u ?bd cs base) = u"
    by (simp_all add: initialData_def)
  have ev: "List.map_filter chainEvent ?A
            = concat (map (\<lambda>i. [Acquire i (pool (?bd ! i)) (isFlashLoan (?bd ! i))
                                   (borrowAmount (?bd ! i)),
                                 Repay (borrowCToken (?bd ! i)) u (borrowAmount (?bd ! i))])
                [0..<length bds])"
    by (simp add: chainCalls_events sel len)
  have st: "List.map_filter acquiredStep ?A = [0..<length bds]"
  proof -
    have "List.map_filter acquiredStep (chainCalls cfg env d n) = [step d..<step d + n]" for d n
    proof (induction n arbitrary: d)
      case 0
      show ?case by (simp add: mf)
    next
      case (Suc n)
      have up: "[step d..<step d + Suc n] = step d # [Suc (step d)..<Suc (step d) + n]"
        by (simp add: upt_conv_Cons)
      show ?case unfolding up by (simp add: mf pre_facts Suc.IH nextData_sel)
    qed
    then show ?thesis by (simp add: sel len)
  qed
  have pl: "map (\<lambda>(c, f, t, a). (c, f, t)) (List.map_filter pulled ?S)
            = map (\<lambda>c. (cToken c, u, this cfg)) cs"
  proof -
    have "List.map_filter pulled (newCalls w w') = List.map_filter pulled S0"
      using c s(2) by (simp add: newCalls_def map_filter_append paybacks_facts)
    moreover have "List.map_filter pulled (newCalls w w') = List.map_filter pulled ?S"
      unfolding n
      by (simp only: map_filter_append resolutionCalls_facts chainCalls_facts paybacks_facts
            append_Nil append_Nil2)
    ultimately show ?thesis using s(1) by simp
  qed
  have wd: "length (List.map_filter withdrawn ?S) = 1"
  proof -
    have "List.map_filter withdrawn (settlementCalls cfg env u cs h) = []" for h
      by (induction cs arbitrary: h) (simp_all add: mf itemCalls_def Let_def)
    then show ?thesis by (simp add: mf)
  qed
  have pb: "List.map_filter paidBack (newCalls w w')
            = rev (map (\<lambda>b. (repayToken env b, pool b, legAmount env b)) ?bd)"
  proof -
    have "List.map_filter paidBack (settlementCalls cfg env u cs h) = []" for h
      by (induction cs arbitrary: h) (simp_all add: mf itemCalls_def Let_def)
    then show ?thesis
      unfolding n
      by (simp add: map_filter_append resolutionCalls_facts chainCalls_facts paybacks_facts
            paybacks_def map_filter_Cons map_filter_Nil)
  qed
  have es: "List.map_filter chainEvent ?S = []"
    by (simp add: mf settlementCalls_events)
  show "\<exists>bd A S.
          bd = resolvedPlan env u bds (calls w) \<and> length bd = length bds
        \<and> newCalls w w' = resolutionCalls u bds @ A @ S
                             @ map (\<lambda>(t, p, a). Transfer t p a) (paybacks env bd)
        \<and> List.map_filter chainEvent A
            = concat (map (\<lambda>i. [Acquire i (pool (bd ! i)) (isFlashLoan (bd ! i))
                                   (borrowAmount (bd ! i)),
                                 Repay (borrowCToken (bd ! i)) u (borrowAmount (bd ! i))])
                [0..<length bds])
        \<and> List.map_filter acquiredStep A = [0..<length bds]
        \<and> List.map_filter pulled A = [] \<and> List.map_filter supplied A = []
        \<and> List.map_filter withdrawn A = []
        \<and> map (\<lambda>(c, f, t, a). (c, f, t)) (List.map_filter pulled S)
            = map (\<lambda>c. (cToken c, u, this cfg)) cs
        \<and> length (List.map_filter withdrawn S) = 1
        \<and> List.map_filter chainEvent S = []
        \<and> List.map_filter chainEvent (resolutionCalls u bds) = []
        \<and> List.map_filter chainEvent (map (\<lambda>(t, p, a). Transfer t p a) (paybacks env bd)) = []
        \<and> List.map_filter paidBack (newCalls w w')
            = rev (map (\<lambda>b. (repayToken env b, pool b, legAmount env b)) bd)"
    apply (rule exI [of _ ?bd], rule exI [of _ ?A], rule exI [of _ ?S])
    apply (intro conjI)
                 apply (rule refl)
                apply (rule len)
               apply (rule n)
              apply (rule ev)
             apply (rule st)
            apply (rule chainCalls_facts)
           apply (rule chainCalls_facts)
          apply (rule chainCalls_facts)
         apply (rule pl)
        apply (rule wd)
       apply (rule es)
      apply (rule resolutionCalls_events)
     apply (rule paybacks_events)
    apply (rule pb)
    done
next
  assume n: "\<not> (reachesRepayment cfg env d v \<and> repayCode cfg env d v = 0)"
  show "isl (flashLoanOrSwap cfg env (borrowData d) (step d) d v)"
  proof (cases "flashLoanOrSwap cfg env (borrowData d) (step d) d v")
    case (Inl e)
    then show ?thesis by simp
  next
    case (Inr v')
    from leg_reaches [OF Inr] n show ?thesis by simp
  qed
next
  assume r: "reachesRepayment cfg env d v \<and> repayCode cfg env d v = 0"
  then have p:
    "inMigration v = 1" "step d < length (borrowData d)"
    "unat (totalBaseToBorrow d) + legNat env (borrowData d ! step d) < 2 ^ 256"
    "isFlashLoan (borrowData d ! step d) \<or> borrowAmount (borrowData d ! step d) \<noteq> 2 ^ 255"
    "\<not> reverts env (acquireCall cfg env (borrowData d ! step d) d) (calls v)"
    "\<not> reverts env (hd (repayCalls env (user d) (borrowData d ! step d)))
         (calls v @ [acquireCall cfg env (borrowData d ! step d) d])"
    "\<not> reverts env (RepayBorrowBehalf (borrowCToken (borrowData d ! step d)) (user d)
           (borrowAmount (borrowData d ! step d)))
         (calls v @ [acquireCall cfg env (borrowData d ! step d) d,
                     hd (repayCalls env (user d) (borrowData d ! step d))])"
    by (simp_all add: reachesRepayment_def repayCalls_def)
  from r have c: "repayBorrowBehalf env (borrowCToken (borrowData d ! step d)) (user d)
           (borrowAmount (borrowData d ! step d))
           (calls v @ [acquireCall cfg env (borrowData d ! step d) d,
                       hd (repayCalls env (user d) (borrowData d ! step d))]) = 0"
    by (simp add: repayCode_def)
  show "flashLoanOrSwap cfg env (borrowData d) (step d) d v
          = (case (if length (borrowData d) - 1 \<le> step d
                   then migrateCollateralAndBorrow cfg env d
                          (totalBaseToBorrow d + legAmount env (borrowData d ! step d))
                          (afterRepayment cfg env d v)
                   else flashLoanOrSwap cfg env (borrowData d) (step d + 1)
                          (nextData d (totalBaseToBorrow d + legAmount env (borrowData d ! step d)))
                          (afterRepayment cfg env d v)) of
               Inl e \<Rightarrow> Inl e
             | Inr w3 \<Rightarrow>
                (case ext env (Transfer (repayToken env (borrowData d ! step d))
                                 (pool (borrowData d ! step d))
                                 (legAmount env (borrowData d ! step d))) w3 of
                   Inl e \<Rightarrow> Inl e
                 | Inr w5 \<Rightarrow> if poolRejects env (pool (borrowData d ! step d)) (calls w5)
                              then Inl ExternalRevert else Inr w5))"
    unfolding leg_unfold [OF p(1) p(2) refl p(3) p(4) p(5) p(6) p(7)] afterRepayment_def
    using c by simp
next
  assume "inMigration v0 = 0"
    and "resolveBorrowAmounts env u bds (v0\<lparr>inMigration := 1\<rparr>) = Inr (bd0, v1)"
  then show "migrate cfg env u cs bds base v0
          = (case flashLoanOrSwap cfg env bd0 0 (initialData u bd0 cs base) v1 of
               Inl e \<Rightarrow> Inl e
             | Inr v2 \<Rightarrow>
                (case checked_sub (inMigration v2) 1 of
                   Inl e \<Rightarrow> Inl e
                 | Inr g \<Rightarrow> Inr (v2\<lparr>inMigration := g\<rparr>)))"
    by (simp add: migrate_def checked_add_def initialData_def)
qed

theorem steps_in_plan_order_witness:
  "migrate cfg0 envL 7 collL planD 20 w0 = Inr wL
   \<and> resolvedPlan envL 7 planD (calls w0) = borrowData (dataL 0 0)
   \<and> (\<exists>A S. newCalls w0 wL = resolutionCalls 7 planD @ A @ S
                  @ map (\<lambda>(t, p, a). Transfer t p a) (paybacks envL (borrowData (dataL 0 0)))
          \<and> List.map_filter chainEvent A
              = [Acquire 0 30 True 400, Repay 10 7 400, Acquire 1 31 True 1000, Repay 10 7 1000]
          \<and> List.map_filter acquiredStep A = [0, 1]
          \<and> length (List.map_filter withdrawn S) = 1
          \<and> List.map_filter chainEvent S = [])
   \<and> List.map_filter chainEvent (newCalls w0 wL)
       = [Acquire 0 30 True 400, Repay 10 7 400, Acquire 1 31 True 1000, Repay 10 7 1000]
   \<and> List.map_filter paidBack (newCalls w0 wL) = [(20, 31, 1002), (20, 30, 403)]
   \<and> \<not> reachesRepayment cfg0 env0 (dataB 2 1405) wEngaged
   \<and> isl (flashLoanOrSwap cfg0 env0 planB 2 (dataB 2 1405) wEngaged)
   \<and> reachesRepayment cfg0 env0 (dataB 0 0) wEngaged
   \<and> repayCode cfg0 env0 (dataB 0 0) wEngaged = 0
   \<and> flashLoanOrSwap cfg0 env0 planB 0 (dataB 0 0) wEngaged
       = (case flashLoanOrSwap cfg0 env0 planB 1 (dataB 1 1003) wPre1 of
            Inl e \<Rightarrow> Inl e
          | Inr w3 \<Rightarrow> Inr (w3\<lparr>calls := calls w3 @ [Transfer 20 30 1003]\<rparr>))
   \<and> resolveBorrowAmounts env0 7 planB (w0\<lparr>inMigration := 1\<rparr>) = Inr (planB, wEngaged)
   \<and> migrate cfg0 env0 7 collA planB 21 w0
       = (case flashLoanOrSwap cfg0 env0 planB 0 (dataB 0 0) wEngaged of
            Inl e \<Rightarrow> Inl e
          | Inr v2 \<Rightarrow>
             (case checked_sub (inMigration v2) 1 of
                Inl e \<Rightarrow> Inl e
              | Inr g \<Rightarrow> Inr (v2\<lparr>inMigration := g\<rparr>)))"
proof -
  have sel: "borrowData (dataB k t) = planB" "step (dataB k t) = k" "user (dataB k t) = 7"
    "totalBaseToBorrow (dataB k t) = t" for k t
    by (simp_all add: dataB_def)
  have e: "calls w0 = []" by (simp add: w0_def)
  have rp: "resolvedPlan envL 7 planD (calls w0) = borrowData (dataL 0 0)"
    by (simp add: planD_def dataL_def envL_sel repaidTo_def mf e MAX_UINT256_def)
  note T1 = steps_in_plan_order [where cfg = cfg0 and env = envL and u = 7 and cs = collL
      and bds = planD and base = 20 and w = w0 and w' = wL, THEN conjunct1, THEN mp,
      OF scenarioL_run]
  from T1 obtain bd A S where
    bd: "bd = resolvedPlan envL 7 planD (calls w0)" and
    n: "newCalls w0 wL = resolutionCalls 7 planD @ A @ S
          @ map (\<lambda>(t, p, a). Transfer t p a) (paybacks envL bd)" and
    ev: "List.map_filter chainEvent A
            = concat (map (\<lambda>i. [Acquire i (pool (bd ! i)) (isFlashLoan (bd ! i))
                                   (borrowAmount (bd ! i)),
                                 Repay (borrowCToken (bd ! i)) 7 (borrowAmount (bd ! i))])
                [0..<length planD])" and
    st: "List.map_filter acquiredStep A = [0..<length planD]" and
    wd: "length (List.map_filter withdrawn S) = 1" and
    es: "List.map_filter chainEvent S = []"
    by blast
  have bd': "bd = borrowData (dataL 0 0)" using bd rp by simp
  have ev': "List.map_filter chainEvent A
      = [Acquire 0 30 True 400, Repay 10 7 400, Acquire 1 31 True 1000, Repay 10 7 1000]"
    unfolding ev bd' by (simp add: planD_def dataL_def)
  have st': "List.map_filter acquiredStep A = [0, 1]"
    unfolding st by (simp add: planD_def)
  have 1: "\<exists>A S. newCalls w0 wL = resolutionCalls 7 planD @ A @ S
                  @ map (\<lambda>(t, p, a). Transfer t p a) (paybacks envL (borrowData (dataL 0 0)))
          \<and> List.map_filter chainEvent A
              = [Acquire 0 30 True 400, Repay 10 7 400, Acquire 1 31 True 1000, Repay 10 7 1000]
          \<and> List.map_filter acquiredStep A = [0, 1]
          \<and> length (List.map_filter withdrawn S) = 1
          \<and> List.map_filter chainEvent S = []"
    apply (rule exI [of _ A], rule exI [of _ S])
    using n ev' st' wd es unfolding bd' by simp
  have 2: "List.map_filter chainEvent (newCalls w0 wL)
       = [Acquire 0 30 True 400, Repay 10 7 400, Acquire 1 31 True 1000, Repay 10 7 1000]"
    "List.map_filter paidBack (newCalls w0 wL) = [(20, 31, 1002), (20, 30, 403)]"
    by (simp_all add: newCalls_def w0_def wL_def mf dataL_def)
  have nr: "\<not> reachesRepayment cfg0 env0 (dataB 2 1405) wEngaged"
    by (simp add: reachesRepayment_def sel planB_def)
  note T2 = steps_in_plan_order [where cfg = cfg0 and env = env0 and d = "dataB 2 1405"
      and v = wEngaged, THEN conjunct2, THEN conjunct1, THEN mp]
  from T2 nr have 3: "isl (flashLoanOrSwap cfg0 env0 planB 2 (dataB 2 1405) wEngaged)"
    by (simp add: sel)
  have r0: "reachesRepayment cfg0 env0 (dataB 0 0) wEngaged"
    by (simp add: reachesRepayment_def sel env0_sel wEngaged_def planB_def legNat_def flashFee_def
          isPoolToken0_def)
  have c0: "repayCode cfg0 env0 (dataB 0 0) wEngaged = 0"
    by (simp add: repayCode_def sel env0_sel planB_def)
  have nd: "nextData (dataB 0 0)
      (totalBaseToBorrow (dataB 0 0) + legAmount env0 (borrowData (dataB 0 0) ! step (dataB 0 0)))
      = dataB 1 1003"
    by (simp add: nextData_def dataB_def planB_def legAmount_def flashFee_def isPoolToken0_def
          env0_sel)
  have ar: "afterRepayment cfg0 env0 (dataB 0 0) wEngaged = wPre1"
    by (simp add: afterRepayment_def sel wEngaged_def wPre1_def acquireCall_def repayCalls_def
          isPoolToken0_def env0_sel cfg0_def planB_def)
  have pb: "Transfer (repayToken env0 (borrowData (dataB 0 0) ! step (dataB 0 0)))
              (pool (borrowData (dataB 0 0) ! step (dataB 0 0)))
              (legAmount env0 (borrowData (dataB 0 0) ! step (dataB 0 0))) = Transfer 20 30 1003"
    by (simp add: sel planB_def repayToken_def legAmount_def flashFee_def isPoolToken0_def env0_sel)
  note T3 = steps_in_plan_order [where cfg = cfg0 and env = env0 and d = "dataB 0 0"
      and v = wEngaged, THEN conjunct2, THEN conjunct2, THEN conjunct1, THEN mp, OF conjI,
      OF r0 c0]
  have 4: "flashLoanOrSwap cfg0 env0 planB 0 (dataB 0 0) wEngaged
       = (case flashLoanOrSwap cfg0 env0 planB 1 (dataB 1 1003) wPre1 of
            Inl e \<Rightarrow> Inl e
          | Inr w3 \<Rightarrow> Inr (w3\<lparr>calls := calls w3 @ [Transfer 20 30 1003]\<rparr>))"
    using T3 unfolding nd ar pb
    by (simp add: sel planB_def ext_def env0_sel cong: sum.case_cong)
  have rs: "resolveBorrowAmounts env0 7 planB (w0\<lparr>inMigration := 1\<rparr>) = Inr (planB, wEngaged)"
    by (simp add: planB_def MAX_UINT256_def w0_def wEngaged_def)
  have g0: "inMigration w0 = 0" by (simp add: w0_def)
  have id: "initialData 7 planB collA 21 = dataB 0 0"
    by (simp add: initialData_def dataB_def)
  note T4 = steps_in_plan_order [where cfg = cfg0 and env = env0 and u = 7 and cs = collA
      and bds = planB and base = 21 and ?v0.0 = w0 and ?bd0.0 = planB and ?v1.0 = wEngaged,
      THEN conjunct2, THEN conjunct2, THEN conjunct2, THEN mp, THEN mp, OF g0 rs]
  have 5: "migrate cfg0 env0 7 collA planB 21 w0
       = (case flashLoanOrSwap cfg0 env0 planB 0 (dataB 0 0) wEngaged of
            Inl e \<Rightarrow> Inl e
          | Inr v2 \<Rightarrow>
             (case checked_sub (inMigration v2) 1 of
                Inl e \<Rightarrow> Inl e
              | Inr g \<Rightarrow> Inr (v2\<lparr>inMigration := g\<rparr>)))"
    using T4 unfolding id .
  from scenarioL_run rp 1 2 nr 3 r0 c0 4 rs 5 show ?thesis by simp
qed

text \<open>
  C9, as amended. A call of \<open>sweep\<close> made while the guard is not 0 fails with
  \<open>Reentrancy(2)\<close> and changes nothing. With the guard at 0 and a token other than the
  zero address, it transfers the contract's whole balance of the token to \<open>sweepee\<close>;
  it fails with \<open>SweepFailure(1)\<close> when the transfer answers false, and with the
  token's own revert, not with \<open>SweepFailure\<close>, when the transfer reverts. With the zero
  address it sends the contract's whole native balance to \<open>sweepee\<close>, and fails with
  \<open>SweepFailure(0)\<close> when the send fails. The read of the balance is taken to answer.
\<close>

theorem sweep_guarded:
  "(inMigration w \<noteq> 0 \<longrightarrow> transact (sweep cfg env token) w = (w, Some (Reentrancy 2)))
   \<and> (inMigration w = 0 \<longrightarrow> token \<noteq> 0 \<longrightarrow>
        \<not> reverts env (Transfer token (sweepee cfg) (balanceOf env token (this cfg) (calls w))) (calls w) \<longrightarrow>
        transact (sweep cfg env token) w
          = (if transfer env token (sweepee cfg) (balanceOf env token (this cfg) (calls w)) (calls w)
             then (w\<lparr>calls := calls w @
                     [Transfer token (sweepee cfg) (balanceOf env token (this cfg) (calls w))]\<rparr>, None)
             else (w, Some (SweepFailure 1))))
   \<and> (inMigration w = 0 \<longrightarrow> token \<noteq> 0 \<longrightarrow>
        reverts env (Transfer token (sweepee cfg) (balanceOf env token (this cfg) (calls w))) (calls w) \<longrightarrow>
        transact (sweep cfg env token) w = (w, Some ExternalRevert))
   \<and> (inMigration w = 0 \<longrightarrow> token = 0 \<longrightarrow>
        transact (sweep cfg env token) w
          = (if send env (sweepee cfg) (balance env (this cfg) (calls w)) (calls w)
             then (w\<lparr>calls := calls w @ [Send (sweepee cfg) (balance env (this cfg) (calls w))]\<rparr>, None)
             else (w, Some (SweepFailure 0))))"
  by (simp add: sweep_def transact_def ext_def)

theorem sweep_guarded_witness:
  "inMigration wEngaged \<noteq> 0
   \<and> transact (sweep cfg0 env0 22) wEngaged = (wEngaged, Some (Reentrancy 2))
   \<and> inMigration w0 = 0 \<and> (22 :: address) \<noteq> 0
   \<and> transact (sweep cfg0 env0 22) w0 = (\<lparr>inMigration = 0, calls = [Transfer 22 103 500]\<rparr>, None)
   \<and> transact (sweep cfg0 env0 0) w0 = (\<lparr>inMigration = 0, calls = [Send 103 0]\<rparr>, None)
   \<and> transact (sweep cfg0 (env0\<lparr>transfer := (\<lambda>t r a h. False)\<rparr>) 22) w0 = (w0, Some (SweepFailure 1))
   \<and> transact (sweep cfg0 (env0\<lparr>send := (\<lambda>r a h. False)\<rparr>) 0) w0 = (w0, Some (SweepFailure 0))
   \<and> transact (sweep cfg0 (env0\<lparr>reverts := (\<lambda>c h. True)\<rparr>) 22) w0 = (w0, Some ExternalRevert)"
  using sweep_guarded [of wEngaged cfg0 env0 22] sweep_guarded [of w0 cfg0 env0 22]
    sweep_guarded [of w0 cfg0 env0 0]
    sweep_guarded [of w0 cfg0 "env0\<lparr>transfer := (\<lambda>t r a h. False)\<rparr>" 22]
    sweep_guarded [of w0 cfg0 "env0\<lparr>send := (\<lambda>r a h. False)\<rparr>" 0]
    sweep_guarded [of w0 cfg0 "env0\<lparr>reverts := (\<lambda>c h. True)\<rparr>" 22]
  by (simp add: wEngaged_def w0_def cfg0_def env0_def)

text \<open>
  C9 as stated fails for a token whose transfer reverts: with the guard idle, the sweep of
  token 22, every call to which reverts, does not succeed, and it fails with the revert of
  the token, which is no \<open>SweepFailure\<close>.
\<close>

theorem sweep_guarded_counterexample:
  "inMigration w0 = 0
   \<and> (22 :: address) \<noteq> 0
   \<and> reverts envR (Transfer 22 (sweepee cfg0) (balanceOf envR 22 (this cfg0) (calls w0))) (calls w0)
   \<and> transact (sweep cfg0 envR 22) w0 = (w0, Some ExternalRevert)
   \<and> ExternalRevert \<noteq> SweepFailure 0
   \<and> ExternalRevert \<noteq> SweepFailure 1"
  by (simp add: sweep_def transact_def ext_def w0_def envR_def env0_def)

text \<open>
  C10. A call of \<open>migrate\<close> whose plan has no borrow entry always fails: with
  \<open>Reentrancy(0)\<close> when the guard is engaged, and otherwise with the out-of-bounds panic of
  the lookup of entry 0 in \<open>flashLoanOrSwap\<close>, before any call to another contract has
  been made. As a transaction it leaves the state as it was, so a migration of collateral
  alone never succeeds.
\<close>

theorem migrate_without_borrow_fails:
  "transact (migrate cfg env u cs [] base) w
     = (w, Some (if inMigration w \<noteq> 0 then Reentrancy 0 else Panic 0x32))"
  by (simp add: transact_def migrate_def checked_add_def flashLoanOrSwap.simps)

theorem migrate_without_borrow_fails_witness:
  "transact (migrate cfg0 env0 7 collA [] 21) w0 = (w0, Some (Panic 0x32))"
  using migrate_without_borrow_fails [of cfg0 env0 7 collA 21 w0] by (simp add: w0_def)

end
